(* ===== verification/Fenris_Error.thy ===== *)
theory Fenris_Error
  imports Prelude
begin

section \<open>Errors and results (common/src/error.rs)\<close>

text \<open>
  The error type of the workspace, its texts as the \<open>thiserror\<close> attributes give them,
  and the result type.  \<open>Ok\<close> and \<open>Err\<close> are the two arms of \<open>Result\<close>; \<open>Panic\<close> stands
  for a Rust panic, which the code never catches.  \<open>res_bind\<close> is the \<open>?\<close> operator,
  \<open>state_bind\<close> the same for code that threads a state.  An \<open>io::Error\<close> is its kind and
  its message.
\<close>

datatype io_error_kind = TimedOut | UnexpectedEof | BrokenPipe | NotFound | IoOther

datatype io_error = IoError (io_kind: io_error_kind) (io_text: string)

datatype fenris_error =
    EncryptionError string
  | DecryptionError string
  | InvalidKeySize nat nat
  | InvalidIvSize nat nat
  | CompressionError string
  | DecompressionError string
  | NetworkError io_error
  | FrameTooLarge nat nat
  | InvalidFrame string
  | ConnectionClosed
  | InvalidProtocolMessage
  | AuthenticationError string
  | InvalidRequest string
  | MissingField string
  | FileOperationError string
  | SerializationError string

fun error_to_string :: "fenris_error \<Rightarrow> string" where
  "error_to_string (EncryptionError m) = ''Encryption error: '' @ m"
| "error_to_string (DecryptionError m) = ''Decryption error: '' @ m"
| "error_to_string (InvalidKeySize e g) =
     ''Invalid key size: expected '' @ show_nat e @ '', got '' @ show_nat g"
| "error_to_string (InvalidIvSize e g) =
     ''Invalid IV size: expected '' @ show_nat e @ '', got '' @ show_nat g"
| "error_to_string (CompressionError m) = ''Compression error: '' @ m"
| "error_to_string (DecompressionError m) = ''Decompression error: '' @ m"
| "error_to_string (NetworkError e) = ''Network error: '' @ io_text e"
| "error_to_string (FrameTooLarge m g) =
     ''Frame too large: max '' @ show_nat m @ '' bytes, got '' @ show_nat g @ '' bytes''"
| "error_to_string (InvalidFrame m) = ''Invalid frame: '' @ m"
| "error_to_string ConnectionClosed = ''Connection closed''"
| "error_to_string InvalidProtocolMessage = ''Invalid protocol message''"
| "error_to_string (AuthenticationError m) = ''Authentication error: '' @ m"
| "error_to_string (InvalidRequest m) = ''Invalid request: '' @ m"
| "error_to_string (MissingField m) = ''Missing required field: '' @ m"
| "error_to_string (FileOperationError m) = ''File operation failed: '' @ m"
| "error_to_string (SerializationError m) = ''Serialization error: '' @ m"

datatype 'a res = Ok 'a | Err fenris_error | Panic

fun is_ok :: "'a res \<Rightarrow> bool" where
  "is_ok (Ok x) = True"
| "is_ok (Err e) = False"
| "is_ok Panic = False"

fun res_bind :: "'a res \<Rightarrow> ('a \<Rightarrow> 'b res) \<Rightarrow> 'b res" where
  "res_bind (Ok x) f = f x"
| "res_bind (Err e) f = Err e"
| "res_bind Panic f = Panic"

fun res_map :: "('a \<Rightarrow> 'b) \<Rightarrow> 'a res \<Rightarrow> 'b res" where
  "res_map f (Ok x) = Ok (f x)"
| "res_map f (Err e) = Err e"
| "res_map f Panic = Panic"

text \<open>\<open>map_err\<close> over a foreign result, whose error is its message.\<close>

fun ok_or_err :: "(string \<Rightarrow> fenris_error) \<Rightarrow> string + 'a \<Rightarrow> 'a res" where
  "ok_or_err k (Inl m) = Err (k m)"
| "ok_or_err k (Inr x) = Ok x"

type_synonym ('s, 'a) action = "'s \<Rightarrow> 'a res \<times> 's"

definition state_bind :: "('s, 'a) action \<Rightarrow> ('a \<Rightarrow> ('s, 'b) action) \<Rightarrow> ('s, 'b) action" where
  "state_bind m f = (\<lambda>s. case m s of
       (Ok x, s') \<Rightarrow> f x s'
     | (Err e, s') \<Rightarrow> (Err e, s')
     | (Panic, s') \<Rightarrow> (Panic, s'))"

definition state_return :: "'a \<Rightarrow> ('s, 'a) action" where
  "state_return x = (\<lambda>s. (Ok x, s))"

definition state_lift :: "'a res \<Rightarrow> ('s, 'a) action" where
  "state_lift r = (\<lambda>s. (r, s))"

text \<open>Results of the programs' own functions, \<open>anyhow::Result\<close>: an error is its text.  Actions
  with such a result are composed as the question mark does.\<close>

datatype 'a anyhow = Done 'a | Failed string | Crashed

fun res_anyhow :: "'a res \<Rightarrow> 'a anyhow" where
  "res_anyhow (Ok x) = Done x"
| "res_anyhow (Err e) = Failed (error_to_string e)"
| "res_anyhow Panic = Crashed"

fun io_anyhow :: "string + 'a \<Rightarrow> 'a anyhow" where
  "io_anyhow (Inl e) = Failed e"
| "io_anyhow (Inr x) = Done x"

fun any_bind :: "'a anyhow \<Rightarrow> ('a \<Rightarrow> 'b anyhow) \<Rightarrow> 'b anyhow" where
  "any_bind (Done x) f = f x"
| "any_bind (Failed e) f = Failed e"
| "any_bind Crashed f = Crashed"

definition any_then :: "('s \<Rightarrow> 'a anyhow \<times> 's) \<Rightarrow> ('a \<Rightarrow> 's \<Rightarrow> 'b anyhow \<times> 's) \<Rightarrow> 's \<Rightarrow> 'b anyhow \<times> 's" where
  "any_then m f s = (case m s of
       (Done x, s') \<Rightarrow> f x s'
     | (Failed e, s') \<Rightarrow> (Failed e, s')
     | (Crashed, s') \<Rightarrow> (Crashed, s'))"

lemma any_then_eq_Done:
  "any_then m f s = (Done y, t) \<longleftrightarrow> (\<exists>x s'. m s = (Done x, s') \<and> f x s' = (Done y, t))"
  by (auto simp: any_then_def split: prod.splits anyhow.splits)

lemma res_anyhow_eq [simp]: "res_anyhow r = Done x \<longleftrightarrow> r = Ok x" "res_anyhow r = Crashed \<longleftrightarrow> r = Panic"
  by (cases r; auto)+

lemma io_anyhow_eq [simp]: "io_anyhow r = Done x \<longleftrightarrow> r = Inr x" "io_anyhow r \<noteq> Crashed"
  by (cases r; auto)+

lemma res_bind_eq_Ok: "res_bind r f = Ok y \<longleftrightarrow> (\<exists>x. r = Ok x \<and> f x = Ok y)"
  by (cases r) auto

lemma res_bind_assoc: "res_bind (res_bind r f) g = res_bind r (\<lambda>x. res_bind (f x) g)"
  by (cases r) auto

lemma res_map_eq_Ok: "res_map f r = Ok y \<longleftrightarrow> (\<exists>x. r = Ok x \<and> y = f x)"
  by (cases r) auto

lemma ok_or_err_eq_Ok: "ok_or_err k r = Ok y \<longleftrightarrow> r = Inr y"
  by (cases r) auto

lemma ok_or_err_not_Panic [simp]: "ok_or_err k r \<noteq> Panic"
  by (cases r) auto

lemma is_ok_iff: "is_ok r \<longleftrightarrow> (\<exists>x. r = Ok x)"
  by (cases r) auto

lemma state_bind_eq_Ok:
  "state_bind m f s = (Ok y, t) \<longleftrightarrow> (\<exists>x s'. m s = (Ok x, s') \<and> f x s' = (Ok y, t))"
  by (auto simp: state_bind_def split: prod.splits res.splits)

lemma state_bind_Ok [simp]: "m s = (Ok x, s') \<Longrightarrow> state_bind m f s = f x s'"
  by (simp add: state_bind_def)

lemma state_bind_Err [simp]: "m s = (Err e, s') \<Longrightarrow> state_bind m f s = (Err e, s')"
  by (simp add: state_bind_def)

lemma state_bind_Panic [simp]: "m s = (Panic, s') \<Longrightarrow> state_bind m f s = (Panic, s')"
  by (simp add: state_bind_def)

lemma state_return_apply [simp]: "state_return x s = (Ok x, s)"
  by (simp add: state_return_def)

lemma state_lift_apply [simp]: "state_lift r s = (r, s)"
  by (simp add: state_lift_def)

lemmas res_simps = res_bind_eq_Ok res_map_eq_Ok ok_or_err_eq_Ok

end
