(* ===== verification/Utf8.thy ===== *)
theory Utf8
  imports Prelude
begin

section \<open>UTF-8 text of the standard library\<close>

text \<open>
  A Rust \<open>String\<close> is a byte sequence that is valid UTF-8.  This theory models what the
  code uses of the standard library's text: conversion between bytes and texts,
  \<open>String::from_utf8_lossy\<close> and \<open>Path::to_string_lossy\<close> (each maximal invalid prefix
  becomes one replacement character), \<open>chars\<close>, character boundaries, \<open>trim\<close>,
  \<open>split_whitespace\<close> and \<open>lines\<close>.
\<close>

definition code_of :: "char \<Rightarrow> nat" where
  "code_of c = of_char c"

definition bytes_of :: "string \<Rightarrow> bytes" where
  "bytes_of s = map (\<lambda>c. of_nat (of_char c)) s"

definition string_of :: "bytes \<Rightarrow> string" where
  "string_of bs = map (\<lambda>b. char_of (unat b)) bs"

lemma code_of_less [simp]: "code_of c < 256"
  by (simp add: code_of_def)

lemma string_of_bytes_of [simp, roundtrips]: "string_of (bytes_of s) = s"
  by (simp add: string_of_def bytes_of_def comp_def unat_of_nat_byte)

lemma bytes_of_string_of [simp, roundtrips]: "bytes_of (string_of bs) = bs"
  by (simp add: string_of_def bytes_of_def comp_def)

lemma length_bytes_of [simp]: "length (bytes_of s) = length s"
  by (simp add: bytes_of_def)

lemma length_string_of [simp]: "length (string_of bs) = length bs"
  by (simp add: string_of_def)

subsection \<open>Decoding one character\<close>

definition cont_at :: "string \<Rightarrow> nat \<Rightarrow> bool" where
  "cont_at s i \<longleftrightarrow> i < length s \<and> 128 \<le> code_of (s ! i) \<and> code_of (s ! i) \<le> 191"

definition second_ok :: "nat \<Rightarrow> string \<Rightarrow> bool" where
  "second_ok x r \<longleftrightarrow> r \<noteq> [] \<and>
     (let y = code_of (r ! 0) in
      if x = 224 then 160 \<le> y \<and> y \<le> 191
      else if x = 237 then 128 \<le> y \<and> y \<le> 159
      else if x = 240 then 144 \<le> y \<and> y \<le> 191
      else if x = 244 then 128 \<le> y \<and> y \<le> 143
      else 128 \<le> y \<and> y \<le> 191)"

text \<open>Whether the text starts with a character, and how many bytes that takes (or the
  length of the invalid prefix).\<close>

fun utf8_step :: "string \<Rightarrow> bool \<times> nat" where
  "utf8_step [] = (True, 0)"
| "utf8_step (c # r) =
     (let x = code_of c in
      if x < 128 then (True, 1)
      else if 194 \<le> x \<and> x \<le> 223 then (if cont_at r 0 then (True, 2) else (False, 1))
      else if 224 \<le> x \<and> x \<le> 239 then
        (if \<not> second_ok x r then (False, 1)
         else if \<not> cont_at r 1 then (False, 2) else (True, 3))
      else if 240 \<le> x \<and> x \<le> 244 then
        (if \<not> second_ok x r then (False, 1)
         else if \<not> cont_at r 1 then (False, 2)
         else if \<not> cont_at r 2 then (False, 3) else (True, 4))
      else (False, 1))"

lemma cont_at_length: "cont_at r i \<Longrightarrow> Suc i \<le> length r"
  by (simp add: cont_at_def)

lemma second_ok_length: "second_ok x r \<Longrightarrow> Suc 0 \<le> length r"
  by (cases r) (simp_all add: second_ok_def)

lemma utf8_step_bounds: "s \<noteq> [] \<Longrightarrow> 0 < snd (utf8_step s) \<and> snd (utf8_step s) \<le> length s"
  by (cases s) (auto simp: Let_def dest: cont_at_length second_ok_length split: if_splits)

lemma cont_at_append: "i < n \<Longrightarrow> cont_at s i \<Longrightarrow> cont_at (take n s @ t) i"
  by (auto simp: cont_at_def nth_append)

lemma second_ok_append: "0 < n \<Longrightarrow> second_ok x s \<Longrightarrow> second_ok x (take n s @ t)"
  by (cases s) (auto simp: second_ok_def nth_append Let_def take_Cons')

lemma utf8_step_prefix:
  assumes "utf8_step s = (True, n)" "s \<noteq> []"
  shows "utf8_step (take n s @ t) = (True, n)"
proof (cases s)
  case Nil
  with assms show ?thesis by simp
next
  case (Cons c r)
  obtain m where n: "n = Suc m"
    using utf8_step_bounds [OF assms(2)] assms(1) by (cases n) auto
  with Cons have tk: "take n s @ t = c # (take m r @ t)"
    by simp
  show ?thesis
    unfolding tk using assms(1) n Cons
    by (auto simp: Let_def intro!: cont_at_append second_ok_append split: if_splits)
qed

function utf8_chunks :: "string \<Rightarrow> (bool \<times> string) list" where
  "utf8_chunks s =
     (if s = [] then []
      else (fst (utf8_step s), take (snd (utf8_step s)) s) # utf8_chunks (drop (snd (utf8_step s)) s))"
  by pat_completeness auto
termination
  by (relation "measure length") (auto dest: utf8_step_bounds)

declare utf8_chunks.simps [simp del]

definition utf8_valid :: "string \<Rightarrow> bool" where
  "utf8_valid s \<longleftrightarrow> (\<forall>ch \<in> set (utf8_chunks s). fst ch)"

definition replacement :: string where
  "replacement = [char_of (239::nat), char_of (191::nat), char_of (189::nat)]"

definition utf8_lossy :: "string \<Rightarrow> string" where
  "utf8_lossy s = concat (map (\<lambda>(v, seg). if v then seg else replacement) (utf8_chunks s))"

definition from_utf8_lossy :: "bytes \<Rightarrow> string" where
  "from_utf8_lossy bs = utf8_lossy (string_of bs)"

text \<open>The characters of a text, each as its bytes.\<close>

definition utf8_chars :: "string \<Rightarrow> string list" where
  "utf8_chars s = map snd (utf8_chunks s)"

lemma utf8_chunks_Nil [simp]: "utf8_chunks [] = []"
  by (simp add: utf8_chunks.simps)

lemma concat_utf8_chars [simp]: "concat (utf8_chars s) = s"
  unfolding utf8_chars_def
proof (induction s rule: utf8_chunks.induct)
  case (1 s)
  then show ?case
    by (cases "s = []") (simp_all add: utf8_chunks.simps [of s])
qed

text \<open>A valid character is recognised whatever follows it.\<close>

definition utf8_char :: "string \<Rightarrow> bool" where
  "utf8_char seg \<longleftrightarrow> seg \<noteq> [] \<and> utf8_step seg = (True, length seg)"

lemma utf8_chunks_char: "utf8_char seg \<Longrightarrow> utf8_chunks (seg @ t) = (True, seg) # utf8_chunks t"
  using utf8_step_prefix [of seg "length seg" t]
  by (simp add: utf8_char_def utf8_chunks.simps [of "seg @ t"])

lemma utf8_chunks_concat:
  "(\<And>seg. seg \<in> set segs \<Longrightarrow> utf8_char seg) \<Longrightarrow>
   utf8_chunks (concat segs @ t) = map (Pair True) segs @ utf8_chunks t"
  by (induction segs) (simp_all add: utf8_chunks_char)

lemma utf8_chunks_segments:
  "ch \<in> set (utf8_chunks s) \<Longrightarrow> fst ch \<Longrightarrow> utf8_char (snd ch)"
proof (induction s rule: utf8_chunks.induct)
  case (1 s)
  show ?case
  proof (cases "s = []")
    case True
    with "1.prems" show ?thesis by simp
  next
    case False
    have head: "utf8_char (take (snd (utf8_step s)) s)" if "fst (utf8_step s)"
      using that utf8_step_prefix [of s "snd (utf8_step s)" "[]"] utf8_step_bounds [OF False] False
      by (cases "utf8_step s") (auto simp: utf8_char_def min_absorb2)
    from "1.prems" False show ?thesis
      using head "1.IH" [OF False] by (subst (asm) utf8_chunks.simps) auto
  qed
qed

lemma utf8_char_replacement: "utf8_char replacement"
  by (simp add: utf8_char_def replacement_def Let_def code_of_def second_ok_def cont_at_def)

lemma utf8_valid_iff: "utf8_valid s \<longleftrightarrow> (\<forall>seg \<in> set (utf8_chars s). utf8_char seg)"
proof
  assume "utf8_valid s"
  then show "\<forall>seg \<in> set (utf8_chars s). utf8_char seg"
    by (auto simp: utf8_valid_def utf8_chars_def dest: utf8_chunks_segments)
next
  assume "\<forall>seg \<in> set (utf8_chars s). utf8_char seg"
  then have "utf8_chunks (concat (utf8_chars s) @ []) = map (Pair True) (utf8_chars s) @ utf8_chunks []"
    by (intro utf8_chunks_concat) auto
  then show "utf8_valid s"
    by (auto simp: utf8_valid_def)
qed

lemma utf8_valid_concat: "(\<And>seg. seg \<in> set segs \<Longrightarrow> utf8_char seg) \<Longrightarrow> utf8_valid (concat segs)"
  using utf8_chunks_concat [of segs "[]"] by (auto simp: utf8_valid_def)

lemma utf8_valid_append: "utf8_valid s \<Longrightarrow> utf8_valid t \<Longrightarrow> utf8_valid (s @ t)"
  using utf8_valid_concat [of "utf8_chars s @ utf8_chars t"] by (auto simp: utf8_valid_iff)

lemma utf8_lossy_valid: "utf8_valid s \<Longrightarrow> utf8_lossy s = s"
proof -
  assume "utf8_valid s"
  then have "map (\<lambda>(v, seg). if v then seg else replacement) (utf8_chunks s) = utf8_chars s"
    by (auto simp: utf8_valid_def utf8_chars_def)
  then show ?thesis
    by (simp add: utf8_lossy_def)
qed

lemma utf8_valid_lossy [simp]: "utf8_valid (utf8_lossy s)"
  unfolding utf8_lossy_def
  by (rule utf8_valid_concat)
    (auto simp: utf8_char_replacement dest: utf8_chunks_segments split: if_splits)

lemma utf8_lossy_idem [simp]: "utf8_lossy (utf8_lossy s) = utf8_lossy s"
  by (rule utf8_lossy_valid) simp

lemma from_utf8_lossy_bytes_of [simp, roundtrips]:
  "utf8_valid s \<Longrightarrow> from_utf8_lossy (bytes_of s) = s"
  by (simp add: from_utf8_lossy_def utf8_lossy_valid)

subsection \<open>ASCII\<close>

definition ascii :: "string \<Rightarrow> bool" where
  "ascii s \<longleftrightarrow> (\<forall>c \<in> set s. code_of c < 128)"

lemma utf8_char_ascii: "code_of c < 128 \<Longrightarrow> utf8_char [c]"
  by (simp add: utf8_char_def)

lemma ascii_chunks: "ascii s \<Longrightarrow> utf8_chunks s = map (\<lambda>c. (True, [c])) s"
proof (induction s)
  case Nil
  then show ?case by simp
next
  case (Cons c s)
  then show ?case
    using utf8_chunks_char [of "[c]" s] by (simp add: ascii_def utf8_char_ascii)
qed

lemma ascii_chars: "ascii s \<Longrightarrow> utf8_chars s = map (\<lambda>c. [c]) s"
  by (simp add: utf8_chars_def ascii_chunks)

lemma ascii_valid: "ascii s \<Longrightarrow> utf8_valid s"
  by (auto simp: utf8_valid_def ascii_chunks)

subsection \<open>White space\<close>

definition uchar :: "nat list \<Rightarrow> string" where
  "uchar ns = map char_of ns"

text \<open>\<open>char::is_whitespace\<close>: the \<open>White_Space\<close> property, by its UTF-8 images.\<close>

definition is_whitespace :: "string \<Rightarrow> bool" where
  "is_whitespace ch \<longleftrightarrow>
     (case map code_of ch of
        [x] \<Rightarrow> (9 \<le> x \<and> x \<le> 13) \<or> x = 32
      | [x, y] \<Rightarrow> x = 194 \<and> (y = 133 \<or> y = 160)
      | [x, y, z] \<Rightarrow>
          (x = 225 \<and> y = 154 \<and> z = 128)
          \<or> (x = 226 \<and> y = 128 \<and> (128 \<le> z \<and> z \<le> 138 \<or> z = 168 \<or> z = 169 \<or> z = 175))
          \<or> (x = 226 \<and> y = 129 \<and> z = 159)
          \<or> (x = 227 \<and> y = 128 \<and> z = 128)
      | _ \<Rightarrow> False)"

fun words_of :: "string list \<Rightarrow> string \<Rightarrow> string list" where
  "words_of [] acc = (if acc = [] then [] else [acc])"
| "words_of (ch # chs) acc =
     (if is_whitespace ch then (if acc = [] then words_of chs [] else acc # words_of chs [])
      else words_of chs (acc @ ch))"

definition split_whitespace :: "string \<Rightarrow> string list" where
  "split_whitespace s = words_of (utf8_chars s) []"

definition trim :: "string \<Rightarrow> string" where
  "trim s = concat (rev (dropWhile is_whitespace (rev (dropWhile is_whitespace (utf8_chars s)))))"

lemma words_of_nonempty: "(\<And>ch. ch \<in> set chs \<Longrightarrow> ch \<noteq> []) \<Longrightarrow> w \<in> set (words_of chs acc) \<Longrightarrow> w \<noteq> []"
  by (induction chs acc rule: words_of.induct) (auto split: if_splits)

subsection \<open>Character boundaries\<close>

text \<open>\<open>str::is_char_boundary\<close>.\<close>

definition is_char_boundary :: "string \<Rightarrow> nat \<Rightarrow> bool" where
  "is_char_boundary s i \<longleftrightarrow> i = 0 \<or> i = length s \<or> (i < length s \<and> \<not> cont_at s i)"

lemma ascii_char_boundary: "ascii s \<Longrightarrow> is_char_boundary s i \<longleftrightarrow> i \<le> length s"
proof -
  assume "ascii s"
  then have "\<not> cont_at s i"
    by (auto simp: cont_at_def ascii_def dest!: nth_mem)
  then show ?thesis
    by (auto simp: is_char_boundary_def)
qed

end
