(* ===== verification/Paths.thy ===== *)
theory Paths
  imports Utf8
begin

section \<open>Paths of the standard library (std::path on Unix)\<close>

text \<open>
  What the code uses of \<open>Path\<close> and \<open>PathBuf\<close>, on the path's text: \<open>components\<close>,
  \<open>is_absolute\<close>, \<open>parent\<close>, \<open>file_name\<close>, \<open>push\<close>, \<open>pop\<close>, \<open>join\<close>, \<open>starts_with\<close>,
  \<open>strip_prefix("/")\<close> and the comparison of paths, which compares components.  A path
  has an optional head (the root \<open>/\<close>, or a leading \<open>.\<close> of a relative path) and a body
  of segments; empty segments and later \<open>.\<close> segments are no components.  The second
  part shows how these operations act on canonical absolute paths, the keys of the
  storage backends.
\<close>

type_synonym path = string

datatype component = RootDir | CurDir | ParentDir | Normal string

abbreviation slash :: char where
  "slash \<equiv> CHR ''/''"

definition is_absolute :: "path \<Rightarrow> bool" where
  "is_absolute p \<longleftrightarrow> p \<noteq> [] \<and> hd p = slash"

definition null_seg :: "string \<Rightarrow> bool" where
  "null_seg s \<longleftrightarrow> s = '''' \<or> s = ''.''"

text \<open>A relative path whose first segment is \<open>.\<close> keeps it as a \<open>CurDir\<close>.\<close>

definition include_cur_dir :: "path \<Rightarrow> bool" where
  "include_cur_dir p \<longleftrightarrow> \<not> is_absolute p \<and> hd (split_on slash p) = ''.''"

definition path_head :: "path \<Rightarrow> string" where
  "path_head p = (if is_absolute p then ''/'' else if include_cur_dir p then ''.'' else '''')"

definition path_body :: "path \<Rightarrow> string list" where
  "path_body p = split_on slash (drop (length (path_head p)) p)"

fun seg_component :: "string \<Rightarrow> component" where
  "seg_component s = (if s = ''..'' then ParentDir else Normal s)"

definition head_components :: "path \<Rightarrow> component list" where
  "head_components p =
     (if is_absolute p then [RootDir] else if include_cur_dir p then [CurDir] else [])"

definition components :: "path \<Rightarrow> component list" where
  "components p =
     head_components p @ map seg_component (filter (\<lambda>s. \<not> null_seg s) (path_body p))"

definition path_eq :: "path \<Rightarrow> path \<Rightarrow> bool" where
  "path_eq p q \<longleftrightarrow> components p = components q"

fun starts_with_comps :: "component list \<Rightarrow> component list \<Rightarrow> bool" where
  "starts_with_comps cs [] = True"
| "starts_with_comps [] (d # ds) = False"
| "starts_with_comps (c # cs) (d # ds) = (c = d \<and> starts_with_comps cs ds)"

definition starts_with :: "path \<Rightarrow> path \<Rightarrow> bool" where
  "starts_with p q \<longleftrightarrow> starts_with_comps (components p) (components q)"

definition trim_right :: "string list \<Rightarrow> string list" where
  "trim_right segs = rev (dropWhile null_seg (rev segs))"

definition parent :: "path \<Rightarrow> path option" where
  "parent p =
     (case rev (trim_right (path_body p)) of
        [] \<Rightarrow> (if include_cur_dir p then Some '''' else None)
      | s # ss \<Rightarrow> Some (path_head p @ join_with slash (trim_right (rev ss))))"

definition file_name :: "path \<Rightarrow> string option" where
  "file_name p =
     (case rev (components p) of Normal s # _ \<Rightarrow> Some s | _ \<Rightarrow> None)"

definition push :: "path \<Rightarrow> path \<Rightarrow> path" where
  "push p q =
     (if is_absolute q then q
      else if p \<noteq> [] \<and> last p \<noteq> slash then p @ ''/'' @ q
      else p @ q)"

definition join :: "path \<Rightarrow> path \<Rightarrow> path" where
  "join p q = push p q"

definition pop :: "path \<Rightarrow> path" where
  "pop p = (case parent p of None \<Rightarrow> p | Some q \<Rightarrow> q)"

text \<open>\<open>strip_prefix("/")\<close>: of an absolute path, the trimmed body.\<close>

definition strip_root :: "path \<Rightarrow> path option" where
  "strip_root p =
     (if is_absolute p then Some (join_with slash (trim_right (dropWhile null_seg (path_body p))))
      else None)"

definition to_string_lossy :: "path \<Rightarrow> string" where
  "to_string_lossy p = utf8_lossy p"

subsection \<open>Canonical absolute paths\<close>

definition name_ok :: "string \<Rightarrow> bool" where
  "name_ok n \<longleftrightarrow> n \<noteq> '''' \<and> n \<noteq> ''.'' \<and> n \<noteq> ''..'' \<and> slash \<notin> set n"

definition abs_path :: "string list \<Rightarrow> path" where
  "abs_path ns = slash # join_with slash ns"

definition names_ok :: "string list \<Rightarrow> bool" where
  "names_ok ns \<longleftrightarrow> (\<forall>n \<in> set ns. name_ok n)"

lemma names_ok_simps [simp]:
  "names_ok []"
  "names_ok (n # ns) \<longleftrightarrow> name_ok n \<and> names_ok ns"
  "names_ok (ms @ ns) \<longleftrightarrow> names_ok ms \<and> names_ok ns"
  by (auto simp: names_ok_def)

lemma names_ok_butlast: "names_ok ns \<Longrightarrow> names_ok (butlast ns)"
  by (auto simp: names_ok_def dest: in_set_butlastD)

lemma is_absolute_abs_path [simp]: "is_absolute (abs_path ns)"
  by (simp add: is_absolute_def abs_path_def)

lemma path_head_abs_path [simp]: "path_head (abs_path ns) = ''/''"
  by (simp add: path_head_def)

lemma path_body_abs_path:
  "names_ok ns \<Longrightarrow> path_body (abs_path ns) = (if ns = [] then [''''] else ns)"
proof (cases "ns = []")
  case True
  then show ?thesis by (simp add: path_body_def) (simp add: abs_path_def)
next
  case False
  assume "names_ok ns"
  then have "slash \<notin> set n" if "n \<in> set ns" for n
    using that by (simp add: names_ok_def name_ok_def)
  with False have "split_on slash (join_with slash ns) = ns"
    by (rule split_join)
  with False show ?thesis by (simp add: path_body_def) (simp add: abs_path_def)
qed

lemma filter_names_ok: "names_ok ns \<Longrightarrow> filter (\<lambda>s. \<not> null_seg s) ns = ns"
  by (rule filter_True) (auto simp: names_ok_def name_ok_def null_seg_def)

lemma map_seg_names_ok: "names_ok ns \<Longrightarrow> map seg_component ns = map Normal ns"
  by (auto simp: names_ok_def name_ok_def)

lemma components_abs_path [simp]:
  "names_ok ns \<Longrightarrow> components (abs_path ns) = RootDir # map Normal ns"
  by (cases "ns = []")
    (simp_all add: components_def head_components_def path_body_abs_path filter_names_ok
      map_seg_names_ok, simp add: null_seg_def)

lemma abs_path_inj: "names_ok ns \<Longrightarrow> names_ok ms \<Longrightarrow> abs_path ns = abs_path ms \<longleftrightarrow> ns = ms"
proof
  assume ok: "names_ok ns" "names_ok ms" and "abs_path ns = abs_path ms"
  then have "components (abs_path ns) = components (abs_path ms)" by simp
  with ok have "map Normal ns = map Normal ms" by simp
  then show "ns = ms" by (rule map_injective) (simp add: inj_def)
qed simp

lemma path_eq_abs_path [simp]:
  "names_ok ns \<Longrightarrow> names_ok ms \<Longrightarrow> path_eq (abs_path ns) (abs_path ms) \<longleftrightarrow> ns = ms"
  by (auto simp: path_eq_def dest: map_injective simp: inj_def inj_map_eq_map)

lemma abs_path_Nil: "abs_path [] = ''/''"
  by (simp add: abs_path_def)

lemma path_eq_root [simp]: "names_ok ns \<Longrightarrow> path_eq (abs_path ns) ''/'' \<longleftrightarrow> ns = []"
  using path_eq_abs_path [of ns "[]"] by (simp add: abs_path_Nil)

lemma trim_right_names_ok: "names_ok ns \<Longrightarrow> trim_right ns = ns"
  by (cases ns rule: rev_cases) (auto simp: trim_right_def name_ok_def null_seg_def)

lemma parent_abs_path_Nil [simp]: "parent (abs_path []) = None"
  by (simp add: parent_def path_body_abs_path trim_right_def null_seg_def include_cur_dir_def)

lemma parent_abs_path_snoc [simp]:
  "names_ok ns \<Longrightarrow> name_ok n \<Longrightarrow> parent (abs_path (ns @ [n])) = Some (abs_path ns)"
  using trim_right_names_ok [of "ns @ [n]"] trim_right_names_ok [of ns]
  by (simp add: parent_def path_body_abs_path) (simp add: abs_path_def)

lemma pop_abs_path [simp]: "names_ok ns \<Longrightarrow> pop (abs_path ns) = abs_path (butlast ns)"
  by (cases ns rule: rev_cases) (simp_all add: pop_def)

lemma last_abs_path: "names_ok ns \<Longrightarrow> last (abs_path ns) = slash \<longleftrightarrow> ns = []"
proof (cases ns rule: rev_cases)
  case Nil
  then show ?thesis by (simp add: abs_path_def)
next
  case (snoc ms n)
  assume "names_ok ns"
  with snoc have n: "n \<noteq> []" "slash \<notin> set n" by (auto simp: name_ok_def)
  then have "last (join_with slash ns) = last n"
    using snoc by (cases "ms = []") (simp_all add: join_with_append)
  moreover have "last n \<noteq> slash" using n by (metis last_in_set)
  moreover have "join_with slash ns \<noteq> []"
    using snoc n by (cases "ms = []") (simp_all add: join_with_append)
  ultimately show ?thesis using snoc by (simp add: abs_path_def)
qed

lemma push_abs_path [simp]:
  assumes "names_ok ns" "name_ok n"
  shows "push (abs_path ns) n = abs_path (ns @ [n])"
proof -
  have "\<not> is_absolute n"
    using assms(2) by (cases n) (auto simp: is_absolute_def name_ok_def)
  then show ?thesis
    using last_abs_path [OF assms(1)]
    by (cases "ns = []") (simp_all add: push_def abs_path_def join_with_append)
qed

lemma file_name_abs_path [simp]:
  "names_ok ns \<Longrightarrow> file_name (abs_path ns) = (if ns = [] then None else Some (last ns))"
  by (cases ns rule: rev_cases) (simp_all add: file_name_def)

lemma starts_with_comps_append: "starts_with_comps cs ds \<longleftrightarrow> (\<exists>es. cs = ds @ es)"
  by (induction cs ds rule: starts_with_comps.induct) auto

lemma starts_with_abs_path [simp]:
  "names_ok ns \<Longrightarrow> names_ok ms \<Longrightarrow>
   starts_with (abs_path ns) (abs_path ms) \<longleftrightarrow> (\<exists>ks. ns = ms @ ks)"
  by (auto simp: starts_with_def starts_with_comps_append map_eq_append_conv inj_map_eq_map inj_def)

text \<open>The segments of any path are proper names.\<close>

lemma Normal_name_ok: "Normal n \<in> set (components p) \<Longrightarrow> name_ok n"
  by (auto simp: components_def head_components_def name_ok_def null_seg_def path_body_def
      split: if_splits dest: split_on_parts)

text \<open>The names below the root, and the paths they determine.\<close>

definition names_of :: "path \<Rightarrow> string list" where
  "names_of p = filter (\<lambda>s. \<not> null_seg s) (path_body p)"

definition canonical :: "path \<Rightarrow> bool" where
  "canonical p \<longleftrightarrow> names_ok (names_of p) \<and> p = abs_path (names_of p)"

lemma names_of_abs_path [simp]: "names_ok ns \<Longrightarrow> names_of (abs_path ns) = ns"
  by (cases "ns = []") (simp_all add: names_of_def path_body_abs_path filter_names_ok, simp add: null_seg_def)

lemma canonical_abs_path [simp]: "names_ok ns \<Longrightarrow> canonical (abs_path ns)"
  by (simp add: canonical_def)

lemma canonicalE: "canonical p \<Longrightarrow> (\<And>ns. names_ok ns \<Longrightarrow> p = abs_path ns \<Longrightarrow> P) \<Longrightarrow> P"
  by (auto simp: canonical_def)

text \<open>The parent of an absolute path, by its segments.\<close>

lemma filter_trim_right: "filter (\<lambda>s. \<not> null_seg s) (trim_right xs) = filter (\<lambda>s. \<not> null_seg s) xs"
proof -
  have "filter (\<lambda>s. \<not> null_seg s) (dropWhile null_seg ys) = filter (\<lambda>s. \<not> null_seg s) ys" for ys
    by (induction ys) auto
  then show ?thesis by (simp add: trim_right_def flip: rev_filter)
qed

lemma trim_right_snoc: "trim_right xs = ss @ [s] \<Longrightarrow> \<not> null_seg s"
  by (auto simp: trim_right_def dropWhile_eq_Cons_conv rev_eq_append_conv)

lemma set_trim_right: "set (trim_right xs) \<subseteq> set xs"
  by (auto simp: trim_right_def dest: set_dropWhileD)

lemma components_absolute: "is_absolute p \<Longrightarrow> components p = RootDir # map seg_component (names_of p)"
  by (simp add: components_def head_components_def names_of_def)

lemma names_of_joined:
  assumes "\<And>x. x \<in> set xs \<Longrightarrow> slash \<notin> set x"
  shows "names_of (slash # join_with slash xs) = filter (\<lambda>s. \<not> null_seg s) xs"
proof (cases "xs = []")
  case False
  with assms have "split_on slash (join_with slash xs) = xs" by (intro split_join)
  then show ?thesis by (simp add: names_of_def path_body_def path_head_def is_absolute_def)
qed (simp add: names_of_def path_body_def path_head_def is_absolute_def null_seg_def)

lemma path_body_free: "x \<in> set (path_body p) \<Longrightarrow> slash \<notin> set x"
  by (auto simp: path_body_def dest: split_on_parts)

lemma parent_absolute:
  assumes "is_absolute p" "names_of p = ns @ [n]"
  shows "\<exists>q. parent p = Some q \<and> is_absolute q \<and> names_of q = ns"
proof -
  let ?ts = "trim_right (path_body p)"
  have f: "filter (\<lambda>s. \<not> null_seg s) ?ts = ns @ [n]"
    using assms(2) by (simp add: names_of_def filter_trim_right)
  then have "?ts \<noteq> []" by auto
  then obtain ss s where ts: "?ts = ss @ [s]" by (cases ?ts rule: rev_cases) auto
  with trim_right_snoc [OF ts] f have ns: "filter (\<lambda>s. \<not> null_seg s) ss = ns" by simp
  have free: "slash \<notin> set x" if "x \<in> set (trim_right ss)" for x
    using that set_trim_right [of ss] set_trim_right [of "path_body p"] ts path_body_free [of x p] by auto
  have "parent p = Some (slash # join_with slash (trim_right ss))"
    using assms(1) ts by (simp add: parent_def path_head_def)
  moreover have "is_absolute (slash # join_with slash (trim_right ss))" by (simp add: is_absolute_def)
  moreover have "names_of (slash # join_with slash (trim_right ss)) = ns"
    using free ns by (subst names_of_joined) (auto simp: filter_trim_right)
  ultimately show ?thesis by blast
qed

lemma file_name_absolute:
  assumes "is_absolute p" "names_of p = ns @ [n]"
  shows "file_name p = (if n = ''..'' then None else Some n)"
  using assms by (simp add: file_name_def components_absolute)

lemma parent_absolute_None: "is_absolute p \<Longrightarrow> names_of p = [] \<Longrightarrow> file_name p = None"
  by (simp add: file_name_def components_absolute)

text \<open>Equality of canonical paths is equality of their texts, so a hash table keyed by
  them can be keyed by the text.\<close>

lemma canonical_path_eq: "canonical p \<Longrightarrow> canonical q \<Longrightarrow> path_eq p q \<longleftrightarrow> p = q"
  by (auto elim!: canonicalE simp: abs_path_inj)

text \<open>Where a path leads from the root, when no \<open>..\<close> climbs above it.\<close>

fun walk :: "component list \<Rightarrow> string list \<Rightarrow> string list option" where
  "walk [] ns = Some ns"
| "walk (RootDir # cs) ns = walk cs ns"
| "walk (CurDir # cs) ns = walk cs ns"
| "walk (Normal n # cs) ns = walk cs (ns @ [n])"
| "walk (ParentDir # cs) ns = (if ns = [] then None else walk cs (butlast ns))"

definition path_names :: "path \<Rightarrow> string list option" where
  "path_names p = walk (components p) []"

lemma walk_names_ok:
  "walk cs ns = Some ms \<Longrightarrow> names_ok ns \<Longrightarrow> (\<And>n. Normal n \<in> set cs \<Longrightarrow> name_ok n) \<Longrightarrow> names_ok ms"
  by (induction cs ns rule: walk.induct) (auto simp: names_ok_butlast split: if_splits)

lemma path_names_ok: "path_names p = Some ns \<Longrightarrow> names_ok ns"
  using walk_names_ok [of "components p" "[]" ns] Normal_name_ok [of _ p]
  by (auto simp: path_names_def)

lemma walk_Normal: "walk (map Normal ns) ms = Some (ms @ ns)"
  by (induction ns arbitrary: ms) auto

lemma path_names_abs_path [simp]: "names_ok ns \<Longrightarrow> path_names (abs_path ns) = Some ns"
  by (simp add: path_names_def walk_Normal)

end
