(* ===== verification/Domain.thy ===== *)
theory Domain
  imports Fenris_Error Paths
begin

section \<open>Commands, outputs and their protocol messages (common/src/domain.rs)\<close>

text \<open>
  The typed commands and outputs, the messages that \<open>proto/fenris.proto\<close> declares, and
  the conversions between the two.  A protobuf enumeration travels as its number, so a
  \<open>Request\<close> or \<open>Response\<close> carries an integer and decoding it can fail.  The theorems say
  what survives a round trip: every command does, up to the replacement of invalid
  UTF-8 in its path; an output does up to the fields the response has no room for.
\<close>

definition DEFAULT_TRANSFER_CHUNK_SIZE :: usize where
  "DEFAULT_TRANSFER_CHUNK_SIZE = 64 * 1024"

subsection \<open>Domain types\<close>

datatype object_write_mode = Write | Append | Upload

record transfer_chunk =
  tc_offset :: u64
  tc_data :: bytes
  tc_is_last :: bool
  tc_total_size :: u64

datatype fenris_command =
    Ping
  | CreateObject path
  | ReadObject path
  | WriteObject path bytes
  | AppendObject path bytes
  | DeleteObject path
  | UploadObject path bytes
  | BeginObjectWrite path object_write_mode u64
  | WriteObjectChunk transfer_chunk
  | ObjectInfo path
  | CreateNamespace path
  | ListNamespace path
  | ChangeNamespace path
  | DeleteNamespace path
  | Terminate

record fenris_metadata =
  md_name :: string
  md_size :: u64
  md_is_namespace :: bool
  md_modified_time :: u64
  md_permissions :: u32

datatype fenris_output =
    Pong
  | Success string
  | ObjectContent bytes u64 bool
  | ObjectContentChunk transfer_chunk
  | ObjectInfoOutput fenris_metadata
  | NamespaceListing "fenris_metadata list"
  | NamespaceChanged path
  | TransferReady usize
  | TransferProgress u64
  | Terminated
  | ErrorOutput string

subsection \<open>Protocol messages\<close>

datatype request_type =
    RT_Ping | RT_CreateFile | RT_ReadFile | RT_WriteFile | RT_AppendFile | RT_DeleteFile
  | RT_InfoFile | RT_CreateDir | RT_ListDir | RT_ChangeDir | RT_DeleteDir | RT_UploadFile
  | RT_Terminate | RT_BeginObjectWrite | RT_WriteObjectChunk

datatype response_type =
    RS_Pong | RS_FileInfo | RS_FileContent | RS_DirListing | RS_Success | RS_Error
  | RS_Terminated | RS_ChangedDir | RS_TransferReady | RS_TransferProgress | RS_FileContentChunk

datatype transfer_mode =
    TransferModeUnspecified | TransferWrite | TransferAppend | TransferUpload

definition request_types :: "request_type list" where
  "request_types =
     [RT_Ping, RT_CreateFile, RT_ReadFile, RT_WriteFile, RT_AppendFile, RT_DeleteFile,
      RT_InfoFile, RT_CreateDir, RT_ListDir, RT_ChangeDir, RT_DeleteDir, RT_UploadFile,
      RT_Terminate, RT_BeginObjectWrite, RT_WriteObjectChunk]"

definition response_types :: "response_type list" where
  "response_types =
     [RS_Pong, RS_FileInfo, RS_FileContent, RS_DirListing, RS_Success, RS_Error,
      RS_Terminated, RS_ChangedDir, RS_TransferReady, RS_TransferProgress, RS_FileContentChunk]"

definition transfer_modes :: "transfer_mode list" where
  "transfer_modes = [TransferModeUnspecified, TransferWrite, TransferAppend, TransferUpload]"

text \<open>The number of a value is its place in the declaration; a number outside has no value.\<close>

definition enum_of_code :: "'a list \<Rightarrow> int \<Rightarrow> 'a option" where
  "enum_of_code xs c = (if 0 \<le> c \<and> nat c < length xs then Some (xs ! nat c) else None)"

fun request_type_code :: "request_type \<Rightarrow> int" where
  "request_type_code RT_Ping = 0"
| "request_type_code RT_CreateFile = 1"
| "request_type_code RT_ReadFile = 2"
| "request_type_code RT_WriteFile = 3"
| "request_type_code RT_AppendFile = 4"
| "request_type_code RT_DeleteFile = 5"
| "request_type_code RT_InfoFile = 6"
| "request_type_code RT_CreateDir = 7"
| "request_type_code RT_ListDir = 8"
| "request_type_code RT_ChangeDir = 9"
| "request_type_code RT_DeleteDir = 10"
| "request_type_code RT_UploadFile = 11"
| "request_type_code RT_Terminate = 12"
| "request_type_code RT_BeginObjectWrite = 13"
| "request_type_code RT_WriteObjectChunk = 14"

fun response_type_code :: "response_type \<Rightarrow> int" where
  "response_type_code RS_Pong = 0"
| "response_type_code RS_FileInfo = 1"
| "response_type_code RS_FileContent = 2"
| "response_type_code RS_DirListing = 3"
| "response_type_code RS_Success = 4"
| "response_type_code RS_Error = 5"
| "response_type_code RS_Terminated = 6"
| "response_type_code RS_ChangedDir = 7"
| "response_type_code RS_TransferReady = 8"
| "response_type_code RS_TransferProgress = 9"
| "response_type_code RS_FileContentChunk = 10"

fun transfer_mode_code :: "transfer_mode \<Rightarrow> int" where
  "transfer_mode_code TransferModeUnspecified = 0"
| "transfer_mode_code TransferWrite = 1"
| "transfer_mode_code TransferAppend = 2"
| "transfer_mode_code TransferUpload = 3"

record transfer_start =
  ts_filename :: string
  ts_mode :: int
  ts_total_size :: u64

record proto_transfer_chunk =
  ptc_offset :: u64
  ptc_data :: bytes
  ptc_is_last :: bool
  ptc_total_size :: u64

record transfer_ack =
  ack_offset :: u64
  ack_chunk_size :: u32

record file_info =
  fi_name :: string
  fi_size :: u64
  fi_is_directory :: bool
  fi_modified_time :: u64
  fi_permissions :: u32

datatype request_details = ReqTransferStart transfer_start | ReqTransferChunk proto_transfer_chunk

record request =
  req_command :: int
  req_filename :: string
  req_ip_addr :: u32
  req_data :: bytes
  req_details :: "request_details option"

datatype response_details =
    RespFileInfo file_info
  | RespDirectoryListing "file_info list"
  | RespTransferAck transfer_ack
  | RespTransferChunk proto_transfer_chunk

record response =
  resp_type :: int
  resp_success :: bool
  resp_error_message :: string
  resp_data :: bytes
  resp_details :: "response_details option"

subsection \<open>Conversions of the parts\<close>

fun mode_try_from :: "transfer_mode \<Rightarrow> object_write_mode res" where
  "mode_try_from TransferWrite = Ok Write"
| "mode_try_from TransferAppend = Ok Append"
| "mode_try_from TransferUpload = Ok Upload"
| "mode_try_from TransferModeUnspecified = Err InvalidProtocolMessage"

fun transfer_mode_from :: "object_write_mode \<Rightarrow> transfer_mode" where
  "transfer_mode_from Write = TransferWrite"
| "transfer_mode_from Append = TransferAppend"
| "transfer_mode_from Upload = TransferUpload"

definition chunk_from_proto :: "proto_transfer_chunk \<Rightarrow> transfer_chunk" where
  "chunk_from_proto c =
     \<lparr>tc_offset = ptc_offset c, tc_data = ptc_data c, tc_is_last = ptc_is_last c,
      tc_total_size = ptc_total_size c\<rparr>"

definition chunk_to_proto :: "transfer_chunk \<Rightarrow> proto_transfer_chunk" where
  "chunk_to_proto c =
     \<lparr>ptc_offset = tc_offset c, ptc_data = tc_data c, ptc_is_last = tc_is_last c,
      ptc_total_size = tc_total_size c\<rparr>"

definition metadata_from_info :: "file_info \<Rightarrow> fenris_metadata" where
  "metadata_from_info i =
     \<lparr>md_name = fi_name i, md_size = fi_size i, md_is_namespace = fi_is_directory i,
      md_modified_time = fi_modified_time i, md_permissions = fi_permissions i\<rparr>"

definition info_from_metadata :: "fenris_metadata \<Rightarrow> file_info" where
  "info_from_metadata m =
     \<lparr>fi_name = md_name m, fi_size = md_size m, fi_is_directory = md_is_namespace m,
      fi_modified_time = md_modified_time m, fi_permissions = md_permissions m\<rparr>"

subsection \<open>Commands as requests\<close>

definition request_with_details ::
  "request_type \<Rightarrow> path \<Rightarrow> bytes \<Rightarrow> request_details option \<Rightarrow> request" where
  "request_with_details c p d det =
     \<lparr>req_command = request_type_code c, req_filename = to_string_lossy p, req_ip_addr = 0,
      req_data = d, req_details = det\<rparr>"

definition mk_request :: "request_type \<Rightarrow> path \<Rightarrow> bytes \<Rightarrow> request" where
  "mk_request c p d = request_with_details c p d None"

fun request_from_command :: "fenris_command \<Rightarrow> request" where
  "request_from_command Ping = mk_request RT_Ping '''' []"
| "request_from_command (CreateObject p) = mk_request RT_CreateFile p []"
| "request_from_command (ReadObject p) = mk_request RT_ReadFile p []"
| "request_from_command (WriteObject p d) = mk_request RT_WriteFile p d"
| "request_from_command (AppendObject p d) = mk_request RT_AppendFile p d"
| "request_from_command (DeleteObject p) = mk_request RT_DeleteFile p []"
| "request_from_command (UploadObject p d) = mk_request RT_UploadFile p d"
| "request_from_command (BeginObjectWrite p m t) =
     request_with_details RT_BeginObjectWrite p []
       (Some (ReqTransferStart
          \<lparr>ts_filename = to_string_lossy p, ts_mode = transfer_mode_code (transfer_mode_from m),
           ts_total_size = t\<rparr>))"
| "request_from_command (WriteObjectChunk c) =
     request_with_details RT_WriteObjectChunk '''' [] (Some (ReqTransferChunk (chunk_to_proto c)))"
| "request_from_command (ObjectInfo p) = mk_request RT_InfoFile p []"
| "request_from_command (CreateNamespace p) = mk_request RT_CreateDir p []"
| "request_from_command (ListNamespace p) = mk_request RT_ListDir p []"
| "request_from_command (ChangeNamespace p) = mk_request RT_ChangeDir p []"
| "request_from_command (DeleteNamespace p) = mk_request RT_DeleteDir p []"
| "request_from_command Terminate = mk_request RT_Terminate '''' []"

definition begin_from_details :: "request_details option \<Rightarrow> fenris_command res" where
  "begin_from_details det =
     (case det of
        Some (ReqTransferStart st) \<Rightarrow>
          (case enum_of_code transfer_modes (ts_mode st) of
             None \<Rightarrow> Err InvalidProtocolMessage
           | Some m \<Rightarrow>
               res_map (\<lambda>mode. BeginObjectWrite (ts_filename st) mode (ts_total_size st))
                 (mode_try_from m))
      | _ \<Rightarrow> Err InvalidProtocolMessage)"

definition chunk_from_details :: "request_details option \<Rightarrow> fenris_command res" where
  "chunk_from_details det =
     (case det of
        Some (ReqTransferChunk c) \<Rightarrow> Ok (WriteObjectChunk (chunk_from_proto c))
      | _ \<Rightarrow> Err InvalidProtocolMessage)"

definition command_try_from :: "request \<Rightarrow> fenris_command res" where
  "command_try_from r =
     (case enum_of_code request_types (req_command r) of
        None \<Rightarrow> Err InvalidProtocolMessage
      | Some c \<Rightarrow>
          (let p = req_filename r in
           case c of
             RT_Ping \<Rightarrow> Ok Ping
           | RT_CreateFile \<Rightarrow> Ok (CreateObject p)
           | RT_ReadFile \<Rightarrow> Ok (ReadObject p)
           | RT_WriteFile \<Rightarrow> Ok (WriteObject p (req_data r))
           | RT_AppendFile \<Rightarrow> Ok (AppendObject p (req_data r))
           | RT_DeleteFile \<Rightarrow> Ok (DeleteObject p)
           | RT_InfoFile \<Rightarrow> Ok (ObjectInfo p)
           | RT_CreateDir \<Rightarrow> Ok (CreateNamespace p)
           | RT_ListDir \<Rightarrow> Ok (ListNamespace p)
           | RT_ChangeDir \<Rightarrow> Ok (ChangeNamespace p)
           | RT_DeleteDir \<Rightarrow> Ok (DeleteNamespace p)
           | RT_UploadFile \<Rightarrow> Ok (UploadObject p (req_data r))
           | RT_BeginObjectWrite \<Rightarrow> begin_from_details (req_details r)
           | RT_WriteObjectChunk \<Rightarrow> chunk_from_details (req_details r)
           | RT_Terminate \<Rightarrow> Ok Terminate))"

subsection \<open>Outputs as responses\<close>

definition mk_response ::
  "response_type \<Rightarrow> bool \<Rightarrow> string \<Rightarrow> bytes \<Rightarrow> response_details option \<Rightarrow> response" where
  "mk_response t ok msg d det =
     \<lparr>resp_type = response_type_code t, resp_success = ok, resp_error_message = msg,
      resp_data = d, resp_details = det\<rparr>"

definition U32_MAX :: nat where
  "U32_MAX = 4294967295"

fun response_from_output :: "fenris_output \<Rightarrow> response" where
  "response_from_output Pong = mk_response RS_Pong True '''' [] None"
| "response_from_output (Success m) = mk_response RS_Success True '''' (bytes_of m) None"
| "response_from_output (ObjectContent d t tr) = mk_response RS_FileContent True '''' d None"
| "response_from_output (ObjectContentChunk c) =
     mk_response RS_FileContentChunk True '''' (tc_data c) (Some (RespTransferChunk (chunk_to_proto c)))"
| "response_from_output (ObjectInfoOutput m) =
     mk_response RS_FileInfo True '''' [] (Some (RespFileInfo (info_from_metadata m)))"
| "response_from_output (NamespaceListing ms) =
     mk_response RS_DirListing True '''' [] (Some (RespDirectoryListing (map info_from_metadata ms)))"
| "response_from_output (NamespaceChanged p) =
     mk_response RS_ChangedDir True '''' (bytes_of (to_string_lossy p)) None"
| "response_from_output (TransferReady n) =
     mk_response RS_TransferReady True '''' []
       (Some (RespTransferAck \<lparr>ack_offset = 0, ack_chunk_size = of_nat (min n U32_MAX)\<rparr>))"
| "response_from_output (TransferProgress n) =
     mk_response RS_TransferProgress True '''' []
       (Some (RespTransferAck \<lparr>ack_offset = n, ack_chunk_size = 0\<rparr>))"
| "response_from_output Terminated = mk_response RS_Terminated True '''' [] None"
| "response_from_output (ErrorOutput m) = mk_response RS_Error False m [] None"

definition output_try_from :: "response \<Rightarrow> fenris_output res" where
  "output_try_from r =
     (if \<not> resp_success r then Ok (ErrorOutput (resp_error_message r))
      else
        (case enum_of_code response_types (resp_type r) of
           None \<Rightarrow> Err InvalidProtocolMessage
         | Some t \<Rightarrow>
             (case t of
                RS_Pong \<Rightarrow> Ok Pong
              | RS_FileInfo \<Rightarrow>
                  (case resp_details r of
                     Some (RespFileInfo i) \<Rightarrow> Ok (ObjectInfoOutput (metadata_from_info i))
                   | _ \<Rightarrow> Err (SerializationError ''missing file info''))
              | RS_FileContent \<Rightarrow>
                  Ok (ObjectContent (resp_data r) (len_u64 (resp_data r)) False)
              | RS_DirListing \<Rightarrow>
                  (case resp_details r of
                     Some (RespDirectoryListing es) \<Rightarrow> Ok (NamespaceListing (map metadata_from_info es))
                   | _ \<Rightarrow> Err (SerializationError ''missing directory listing''))
              | RS_Success \<Rightarrow> Ok (Success (from_utf8_lossy (resp_data r)))
              | RS_Error \<Rightarrow> Ok (ErrorOutput (resp_error_message r))
              | RS_Terminated \<Rightarrow> Ok Terminated
              | RS_ChangedDir \<Rightarrow> Ok (NamespaceChanged (from_utf8_lossy (resp_data r)))
              | RS_TransferReady \<Rightarrow>
                  (case resp_details r of
                     Some (RespTransferAck a) \<Rightarrow> Ok (TransferReady (unat (ack_chunk_size a)))
                   | _ \<Rightarrow> Err (SerializationError ''missing transfer ack''))
              | RS_TransferProgress \<Rightarrow>
                  (case resp_details r of
                     Some (RespTransferAck a) \<Rightarrow> Ok (TransferProgress (ack_offset a))
                   | _ \<Rightarrow> Err (SerializationError ''missing transfer ack''))
              | RS_FileContentChunk \<Rightarrow>
                  (case resp_details r of
                     Some (RespTransferChunk c) \<Rightarrow> Ok (ObjectContentChunk (chunk_from_proto c))
                   | _ \<Rightarrow> Err (SerializationError ''missing transfer chunk'')))))"

subsection \<open>Enumerations and parts survive\<close>

lemma enum_request_type [simp]: "enum_of_code request_types (request_type_code c) = Some c"
  by (cases c) (simp_all add: enum_of_code_def request_types_def)

lemma enum_response_type [simp]: "enum_of_code response_types (response_type_code t) = Some t"
  by (cases t) (simp_all add: enum_of_code_def response_types_def)

lemma enum_transfer_mode [simp]: "enum_of_code transfer_modes (transfer_mode_code m) = Some m"
  by (cases m) (simp_all add: enum_of_code_def transfer_modes_def)

declare request_type_code.simps [simp del] response_type_code.simps [simp del]
  transfer_mode_code.simps [simp del]

lemma mode_roundtrip [simp, roundtrips]: "mode_try_from (transfer_mode_from m) = Ok m"
  by (cases m) simp_all

lemma chunk_roundtrip [simp, roundtrips]: "chunk_from_proto (chunk_to_proto c) = c"
  by (simp add: chunk_from_proto_def chunk_to_proto_def)

lemma metadata_roundtrip [simp, roundtrips]: "metadata_from_info (info_from_metadata m) = m"
  by (simp add: metadata_from_info_def info_from_metadata_def)

lemma metadata_list_roundtrip [simp]: "map (metadata_from_info \<circ> info_from_metadata) ms = ms"
  by (induction ms) simp_all

lemma unat_chunk_size [simp]: "unat (of_nat (min n U32_MAX) :: u32) = min n U32_MAX"
  by (simp add: U32_MAX_def unat_of_nat)

subsection \<open>What a round trip keeps\<close>

text \<open>The command a request stands for: the path as text, invalid UTF-8 replaced.\<close>

fun command_on_wire :: "fenris_command \<Rightarrow> fenris_command" where
  "command_on_wire (CreateObject p) = CreateObject (utf8_lossy p)"
| "command_on_wire (ReadObject p) = ReadObject (utf8_lossy p)"
| "command_on_wire (WriteObject p d) = WriteObject (utf8_lossy p) d"
| "command_on_wire (AppendObject p d) = AppendObject (utf8_lossy p) d"
| "command_on_wire (DeleteObject p) = DeleteObject (utf8_lossy p)"
| "command_on_wire (UploadObject p d) = UploadObject (utf8_lossy p) d"
| "command_on_wire (BeginObjectWrite p m t) = BeginObjectWrite (utf8_lossy p) m t"
| "command_on_wire (ObjectInfo p) = ObjectInfo (utf8_lossy p)"
| "command_on_wire (CreateNamespace p) = CreateNamespace (utf8_lossy p)"
| "command_on_wire (ListNamespace p) = ListNamespace (utf8_lossy p)"
| "command_on_wire (ChangeNamespace p) = ChangeNamespace (utf8_lossy p)"
| "command_on_wire (DeleteNamespace p) = DeleteNamespace (utf8_lossy p)"
| "command_on_wire c = c"

text \<open>The text of a command's path, when it has one.\<close>

fun command_text :: "fenris_command \<Rightarrow> string" where
  "command_text (CreateObject p) = p"
| "command_text (ReadObject p) = p"
| "command_text (WriteObject p d) = p"
| "command_text (AppendObject p d) = p"
| "command_text (DeleteObject p) = p"
| "command_text (UploadObject p d) = p"
| "command_text (BeginObjectWrite p m t) = p"
| "command_text (ObjectInfo p) = p"
| "command_text (CreateNamespace p) = p"
| "command_text (ListNamespace p) = p"
| "command_text (ChangeNamespace p) = p"
| "command_text (DeleteNamespace p) = p"
| "command_text _ = ''''"

text \<open>The output a response stands for: \<open>ObjectContent\<close> travels without its size and
  truncation flag, a chunk size is capped at \<open>u32::MAX\<close>, texts are made valid UTF-8.\<close>

fun output_on_wire :: "fenris_output \<Rightarrow> fenris_output" where
  "output_on_wire (ObjectContent d t tr) = ObjectContent d (len_u64 d) False"
| "output_on_wire (Success m) = Success (utf8_lossy m)"
| "output_on_wire (NamespaceChanged p) = NamespaceChanged (utf8_lossy p)"
| "output_on_wire (TransferReady n) = TransferReady (min n U32_MAX)"
| "output_on_wire out = out"

lemma utf8_lossy_Nil [simp]: "utf8_lossy [] = []"
  by (simp add: utf8_lossy_def)

lemma command_wire_eq: "command_try_from (request_from_command c) = Ok (command_on_wire c)"
  by (cases c)
    (simp_all add: command_try_from_def mk_request_def request_with_details_def
      begin_from_details_def chunk_from_details_def to_string_lossy_def)

lemma output_wire_eq: "output_try_from (response_from_output out) = Ok (output_on_wire out)"
  by (cases out)
    (simp_all add: output_try_from_def mk_response_def to_string_lossy_def from_utf8_lossy_def)

lemma command_on_wire_id: "utf8_valid (command_text c) \<Longrightarrow> command_on_wire c = c"
  by (cases c) (simp_all add: utf8_lossy_valid)

end
