(* ===== verification/Storage.thy ===== *)
theory Storage
  imports Domain
begin

section \<open>The storage interface (common/src/storage.rs, trait StorageBackend)\<close>

text \<open>
  The trait is a record of operations over a state \<open>'s\<close>; code that is generic in the
  backend takes the record as an argument.  The locale \<open>storage_contract\<close> states what a
  client of the trait may rely on: \<open>content\<close> is what is stored under a path, \<open>same\<close> says
  when two paths name the same place, and \<open>inv\<close> is what every operation keeps.  A chunk
  read may return fewer bytes than asked for, as a read from a file may, but never none
  before the end; where no object is, it fails or says that nothing follows.
\<close>

record object_chunk =
  oc_offset :: u64
  oc_data :: bytes
  oc_is_last :: bool
  oc_total_size :: u64

record 's storage_backend =
  put_object :: "path \<Rightarrow> bytes \<Rightarrow> ('s, unit) action"
  get_object :: "path \<Rightarrow> ('s, bytes) action"
  get_object_chunk :: "path \<Rightarrow> u64 \<Rightarrow> usize \<Rightarrow> ('s, object_chunk) action"
  append_object :: "path \<Rightarrow> bytes \<Rightarrow> ('s, unit) action"
  delete_object :: "path \<Rightarrow> ('s, unit) action"
  metadata :: "path \<Rightarrow> ('s, fenris_metadata) action"
  create_namespace :: "path \<Rightarrow> ('s, unit) action"
  list_namespace :: "path \<Rightarrow> ('s, fenris_metadata list) action"
  delete_namespace :: "path \<Rightarrow> ('s, unit) action"
  exists :: "path \<Rightarrow> 's \<Rightarrow> bool"
  is_namespace :: "path \<Rightarrow> 's \<Rightarrow> bool"
  is_object :: "path \<Rightarrow> 's \<Rightarrow> bool"

text \<open>A chunk of \<open>d\<close> at \<open>off\<close>, at most \<open>n\<close> bytes long.\<close>

definition chunk_of :: "bytes \<Rightarrow> u64 \<Rightarrow> usize \<Rightarrow> object_chunk \<Rightarrow> bool" where
  "chunk_of d off n c \<longleftrightarrow>
     oc_offset c = off \<and> oc_total_size c = len_u64 d \<and> length (oc_data c) \<le> n \<and>
     oc_data c = take (length (oc_data c)) (drop (unat off) d) \<and>
     (unat off < length d \<longleftrightarrow> oc_data c \<noteq> []) \<and>
     (oc_is_last c \<longleftrightarrow> length d \<le> unat off + length (oc_data c))"

locale storage_contract =
  fixes B :: "'s storage_backend"
    and inv :: "'s \<Rightarrow> bool"
    and content :: "'s \<Rightarrow> path \<Rightarrow> bytes option"
    and same :: "path \<Rightarrow> path \<Rightarrow> bool"
  assumes put_not_Panic: "inv s \<Longrightarrow> fst (put_object B p d s) \<noteq> Panic"
    and put_Ok: "inv s \<Longrightarrow> put_object B p d s = (Ok u, s') \<Longrightarrow>
        inv s' \<and> (\<forall>q. content s' q = (if same p q then Some d else content s q))"
    and put_Err: "inv s \<Longrightarrow> put_object B p d s = (Err e, s') \<Longrightarrow> s' = s"
    and get_Some: "inv s \<Longrightarrow> content s p = Some d \<Longrightarrow> get_object B p s = (Ok d, s)"
    and get_None: "inv s \<Longrightarrow> content s p = None \<Longrightarrow> \<exists>e. get_object B p s = (Err e, s)"
    and chunk_Some: "inv s \<Longrightarrow> content s p = Some d \<Longrightarrow> vec_ok d \<Longrightarrow> 0 < n \<Longrightarrow> n < 2 ^ 63 \<Longrightarrow>
        \<exists>c. get_object_chunk B p off n s = (Ok c, s) \<and> chunk_of d off n c"
    and chunk_None: "inv s \<Longrightarrow> content s p = None \<Longrightarrow> 0 < n \<Longrightarrow>
        \<exists>r. get_object_chunk B p off n s = (r, s) \<and> r \<noteq> Panic \<and> (\<forall>c. r = Ok c \<longrightarrow> oc_is_last c)"
    and append_not_Panic: "inv s \<Longrightarrow> fst (append_object B p d s) \<noteq> Panic"
    and append_Ok: "inv s \<Longrightarrow> append_object B p d s = (Ok u, s') \<Longrightarrow>
        inv s' \<and> (\<forall>q. content s' q =
          (if same p q then Some (case content s p of None \<Rightarrow> d | Some c \<Rightarrow> c @ d) else content s q))"
    and append_Err: "inv s \<Longrightarrow> append_object B p d s = (Err e, s') \<Longrightarrow> s' = s"
    and append_Some: "inv s \<Longrightarrow> content s p = Some c \<Longrightarrow> fst (append_object B p d s) = Ok ()"
    and same_refl: "inv s \<Longrightarrow> content s p \<noteq> None \<Longrightarrow> same p p"
    and put_same: "inv s \<Longrightarrow> fst (put_object B p d s) = Ok () \<Longrightarrow> same p p"
    and append_same: "inv s \<Longrightarrow> fst (append_object B p d s) = Ok () \<Longrightarrow> same p p"
begin

lemma get_after_put:
  assumes "inv s" "put_object B p d s = (Ok u, s')"
  shows "get_object B p s' = (Ok d, s')"
proof -
  have "same p p" using assms put_same [of s p d] by simp
  then have "content s' p = Some d" and "inv s'"
    using put_Ok [OF assms] by simp_all
  then show ?thesis by (intro get_Some)
qed

lemma append_existing:
  assumes "inv s" "content s p = Some c"
  obtains s' where "append_object B p d s = (Ok (), s')" "inv s'" "content s' p = Some (c @ d)"
    "\<And>q. \<not> same p q \<Longrightarrow> content s' q = content s q"
proof -
  obtain s' where s': "append_object B p d s = (Ok (), s')"
    using append_Some [OF assms, of d] by (cases "append_object B p d s") auto
  with append_Ok [OF assms(1) s'] same_refl [OF assms(1)] assms(2) that show ?thesis
    by simp
qed

end

end
