(* ===== verification/Object_Tree.thy ===== *)
theory Object_Tree
  imports Storage
begin

section \<open>The abstract storage: a tree of namespaces and objects\<close>

text \<open>
  What a storage backend means: a tree, given as a map from lists of names, and one partial
  operation on it for every operation of the trait.  \<open>implements\<close> relates an operation of a
  backend to its counterpart on the tree.  The locale \<open>tree_storage\<close> is the contract that a
  single call on a backend answers what the tree answers and leaves the tree's result; its
  lemma lifts this to sequences of calls.  \<open>Memory_Storage\<close> and \<open>Disk_Storage\<close> interpret it
  for the two backends.
\<close>

datatype node = NamespaceNode | ObjectNode bytes

type_synonym tree = "string list \<Rightarrow> node option"

definition tree_ok :: "tree \<Rightarrow> bool" where
  "tree_ok t \<longleftrightarrow> t [] = Some NamespaceNode \<and>
     (\<forall>ns n. t (ns @ [n]) \<noteq> None \<longrightarrow> t ns = Some NamespaceNode)"

definition spec_put :: "tree \<Rightarrow> string list \<Rightarrow> bytes \<Rightarrow> tree option" where
  "spec_put t ns d =
     (if ns = [] \<or> t ns = Some NamespaceNode \<or> t (butlast ns) \<noteq> Some NamespaceNode then None
      else Some (t(ns \<mapsto> ObjectNode d)))"

definition node_data :: "node option \<Rightarrow> bytes" where
  "node_data x = (case x of Some (ObjectNode d) \<Rightarrow> d | _ \<Rightarrow> [])"

definition spec_append :: "tree \<Rightarrow> string list \<Rightarrow> bytes \<Rightarrow> tree option" where
  "spec_append t ns d = spec_put t ns (node_data (t ns) @ d)"

definition spec_delete :: "tree \<Rightarrow> string list \<Rightarrow> tree option" where
  "spec_delete t ns =
     (case t ns of Some (ObjectNode d) \<Rightarrow> Some (t(ns := None)) | _ \<Rightarrow> None)"

definition spec_mkdir :: "tree \<Rightarrow> string list \<Rightarrow> tree option" where
  "spec_mkdir t ns =
     (case t ns of
        Some (ObjectNode d) \<Rightarrow> None
      | Some NamespaceNode \<Rightarrow> Some t
      | None \<Rightarrow> if t (butlast ns) = Some NamespaceNode then Some (t(ns \<mapsto> NamespaceNode)) else None)"

definition spec_rmdir :: "tree \<Rightarrow> string list \<Rightarrow> tree option" where
  "spec_rmdir t ns =
     (if ns = [] \<or> t ns \<noteq> Some NamespaceNode \<or> (\<exists>n. t (ns @ [n]) \<noteq> None) then None
      else Some (t(ns := None)))"

definition children :: "tree \<Rightarrow> string list \<Rightarrow> string set" where
  "children t ns = {n. t (ns @ [n]) \<noteq> None}"

lemma tree_ok_up: "tree_ok t \<Longrightarrow> t ns \<noteq> None \<Longrightarrow> t (butlast ns) = Some NamespaceNode"
  by (cases ns rule: rev_cases) (auto simp: tree_ok_def)

lemma tree_okD: "tree_ok t \<Longrightarrow> t (ns @ [n]) = Some x \<Longrightarrow> t ns = Some NamespaceNode"
  by (auto simp: tree_ok_def)

lemma tree_ok_leaf:
  assumes "tree_ok t" "ns \<noteq> []" "\<And>n. t (ns @ [n]) = None" "t (butlast ns) = Some NamespaceNode \<or> x = None"
  shows "tree_ok (t(ns := x))"
  unfolding tree_ok_def
proof (intro conjI allI impI)
  show "(t(ns := x)) [] = Some NamespaceNode" using assms(1,2) by (simp add: tree_ok_def)
  fix ms n
  assume in_tree: "(t(ns := x)) (ms @ [n]) \<noteq> None"
  show "(t(ns := x)) ms = Some NamespaceNode"
  proof (cases "ms @ [n] = ns")
    case True
    then have "ms = butlast ns" "ms \<noteq> ns" by auto
    with in_tree True assms(4) show ?thesis by auto
  next
    case False
    with in_tree obtain y where y: "t (ms @ [n]) = Some y" by auto
    with assms(3) have "ms \<noteq> ns" by auto
    with tree_okD [OF assms(1) y] show ?thesis by simp
  qed
qed

text \<open>Every operation of the tree keeps it a tree.\<close>

lemma spec_tree_ok:
  assumes "tree_ok t"
  shows "spec_put t ns d = Some t' \<Longrightarrow> tree_ok t'" "spec_append t ns d = Some t' \<Longrightarrow> tree_ok t'"
    "spec_delete t ns = Some t' \<Longrightarrow> tree_ok t'" "spec_mkdir t ns = Some t' \<Longrightarrow> tree_ok t'"
    "spec_rmdir t ns = Some t' \<Longrightarrow> tree_ok t'"
proof -
  have leaf: "t (ns @ [n]) = None" if "t ns \<noteq> Some NamespaceNode" for n
    using tree_okD [OF assms, of ns n] that by (cases "t (ns @ [n])") auto
  have root: "t [] = Some NamespaceNode" using assms by (simp add: tree_ok_def)
  show put: "tree_ok t'" if "spec_put t ns d = Some t'" for d
    using that leaf by (auto simp: spec_put_def split: if_splits intro!: tree_ok_leaf [OF assms])
  then show "tree_ok t'" if "spec_append t ns d = Some t'" using that by (simp add: spec_append_def)
  show "tree_ok t'" if "spec_delete t ns = Some t'"
    using that leaf root by (auto simp: spec_delete_def split: option.splits node.splits intro!: tree_ok_leaf [OF assms])
  show "tree_ok t'" if "spec_mkdir t ns = Some t'"
    using that leaf root assms by (auto simp: spec_mkdir_def split: option.splits node.splits if_splits intro!: tree_ok_leaf [OF assms])
  show "tree_ok t'" if "spec_rmdir t ns = Some t'"
    using that by (auto simp: spec_rmdir_def split: if_splits intro!: tree_ok_leaf [OF assms])
qed

subsection \<open>Implementing an operation\<close>

text \<open>\<open>implements good view op spec s\<close>: the operation succeeds exactly when the specification
  does, with the specified tree and the invariant kept, and otherwise reports an error and
  changes nothing.\<close>

definition implements ::
  "('s \<Rightarrow> bool) \<Rightarrow> ('s \<Rightarrow> tree) \<Rightarrow> ('s, unit) action \<Rightarrow> tree option \<Rightarrow> 's \<Rightarrow> bool" where
  "implements good view op spec s \<longleftrightarrow>
     (case spec of
        Some t \<Rightarrow> (\<exists>s'. op s = (Ok (), s') \<and> good s' \<and> view s' = t)
      | None \<Rightarrow> (\<exists>e. op s = (Err (FileOperationError e), s)))"

lemma implements_cases:
  assumes "implements good view op spec s"
  obtains (ok) s' t where "op s = (Ok (), s')" "spec = Some t" "good s'" "view s' = t"
    | (err) e where "op s = (Err (FileOperationError e), s)" "spec = None"
  using assms by (auto simp: implements_def split: option.splits)

subsection \<open>Calls\<close>

text \<open>A call of a backend: the state after it and the answer.  Metadata is whether the node is
  a namespace and, for an object, its size; a listing is the number of its entries with their
  names and metadata, in any order.  \<open>spec_call\<close> says the same of the tree.  Chunk reads
  are specified on their own (\<open>chunk_of\<close>).\<close>

type_synonym node_info = "bool \<times> u64 option"

fun info_of_node :: "node \<Rightarrow> node_info" where
  "info_of_node NamespaceNode = (True, None)"
| "info_of_node (ObjectNode d) = (False, Some (len_u64 d))"

definition info_of_metadata :: "fenris_metadata \<Rightarrow> node_info" where
  "info_of_metadata m = (md_is_namespace m, if md_is_namespace m then None else Some (md_size m))"

definition entries :: "tree \<Rightarrow> string list \<Rightarrow> (string \<times> node_info) set" where
  "entries t ns = (\<lambda>n. (utf8_lossy n, info_of_node (the (t (ns @ [n]))))) ` children t ns"

datatype storage_call =
    PutCall path bytes | AppendCall path bytes | DeleteCall path | MkdirCall path | RmdirCall path
  | GetCall path | MetadataCall path | ListCall path

datatype storage_answer =
    Completed | Content bytes | Described node_info | Entries nat "(string \<times> node_info) set" | Refused | Panicked

fun call_path :: "storage_call \<Rightarrow> path" where
  "call_path (PutCall p d) = p"
| "call_path (AppendCall p d) = p"
| "call_path (DeleteCall p) = p"
| "call_path (MkdirCall p) = p"
| "call_path (RmdirCall p) = p"
| "call_path (GetCall p) = p"
| "call_path (MetadataCall p) = p"
| "call_path (ListCall p) = p"

fun answer :: "('a \<Rightarrow> storage_answer) \<Rightarrow> 'a res \<Rightarrow> storage_answer" where
  "answer f (Ok x) = f x"
| "answer f (Err e) = Refused"
| "answer f Panic = Panicked"

definition listed :: "fenris_metadata list \<Rightarrow> storage_answer" where
  "listed ms = Entries (length ms) ((\<lambda>m. (md_name m, info_of_metadata m)) ` set ms)"

fun backend_call :: "'s storage_backend \<Rightarrow> storage_call \<Rightarrow> 's \<Rightarrow> storage_answer \<times> 's" where
  "backend_call B (PutCall p d) s = apfst (answer (\<lambda>_. Completed)) (put_object B p d s)"
| "backend_call B (AppendCall p d) s = apfst (answer (\<lambda>_. Completed)) (append_object B p d s)"
| "backend_call B (DeleteCall p) s = apfst (answer (\<lambda>_. Completed)) (delete_object B p s)"
| "backend_call B (MkdirCall p) s = apfst (answer (\<lambda>_. Completed)) (create_namespace B p s)"
| "backend_call B (RmdirCall p) s = apfst (answer (\<lambda>_. Completed)) (delete_namespace B p s)"
| "backend_call B (GetCall p) s = apfst (answer Content) (get_object B p s)"
| "backend_call B (MetadataCall p) s = apfst (answer (\<lambda>m. Described (info_of_metadata m))) (metadata B p s)"
| "backend_call B (ListCall p) s = apfst (answer listed) (list_namespace B p s)"

text \<open>A mutating call: refused where the operation on the tree is undefined.\<close>

definition or_same :: "tree \<Rightarrow> tree option \<Rightarrow> storage_answer \<times> tree" where
  "or_same t y = (case y of None \<Rightarrow> (Refused, t) | Some t' \<Rightarrow> (Completed, t'))"

definition spec_read :: "(string list \<Rightarrow> node \<Rightarrow> storage_answer) \<Rightarrow> path \<Rightarrow> tree \<Rightarrow> storage_answer \<times> tree" where
  "spec_read f p t =
     (case path_names p of
        None \<Rightarrow> (Refused, t)
      | Some ns \<Rightarrow> (case t ns of None \<Rightarrow> (Refused, t) | Some x \<Rightarrow> (f ns x, t)))"

fun spec_call :: "storage_call \<Rightarrow> tree \<Rightarrow> storage_answer \<times> tree" where
  "spec_call (PutCall p d) t = or_same t (Option.bind (path_names p) (\<lambda>ns. spec_put t ns d))"
| "spec_call (AppendCall p d) t = or_same t (Option.bind (path_names p) (\<lambda>ns. spec_append t ns d))"
| "spec_call (DeleteCall p) t = or_same t (Option.bind (path_names p) (spec_delete t))"
| "spec_call (MkdirCall p) t = or_same t (Option.bind (path_names p) (spec_mkdir t))"
| "spec_call (RmdirCall p) t = or_same t (Option.bind (path_names p) (spec_rmdir t))"
| "spec_call (GetCall p) t =
     spec_read (\<lambda>_ x. case x of ObjectNode d \<Rightarrow> Content d | NamespaceNode \<Rightarrow> Refused) p t"
| "spec_call (MetadataCall p) t = spec_read (\<lambda>_ x. Described (info_of_node x)) p t"
| "spec_call (ListCall p) t =
     spec_read (\<lambda>ns x. if x = NamespaceNode then Entries (card (children t ns)) (entries t ns) else Refused) p t"

text \<open>A call adds at most the node it names.\<close>

lemma spec_new:
  "spec_put t ns d = Some t' \<Longrightarrow> t' ms \<noteq> None \<Longrightarrow> t ms \<noteq> None \<or> ns = ms"
  "spec_append t ns d = Some t' \<Longrightarrow> t' ms \<noteq> None \<Longrightarrow> t ms \<noteq> None \<or> ns = ms"
  "spec_delete t ns = Some t' \<Longrightarrow> t' ms \<noteq> None \<Longrightarrow> t ms \<noteq> None \<or> ns = ms"
  "spec_mkdir t ns = Some t' \<Longrightarrow> t' ms \<noteq> None \<Longrightarrow> t ms \<noteq> None \<or> ns = ms"
  "spec_rmdir t ns = Some t' \<Longrightarrow> t' ms \<noteq> None \<Longrightarrow> t ms \<noteq> None \<or> ns = ms"
  by (auto simp: spec_put_def spec_append_def spec_delete_def spec_mkdir_def spec_rmdir_def
      split: option.splits node.splits if_splits)

lemma or_same_new:
  assumes "snd (or_same t (Option.bind x f)) ms \<noteq> None" "\<And>ns t'. f ns = Some t' \<Longrightarrow> t' ms \<noteq> None \<Longrightarrow> t ms \<noteq> None \<or> ns = ms"
  shows "t ms \<noteq> None \<or> x = Some ms"
proof (cases "Option.bind x f")
  case None
  with assms(1) show ?thesis by (simp add: or_same_def)
next
  case (Some t')
  then obtain ns where "x = Some ns" "f ns = Some t'" by (auto simp: bind_eq_Some_conv)
  with Some assms show ?thesis by (simp add: or_same_def)
qed

lemma spec_read_same [simp]: "snd (spec_read f p t) = t"
  by (simp add: spec_read_def split: option.split)

lemma spec_call_new:
  assumes "snd (spec_call c t) ms \<noteq> None"
  shows "t ms \<noteq> None \<or> path_names (call_path c) = Some ms"
proof (cases c)
  case (PutCall p d)
  then show ?thesis using or_same_new [where t = t and ms = ms, OF assms [unfolded PutCall spec_call.simps] spec_new(1) [where t = t and ms = ms]] by simp
next
  case (AppendCall p d)
  then show ?thesis using or_same_new [where t = t and ms = ms, OF assms [unfolded AppendCall spec_call.simps] spec_new(2) [where t = t and ms = ms]] by simp
next
  case (DeleteCall p)
  then show ?thesis using or_same_new [where t = t and ms = ms, OF assms [unfolded DeleteCall spec_call.simps] spec_new(3) [where t = t and ms = ms]] by simp
next
  case (MkdirCall p)
  then show ?thesis using or_same_new [where t = t and ms = ms, OF assms [unfolded MkdirCall spec_call.simps] spec_new(4) [where t = t and ms = ms]] by simp
next
  case (RmdirCall p)
  then show ?thesis using or_same_new [where t = t and ms = ms, OF assms [unfolded RmdirCall spec_call.simps] spec_new(5) [where t = t and ms = ms]] by simp
qed (use assms in simp_all)

text \<open>Sequences of calls, with the answers in order.\<close>

fun run_calls :: "('c \<Rightarrow> 's \<Rightarrow> 'a \<times> 's) \<Rightarrow> 'c list \<Rightarrow> 's \<Rightarrow> 'a list \<times> 's" where
  "run_calls call [] s = ([], s)"
| "run_calls call (c # cs) s = (let (a, s') = call c s; (as, s'') = run_calls call cs s' in (a # as, s''))"

definition root_tree :: tree where
  "root_tree ns = (if ns = [] then Some NamespaceNode else None)"

lemma implements_call:
  assumes "implements good view op spec s" "good s"
  obtains s' where "apfst (answer (\<lambda>_. Completed)) (op s) = (fst (or_same (view s) spec), s')" "good s'"
    "view s' = snd (or_same (view s) spec)"
  using assms(1)
proof (cases rule: implements_cases)
  case (ok s' t)
  then show ?thesis by (intro that [of s']) (simp_all add: or_same_def)
next
  case (err e)
  with assms(2) show ?thesis by (intro that [of s]) (simp_all add: or_same_def)
qed

lemma or_same_None [simp]: "or_same t None = (Refused, t)"
  by (simp add: or_same_def)

subsection \<open>The contract of a tree storage\<close>

text \<open>\<open>plain\<close> selects the calls on which the backend behaves as the tree does.\<close>

locale tree_storage =
  fixes B :: "'s storage_backend"
    and inv :: "'s \<Rightarrow> bool"
    and view :: "'s \<Rightarrow> tree"
    and plain :: "storage_call \<Rightarrow> bool"
  assumes call_step: "inv s \<Longrightarrow> plain c \<Longrightarrow>
    \<exists>s'. backend_call B c s = (fst (spec_call c (view s)), s') \<and> inv s' \<and> view s' = snd (spec_call c (view s))"
begin

lemma run_refines:
  "inv s \<Longrightarrow> list_all plain cs \<Longrightarrow>
   \<exists>s'. run_calls (backend_call B) cs s = (fst (run_calls spec_call cs (view s)), s') \<and> inv s' \<and>
     view s' = snd (run_calls spec_call cs (view s))"
proof (induction cs arbitrary: s)
  case (Cons c cs)
  then obtain s1 where s1: "backend_call B c s = (fst (spec_call c (view s)), s1)" "inv s1"
    "view s1 = snd (spec_call c (view s))"
    using call_step [of s c] by auto
  from Cons.IH [OF s1(2)] Cons.prems(2) obtain s2 where
    "run_calls (backend_call B) cs s1 = (fst (run_calls spec_call cs (view s1)), s2)" "inv s2"
    "view s2 = snd (run_calls spec_call cs (view s1))"
    by auto
  with s1 show ?case by (auto simp: Let_def split: prod.split)
qed simp

end

end
