(* ===== verification/Memory_Storage.thy ===== *)
theory Memory_Storage
  imports Object_Tree "HOL-Library.AList" "HOL-Library.List_Lexorder" "HOL-Library.Char_ord"
begin

section \<open>The in-memory backend (common/src/storage.rs, MemoryStorage)\<close>

text \<open>
  The state behind the mutex: a hash map from normalised paths to contents and a hash set
  of namespaces, as lists with distinct keys (the list order stands for the unspecified
  iteration order), and the mutex's poison flag, which a panic under the lock sets for
  good.  Normalised paths are canonical, so the tables are keyed by their texts
  (\<open>canonical_path_eq\<close>).
\<close>

record memory_storage =
  ms_objects :: "(path \<times> bytes) list"
  ms_namespaces :: "path list"
  ms_poisoned :: bool

definition memory_storage_new :: memory_storage where
  "memory_storage_new = \<lparr>ms_objects = [], ms_namespaces = [''/''], ms_poisoned = False\<rparr>"

fun normalize_loop :: "component list \<Rightarrow> path \<Rightarrow> path res" where
  "normalize_loop [] n = Ok n"
| "normalize_loop (RootDir # cs) n = normalize_loop cs n"
| "normalize_loop (CurDir # cs) n = normalize_loop cs n"
| "normalize_loop (Normal name # cs) n = normalize_loop cs (push n name)"
| "normalize_loop (ParentDir # cs) n =
     (if \<not> path_eq n ''/'' then normalize_loop cs (pop n)
      else Err (FileOperationError ''Path outside storage root''))"

definition normalize_path :: "path \<Rightarrow> path res" where
  "normalize_path p = normalize_loop (components p) ''/''"

definition parent_namespace :: "path \<Rightarrow> path option" where
  "parent_namespace p = map_option (\<lambda>q. if q = [] then ''/'' else q) (parent p)"

definition metadata_for :: "path \<Rightarrow> u64 \<Rightarrow> bool \<Rightarrow> fenris_metadata" where
  "metadata_for p sz ns =
     \<lparr>md_name = to_string_lossy (case file_name p of None \<Rightarrow> '''' | Some n \<Rightarrow> n),
      md_size = sz, md_is_namespace = ns, md_modified_time = 0,
      md_permissions = (if ns then 493 else 420)\<rparr>"

definition lock_state :: "(memory_storage, unit) action" where
  "lock_state s =
     (if ms_poisoned s then (Err (FileOperationError ''Memory storage lock poisoned''), s)
      else (Ok (), s))"

definition ensure_parent_namespace :: "memory_storage \<Rightarrow> path \<Rightarrow> unit res" where
  "ensure_parent_namespace s p =
     (case parent_namespace p of
        Some q \<Rightarrow>
          (if q \<in> set (ms_namespaces s) then Ok ()
           else Err (FileOperationError ''Parent namespace not found''))
      | None \<Rightarrow> Err (FileOperationError ''Parent namespace not found''))"

definition ms_put_object :: "path \<Rightarrow> bytes \<Rightarrow> (memory_storage, unit) action" where
  "ms_put_object p d =
     state_bind (state_lift (normalize_path p)) (\<lambda>k.
     state_bind lock_state (\<lambda>_ s.
       if path_eq k ''/'' \<or> k \<in> set (ms_namespaces s)
       then (Err (FileOperationError ''Path is a namespace''), s)
       else state_bind (state_lift (ensure_parent_namespace s k)) (\<lambda>_ s.
         (Ok (), s\<lparr>ms_objects := AList.update k d (ms_objects s)\<rparr>)) s))"

definition ms_get_object :: "path \<Rightarrow> (memory_storage, bytes) action" where
  "ms_get_object p =
     state_bind (state_lift (normalize_path p)) (\<lambda>k.
     state_bind lock_state (\<lambda>_ s.
       case map_of (ms_objects s) k of
         Some d \<Rightarrow> (Ok d, s)
       | None \<Rightarrow> (Err (FileOperationError ''Object not found''), s)))"

text \<open>The slice \<open>data[start..end]\<close> panics when the sum \<open>start + max_len\<close> has wrapped
  around; the guard is still held, so the mutex is poisoned.\<close>

definition ms_get_object_chunk :: "path \<Rightarrow> u64 \<Rightarrow> usize \<Rightarrow> (memory_storage, object_chunk) action" where
  "ms_get_object_chunk p offset max_len =
     (if max_len = 0
      then state_lift (Err (InvalidRequest ''chunk length must be greater than zero''))
      else
        state_bind (state_lift (normalize_path p)) (\<lambda>k.
        state_bind lock_state (\<lambda>_ s.
          case map_of (ms_objects s) k of
            None \<Rightarrow> (Err (FileOperationError ''Object not found''), s)
          | Some d \<Rightarrow>
              (if len_u64 d \<le> offset
               then (Ok \<lparr>oc_offset = offset, oc_data = [], oc_is_last = True,
                         oc_total_size = len_u64 d\<rparr>, s)
               else
                 (let start = unat offset; fin = min (length d) (usize_add start max_len) in
                  case slice_range d start fin of
                    None \<Rightarrow> (Panic, s\<lparr>ms_poisoned := True\<rparr>)
                  | Some sl \<Rightarrow>
                      (Ok \<lparr>oc_offset = offset, oc_data = sl, oc_is_last = (fin = length d),
                           oc_total_size = len_u64 d\<rparr>, s))))))"

definition ms_append_object :: "path \<Rightarrow> bytes \<Rightarrow> (memory_storage, unit) action" where
  "ms_append_object p d =
     state_bind (state_lift (normalize_path p)) (\<lambda>k.
     state_bind lock_state (\<lambda>_ s.
       if path_eq k ''/'' \<or> k \<in> set (ms_namespaces s)
       then (Err (FileOperationError ''Path is a namespace''), s)
       else state_bind (state_lift (ensure_parent_namespace s k)) (\<lambda>_ s.
         (Ok (), s\<lparr>ms_objects :=
            AList.update k ((case map_of (ms_objects s) k of None \<Rightarrow> [] | Some c \<Rightarrow> c) @ d)
              (ms_objects s)\<rparr>)) s))"

definition ms_delete_object :: "path \<Rightarrow> (memory_storage, unit) action" where
  "ms_delete_object p =
     state_bind (state_lift (normalize_path p)) (\<lambda>k.
     state_bind lock_state (\<lambda>_ s.
       case map_of (ms_objects s) k of
         Some d \<Rightarrow> (Ok (), s\<lparr>ms_objects := AList.delete k (ms_objects s)\<rparr>)
       | None \<Rightarrow> (Err (FileOperationError ''Object not found''), s)))"

definition ms_metadata :: "path \<Rightarrow> (memory_storage, fenris_metadata) action" where
  "ms_metadata p =
     state_bind (state_lift (normalize_path p)) (\<lambda>k.
     state_bind lock_state (\<lambda>_ s.
       case map_of (ms_objects s) k of
         Some d \<Rightarrow> (Ok (metadata_for k (len_u64 d) False), s)
       | None \<Rightarrow>
           if k \<in> set (ms_namespaces s) then (Ok (metadata_for k 0 True), s)
           else (Err (FileOperationError ''Path not found''), s)))"

definition ms_create_namespace :: "path \<Rightarrow> (memory_storage, unit) action" where
  "ms_create_namespace p =
     state_bind (state_lift (normalize_path p)) (\<lambda>k.
     state_bind lock_state (\<lambda>_ s.
       if map_of (ms_objects s) k \<noteq> None
       then (Err (FileOperationError ''Path is an object''), s)
       else state_bind
         (state_lift (if \<not> path_eq k ''/'' then ensure_parent_namespace s k else Ok ())) (\<lambda>_ s.
           (Ok (), s\<lparr>ms_namespaces := List.insert k (ms_namespaces s)\<rparr>)) s))"

definition ms_list_entries :: "memory_storage \<Rightarrow> path \<Rightarrow> fenris_metadata list" where
  "ms_list_entries s k =
     map (\<lambda>n. metadata_for n 0 True)
       (filter (\<lambda>n. \<not> path_eq n k \<and> (case parent n of None \<Rightarrow> False | Some q \<Rightarrow> path_eq q k))
         (ms_namespaces s)) @
     map (\<lambda>(ob, d). metadata_for ob (len_u64 d) False)
       (filter (\<lambda>(ob, d). case parent ob of None \<Rightarrow> False | Some q \<Rightarrow> path_eq q k)
         (ms_objects s))"

definition ms_list_namespace :: "path \<Rightarrow> (memory_storage, fenris_metadata list) action" where
  "ms_list_namespace p =
     state_bind (state_lift (normalize_path p)) (\<lambda>k.
     state_bind lock_state (\<lambda>_ s.
       if k \<notin> set (ms_namespaces s)
       then (Err (FileOperationError ''Namespace not found''), s)
       else (Ok (sort_key md_name (ms_list_entries s k)), s)))"

definition ms_delete_namespace :: "path \<Rightarrow> (memory_storage, unit) action" where
  "ms_delete_namespace p =
     state_bind (state_lift (normalize_path p)) (\<lambda>k.
     state_bind lock_state (\<lambda>_ s.
       if path_eq k ''/'' then (Err (FileOperationError ''Cannot delete root namespace''), s)
       else if k \<notin> set (ms_namespaces s)
       then (Err (FileOperationError ''Namespace not found''), s)
       else if (\<exists>n \<in> set (ms_namespaces s). \<not> path_eq n k \<and> starts_with n k)
             \<or> (\<exists>ob \<in> set (map fst (ms_objects s)). starts_with ob k)
       then (Err (FileOperationError ''Namespace is not empty''), s)
       else (Ok (), s\<lparr>ms_namespaces := removeAll k (ms_namespaces s)\<rparr>)))"

definition ms_exists :: "path \<Rightarrow> memory_storage \<Rightarrow> bool" where
  "ms_exists p s =
     (case normalize_path p of
        Ok k \<Rightarrow> \<not> ms_poisoned s \<and> (map_of (ms_objects s) k \<noteq> None \<or> k \<in> set (ms_namespaces s))
      | _ \<Rightarrow> False)"

definition ms_is_namespace :: "path \<Rightarrow> memory_storage \<Rightarrow> bool" where
  "ms_is_namespace p s =
     (case normalize_path p of
        Ok k \<Rightarrow> \<not> ms_poisoned s \<and> k \<in> set (ms_namespaces s)
      | _ \<Rightarrow> False)"

definition ms_is_object :: "path \<Rightarrow> memory_storage \<Rightarrow> bool" where
  "ms_is_object p s =
     (case normalize_path p of
        Ok k \<Rightarrow> \<not> ms_poisoned s \<and> map_of (ms_objects s) k \<noteq> None
      | _ \<Rightarrow> False)"

definition memory_backend :: "memory_storage storage_backend" where
  "memory_backend =
     \<lparr>put_object = ms_put_object, get_object = ms_get_object,
      get_object_chunk = ms_get_object_chunk, append_object = ms_append_object,
      delete_object = ms_delete_object, metadata = ms_metadata,
      create_namespace = ms_create_namespace, list_namespace = ms_list_namespace,
      delete_namespace = ms_delete_namespace, exists = ms_exists,
      is_namespace = ms_is_namespace, is_object = ms_is_object\<rparr>"

lemma memory_backend_simps [simp]:
  "put_object memory_backend = ms_put_object"
  "get_object memory_backend = ms_get_object"
  "get_object_chunk memory_backend = ms_get_object_chunk"
  "append_object memory_backend = ms_append_object"
  "delete_object memory_backend = ms_delete_object"
  "metadata memory_backend = ms_metadata"
  "create_namespace memory_backend = ms_create_namespace"
  "list_namespace memory_backend = ms_list_namespace"
  "delete_namespace memory_backend = ms_delete_namespace"
  "exists memory_backend = ms_exists"
  "is_namespace memory_backend = ms_is_namespace"
  "is_object memory_backend = ms_is_object"
  by (simp_all add: memory_backend_def)

subsection \<open>Normalisation\<close>

lemma normalize_loop_walk:
  "names_ok ns \<Longrightarrow> (\<And>n. Normal n \<in> set cs \<Longrightarrow> name_ok n) \<Longrightarrow>
   normalize_loop cs (abs_path ns) =
     (case walk cs ns of
        None \<Rightarrow> Err (FileOperationError ''Path outside storage root'')
      | Some ms \<Rightarrow> Ok (abs_path ms))"
  by (induction cs ns rule: walk.induct) (auto simp: names_ok_butlast)

lemma normalize_path_eq:
  "normalize_path p =
     (case path_names p of
        None \<Rightarrow> Err (FileOperationError ''Path outside storage root'')
      | Some ns \<Rightarrow> Ok (abs_path ns))"
  using normalize_loop_walk [of "[]" "components p"] Normal_name_ok [of _ p]
  by (simp add: normalize_path_def path_names_def abs_path_Nil)

subsection \<open>The invariant\<close>

definition ms_inv :: "memory_storage \<Rightarrow> bool" where
  "ms_inv s \<longleftrightarrow>
     \<not> ms_poisoned s \<and>
     distinct (map fst (ms_objects s)) \<and> distinct (ms_namespaces s) \<and>
     ''/'' \<in> set (ms_namespaces s) \<and>
     (\<forall>k \<in> set (map fst (ms_objects s)) \<union> set (ms_namespaces s).
        canonical k \<and> (k = ''/'' \<or> abs_path (butlast (names_of k)) \<in> set (ms_namespaces s))) \<and>
     set (map fst (ms_objects s)) \<inter> set (ms_namespaces s) = {}"

lemma lock_state_inv [simp]: "ms_inv s \<Longrightarrow> lock_state s = (Ok (), s)"
  by (simp add: lock_state_def ms_inv_def)

lemma ms_inv_new: "ms_inv memory_storage_new"
  using canonical_abs_path [of "[]"]
  by (auto simp: ms_inv_def memory_storage_new_def abs_path_Nil)

subsection \<open>The abstract view: a tree of namespaces and objects\<close>

definition tree_of :: "memory_storage \<Rightarrow> tree" where
  "tree_of s ns =
     (if \<not> names_ok ns then None
      else if abs_path ns \<in> set (ms_namespaces s) then Some NamespaceNode
      else map_option ObjectNode (map_of (ms_objects s) (abs_path ns)))"

lemma map_of_Some_key: "map_of xs k = Some v \<Longrightarrow> k \<in> fst ` set xs"
  by (metis map_of_SomeD fst_conv image_eqI)

lemma map_of_delete [simp]: "map_of (AList.delete k xs) = (map_of xs)(k := None)"
  by (rule delete_conv')

lemma ms_inv_keysE:
  assumes "ms_inv s" "k \<in> set (map fst (ms_objects s)) \<or> k \<in> set (ms_namespaces s)"
  obtains ns where "names_ok ns" "k = abs_path ns"
    "ns = [] \<or> abs_path (butlast ns) \<in> set (ms_namespaces s)"
proof -
  from assms have "canonical k" and par: "k = ''/'' \<or> abs_path (butlast (names_of k)) \<in> set (ms_namespaces s)"
    by (auto simp: ms_inv_def)
  then obtain ns where ns: "names_ok ns" "k = abs_path ns" by (auto elim: canonicalE)
  with par have "ns = [] \<or> abs_path (butlast ns) \<in> set (ms_namespaces s)"
    using abs_path_inj [of ns "[]"] by (auto simp: abs_path_Nil)
  with ns that show ?thesis by blast
qed

lemma ms_inv_disjoint: "ms_inv s \<Longrightarrow> k \<in> set (ms_namespaces s) \<Longrightarrow> map_of (ms_objects s) k = None"
  by (auto simp: ms_inv_def map_of_eq_None_iff)

lemma tree_ok_of:
  assumes "ms_inv s"
  shows "tree_ok (tree_of s)"
proof -
  have root: "tree_of s [] = Some NamespaceNode"
    using assms by (simp add: tree_of_def abs_path_Nil ms_inv_def)
  have "tree_of s ns = Some NamespaceNode" if "tree_of s (ns @ [n]) \<noteq> None" for ns n
  proof -
    from that have ok: "names_ok (ns @ [n])"
      and key: "abs_path (ns @ [n]) \<in> set (map fst (ms_objects s)) \<or> abs_path (ns @ [n]) \<in> set (ms_namespaces s)"
      by (auto simp: tree_of_def dest: map_of_Some_key split: if_splits)
    obtain ms where "names_ok ms" "abs_path (ns @ [n]) = abs_path ms"
      "ms = [] \<or> abs_path (butlast ms) \<in> set (ms_namespaces s)"
      by (rule ms_inv_keysE [OF assms key])
    with ok have "abs_path ns \<in> set (ms_namespaces s)"
      using abs_path_inj [of "ns @ [n]" ms] by auto
    with ok show ?thesis by (simp add: tree_of_def)
  qed
  with root show ?thesis by (auto simp: tree_ok_def)
qed

lemma ensure_parent_namespace_eq:
  assumes "names_ok ns" "ns \<noteq> []"
  shows "ensure_parent_namespace s (abs_path ns) =
    (if tree_of s (butlast ns) = Some NamespaceNode then Ok ()
     else Err (FileOperationError ''Parent namespace not found''))"
proof -
  obtain ms n where ns: "ns = ms @ [n]" using assms(2) by (cases ns rule: rev_cases) auto
  with assms have "parent_namespace (abs_path ns) = Some (abs_path ms)"
    by (simp add: parent_namespace_def) (simp add: abs_path_def)
  then show ?thesis
    using assms ns by (auto simp: ensure_parent_namespace_def tree_of_def)
qed

subsection \<open>Updates of the two tables\<close>

lemma tree_of_update:
  assumes "names_ok ns" "tree_of s ns \<noteq> Some NamespaceNode"
  shows "tree_of (s\<lparr>ms_objects := AList.update (abs_path ns) d (ms_objects s)\<rparr>) =
    (tree_of s)(ns \<mapsto> ObjectNode d)"
  using assms by (auto simp: fun_eq_iff tree_of_def update_conv' abs_path_inj split: if_splits)

lemma ms_inv_update:
  assumes "ms_inv s" "names_ok ns" "ns \<noteq> []" "tree_of s ns \<noteq> Some NamespaceNode"
    "tree_of s (butlast ns) = Some NamespaceNode"
  shows "ms_inv (s\<lparr>ms_objects := AList.update (abs_path ns) d (ms_objects s)\<rparr>)"
proof -
  from assms have "abs_path ns \<notin> set (ms_namespaces s)" "abs_path (butlast ns) \<in> set (ms_namespaces s)"
    by (auto simp: tree_of_def split: if_splits)
  with assms show ?thesis
    by (auto simp: ms_inv_def dom_update distinct_update image_iff canonical_abs_path)
qed

lemma tree_of_delete:
  assumes "names_ok ns" "tree_of s ns \<noteq> Some NamespaceNode"
  shows "tree_of (s\<lparr>ms_objects := AList.delete (abs_path ns) (ms_objects s)\<rparr>) = (tree_of s)(ns := None)"
  using assms by (auto simp: fun_eq_iff tree_of_def abs_path_inj split: if_splits)

lemma ms_inv_delete:
  assumes "ms_inv s"
  shows "ms_inv (s\<lparr>ms_objects := AList.delete k (ms_objects s)\<rparr>)"
  using assms by (auto simp: ms_inv_def distinct_delete delete_keys distinct_removeAll)

lemma tree_of_insert:
  assumes "ms_inv s" "names_ok ns"
  shows "tree_of (s\<lparr>ms_namespaces := List.insert (abs_path ns) (ms_namespaces s)\<rparr>) =
    (tree_of s)(ns \<mapsto> NamespaceNode)"
  using assms by (auto simp: fun_eq_iff tree_of_def abs_path_inj split: if_splits)

lemma ms_inv_insert:
  assumes "ms_inv s" "names_ok ns" "map_of (ms_objects s) (abs_path ns) = None"
    "ns = [] \<or> tree_of s (butlast ns) = Some NamespaceNode"
  shows "ms_inv (s\<lparr>ms_namespaces := List.insert (abs_path ns) (ms_namespaces s)\<rparr>)"
proof -
  have "ns = [] \<or> abs_path (butlast ns) \<in> set (ms_namespaces s)"
    using assms(4) by (auto simp: tree_of_def split: if_splits)
  moreover have "abs_path ns \<notin> set (map fst (ms_objects s))"
    using assms(3) by (simp add: map_of_eq_None_iff)
  ultimately show ?thesis
    using assms(1,2) by (auto simp: ms_inv_def abs_path_Nil)
qed

lemma tree_of_remove:
  assumes "names_ok ns" "map_of (ms_objects s) (abs_path ns) = None"
  shows "tree_of (s\<lparr>ms_namespaces := removeAll (abs_path ns) (ms_namespaces s)\<rparr>) = (tree_of s)(ns := None)"
  using assms by (auto simp: fun_eq_iff tree_of_def abs_path_inj split: if_splits)

lemma ms_inv_remove:
  assumes "ms_inv s" "names_ok ns" "ns \<noteq> []" "\<And>n. tree_of s (ns @ [n]) = None"
  shows "ms_inv (s\<lparr>ms_namespaces := removeAll (abs_path ns) (ms_namespaces s)\<rparr>)"
proof -
  have nroot: "abs_path ns \<noteq> ''/''"
    using assms(2,3) abs_path_inj [of ns "[]"] by (simp add: abs_path_Nil)
  have nochild: "abs_path (butlast (names_of k)) \<noteq> abs_path ns"
    if k: "k \<in> set (map fst (ms_objects s)) \<or> k \<in> set (ms_namespaces s)" "k \<noteq> ''/''" for k
  proof
    assume eq: "abs_path (butlast (names_of k)) = abs_path ns"
    obtain ms where ms: "names_ok ms" "k = abs_path ms"
      using ms_inv_keysE [OF assms(1) k(1)] by blast
    with k(2) obtain ls n where ls: "ms = ls @ [n]"
      by (cases ms rule: rev_cases) (auto simp: abs_path_Nil)
    with eq ms assms(2) have "ls = ns" by (auto simp: abs_path_inj)
    moreover have "tree_of s ms \<noteq> None"
      using k(1) ms by (auto simp: tree_of_def dest: weak_map_of_SomeI)
    ultimately show False using assms(4) [of n] ls by simp
  qed
  with nroot show ?thesis
    using assms(1) by (auto simp: ms_inv_def distinct_removeAll)
qed

subsection \<open>Every operation implements its abstract counterpart\<close>

lemma tree_of_namespace: "names_ok ns \<Longrightarrow> abs_path ns \<in> set (ms_namespaces s) \<longleftrightarrow> tree_of s ns = Some NamespaceNode"
  by (auto simp: tree_of_def split: if_splits)

lemma tree_of_object:
  "ms_inv s \<Longrightarrow> names_ok ns \<Longrightarrow> map_of (ms_objects s) (abs_path ns) = Some d \<longleftrightarrow> tree_of s ns = Some (ObjectNode d)"
  by (auto simp: tree_of_def dest: ms_inv_disjoint)

lemma tree_of_no_object:
  "ms_inv s \<Longrightarrow> names_ok ns \<Longrightarrow>
   map_of (ms_objects s) (abs_path ns) = None \<longleftrightarrow> (\<forall>d. tree_of s ns \<noteq> Some (ObjectNode d))"
  by (auto simp: tree_of_def ms_inv_disjoint)

lemma tree_of_root: "ms_inv s \<Longrightarrow> tree_of s [] = Some NamespaceNode"
  using tree_ok_of [of s] by (simp add: tree_ok_def)

lemma ms_put_implements:
  assumes "ms_inv s" "path_names p = Some ns"
  shows "implements ms_inv tree_of (ms_put_object p d) (spec_put (tree_of s) ns d) s"
proof -
  have ok: "names_ok ns" using assms(2) by (rule path_names_ok)
  show ?thesis
    using assms ok
    by (cases "ns = [] \<or> tree_of s ns = Some NamespaceNode")
      (auto simp: implements_def ms_put_object_def normalize_path_eq spec_put_def
        ensure_parent_namespace_eq tree_of_namespace tree_of_update ms_inv_update)
qed

lemma ms_append_implements:
  assumes "ms_inv s" "path_names p = Some ns"
  shows "implements ms_inv tree_of (ms_append_object p d) (spec_append (tree_of s) ns d) s"
proof -
  have ok: "names_ok ns" using assms(2) by (rule path_names_ok)
  then have old: "(case map_of (ms_objects s) (abs_path ns) of None \<Rightarrow> [] | Some c \<Rightarrow> c) = node_data (tree_of s ns)"
    using assms(1) by (auto simp: node_data_def tree_of_def ms_inv_disjoint split: option.splits)
  show ?thesis
    using assms ok
    by (cases "ns = [] \<or> tree_of s ns = Some NamespaceNode")
      (auto simp: implements_def ms_append_object_def normalize_path_eq spec_append_def spec_put_def
        ensure_parent_namespace_eq tree_of_namespace tree_of_update ms_inv_update old)
qed

lemma ms_delete_implements:
  assumes "ms_inv s" "path_names p = Some ns"
  shows "implements ms_inv tree_of (ms_delete_object p) (spec_delete (tree_of s) ns) s"
proof -
  have ok: "names_ok ns" using assms(2) by (rule path_names_ok)
  show ?thesis
  proof (cases "map_of (ms_objects s) (abs_path ns)")
    case None
    with ok assms have "\<forall>d. tree_of s ns \<noteq> Some (ObjectNode d)"
      by (simp add: tree_of_no_object)
    then have "spec_delete (tree_of s) ns = None"
      by (auto simp: spec_delete_def split: option.splits node.splits)
    with None assms show ?thesis
      by (simp add: implements_def ms_delete_object_def normalize_path_eq)
  next
    case (Some d)
    with ok assms have "tree_of s ns = Some (ObjectNode d)"
      by (simp add: tree_of_object)
    with Some assms ok show ?thesis
      by (simp add: implements_def ms_delete_object_def normalize_path_eq spec_delete_def
          tree_of_delete ms_inv_delete)
  qed
qed

lemma ms_mkdir_implements:
  assumes "ms_inv s" "path_names p = Some ns"
  shows "implements ms_inv tree_of (ms_create_namespace p) (spec_mkdir (tree_of s) ns) s"
proof -
  have ok: "names_ok ns" using assms(2) by (rule path_names_ok)
  consider d where "tree_of s ns = Some (ObjectNode d)" | "tree_of s ns = Some NamespaceNode" | "tree_of s ns = None"
    by (metis node.exhaust not_None_eq)
  then show ?thesis
  proof cases
    case 1
    then have "map_of (ms_objects s) (abs_path ns) = Some d"
      using assms ok by (simp add: tree_of_object)
    with 1 assms show ?thesis
      by (simp add: implements_def ms_create_namespace_def normalize_path_eq spec_mkdir_def)
  next
    case 2
    have par: "ns = [] \<or> tree_of s (butlast ns) = Some NamespaceNode"
      using 2 tree_ok_of [OF assms(1)] by (cases ns rule: rev_cases) (auto simp: tree_ok_def)
    moreover have "map_of (ms_objects s) (abs_path ns) = None"
      using 2 assms(1) ok by (simp add: tree_of_no_object)
    moreover have "(tree_of s)(ns \<mapsto> NamespaceNode) = tree_of s"
      using 2 by auto
    ultimately show ?thesis
      using assms ok 2
      by (auto simp: implements_def ms_create_namespace_def normalize_path_eq spec_mkdir_def
          ensure_parent_namespace_eq tree_of_insert ms_inv_insert)
  next
    case 3
    then have "ns \<noteq> []" using tree_of_root [OF assms(1)] by auto
    moreover have "map_of (ms_objects s) (abs_path ns) = None"
      using 3 assms(1) ok by (simp add: tree_of_no_object)
    ultimately show ?thesis
      using assms ok 3
      by (auto simp: implements_def ms_create_namespace_def normalize_path_eq spec_mkdir_def
          ensure_parent_namespace_eq tree_of_insert ms_inv_insert)
  qed
qed

lemma tree_ok_prefix: "tree_ok t \<Longrightarrow> t (ns @ ks) \<noteq> None \<Longrightarrow> ks \<noteq> [] \<Longrightarrow> t (ns @ [hd ks]) \<noteq> None"
proof (induction ks rule: rev_induct)
  case Nil
  then show ?case by simp
next
  case (snoc k ks)
  show ?case
  proof (cases "ks = []")
    case True
    with snoc.prems show ?thesis by simp
  next
    case False
    have "t ((ns @ ks) @ [k]) \<noteq> None" using snoc.prems(2) by simp
    with snoc.prems(1) have "t (ns @ ks) = Some NamespaceNode" unfolding tree_ok_def by blast
    with snoc False show ?thesis by simp
  qed
qed

lemma ms_has_children_iff:
  assumes "ms_inv s" "names_ok ns" "tree_of s ns = Some NamespaceNode"
  shows "(\<exists>n \<in> set (ms_namespaces s). \<not> path_eq n (abs_path ns) \<and> starts_with n (abs_path ns))
      \<or> (\<exists>ob \<in> set (map fst (ms_objects s)). starts_with ob (abs_path ns))
    \<longleftrightarrow> (\<exists>n. tree_of s (ns @ [n]) \<noteq> None)" (is "?has \<longleftrightarrow> ?child")
proof
  assume ?has
  then obtain k where k: "k \<in> set (map fst (ms_objects s)) \<or> k \<in> set (ms_namespaces s)"
    and st: "starts_with k (abs_path ns)" and ne: "k \<in> set (ms_namespaces s) \<longrightarrow> \<not> path_eq k (abs_path ns)"
    using assms(1) by (auto simp: ms_inv_def)
  obtain ms where ms: "names_ok ms" "k = abs_path ms"
    by (rule ms_inv_keysE [OF assms(1) k])
  with st assms(2) obtain ks where ks: "ms = ns @ ks" by auto
  have some: "tree_of s ms \<noteq> None"
    using k ms by (auto simp: tree_of_def dest: weak_map_of_SomeI)
  have "ks \<noteq> []"
  proof
    assume "ks = []"
    with ks ms assms have "k \<in> set (ms_namespaces s)" by (simp add: tree_of_namespace)
    with ne ks ms assms(2) \<open>ks = []\<close> show False by simp
  qed
  with some ks show ?child
    using tree_ok_prefix [OF tree_ok_of [OF assms(1)], of ns ks] by auto
next
  assume ?child
  then obtain n where n: "tree_of s (ns @ [n]) \<noteq> None" by blast
  then have ok: "names_ok (ns @ [n])" by (auto simp: tree_of_def split: if_splits)
  with n assms(2) show ?has
    by (force simp: tree_of_def image_iff split: if_splits dest: map_of_Some_key)
qed

lemma ms_rmdir_implements:
  assumes "ms_inv s" "path_names p = Some ns"
  shows "implements ms_inv tree_of (ms_delete_namespace p) (spec_rmdir (tree_of s) ns) s"
proof -
  have ok: "names_ok ns" using assms(2) by (rule path_names_ok)
  show ?thesis
  proof (cases "ns = [] \<or> tree_of s ns \<noteq> Some NamespaceNode")
    case True
    with assms ok show ?thesis
      by (auto simp: implements_def ms_delete_namespace_def normalize_path_eq spec_rmdir_def tree_of_namespace)
  next
    case False
    then have noob: "map_of (ms_objects s) (abs_path ns) = None"
      using assms(1) ok by (simp add: tree_of_no_object)
    have inns: "abs_path ns \<in> set (ms_namespaces s)"
      using False ok by (simp add: tree_of_namespace)
    have eq: "ms_delete_namespace p s =
      (if \<exists>n. tree_of s (ns @ [n]) \<noteq> None then (Err (FileOperationError ''Namespace is not empty''), s)
       else (Ok (), s\<lparr>ms_namespaces := removeAll (abs_path ns) (ms_namespaces s)\<rparr>))"
      using False assms ok inns ms_has_children_iff [OF assms(1) ok]
      by (simp add: ms_delete_namespace_def normalize_path_eq)
    show ?thesis
      using False assms ok noob
      by (auto simp: implements_def eq spec_rmdir_def tree_of_remove ms_inv_remove)
  qed
qed

subsection \<open>The backend meets the storage contract\<close>

definition memory_content :: "memory_storage \<Rightarrow> path \<Rightarrow> bytes option" where
  "memory_content s p =
     (case path_names p of
        None \<Rightarrow> None
      | Some ns \<Rightarrow> (case tree_of s ns of Some (ObjectNode d) \<Rightarrow> Some d | _ \<Rightarrow> None))"

definition same_place :: "path \<Rightarrow> path \<Rightarrow> bool" where
  "same_place p q \<longleftrightarrow> path_names p \<noteq> None \<and> path_names p = path_names q"

lemma memory_content_Some:
  "ms_inv s \<Longrightarrow> memory_content s p = Some d \<longleftrightarrow>
     (\<exists>ns. path_names p = Some ns \<and> map_of (ms_objects s) (abs_path ns) = Some d)"
  by (auto simp: memory_content_def tree_of_object path_names_ok
      split: option.splits node.splits)

lemma memory_content_None:
  "ms_inv s \<Longrightarrow> memory_content s p = None \<longleftrightarrow>
     (\<forall>ns. path_names p = Some ns \<longrightarrow> map_of (ms_objects s) (abs_path ns) = None)"
  using memory_content_Some [of s p] by (metis not_None_eq)

lemma outside_Err:
  assumes "path_names p = None"
  shows "ms_put_object p d s = (Err (FileOperationError ''Path outside storage root''), s)"
    and "ms_get_object p s = (Err (FileOperationError ''Path outside storage root''), s)"
    and "0 < n \<Longrightarrow> ms_get_object_chunk p off n s = (Err (FileOperationError ''Path outside storage root''), s)"
    and "ms_append_object p d s = (Err (FileOperationError ''Path outside storage root''), s)"
    and "ms_delete_object p s = (Err (FileOperationError ''Path outside storage root''), s)"
    and "ms_metadata p s = (Err (FileOperationError ''Path outside storage root''), s)"
    and "ms_create_namespace p s = (Err (FileOperationError ''Path outside storage root''), s)"
    and "ms_list_namespace p s = (Err (FileOperationError ''Path outside storage root''), s)"
    and "ms_delete_namespace p s = (Err (FileOperationError ''Path outside storage root''), s)"
  using assms
  by (simp_all add: normalize_path_eq ms_put_object_def ms_get_object_def ms_get_object_chunk_def
      ms_append_object_def ms_delete_object_def ms_metadata_def ms_create_namespace_def
      ms_list_namespace_def ms_delete_namespace_def)

lemma memory_content_update:
  assumes "tree_of s' = (tree_of s)(ns \<mapsto> ObjectNode d)" "path_names p = Some ns"
  shows "memory_content s' q = (if same_place p q then Some d else memory_content s q)"
  using assms by (auto simp: memory_content_def same_place_def split: option.splits)

lemma ms_put_cases:
  assumes "ms_inv s"
  obtains (ok) s' ns where "path_names p = Some ns" "ms_put_object p d s = (Ok (), s')" "ms_inv s'"
      "tree_of s' = (tree_of s)(ns \<mapsto> ObjectNode d)"
    | (err) e where "ms_put_object p d s = (Err (FileOperationError e), s)"
proof (cases "path_names p")
  case None
  then show ?thesis by (intro err) (rule outside_Err)
next
  case (Some ns)
  from ms_put_implements [OF assms Some, of d] show ?thesis
  proof (cases rule: implements_cases)
    case (ok s' t)
    then have "t = (tree_of s)(ns \<mapsto> ObjectNode d)" by (simp add: spec_put_def split: if_splits)
    with ok Some show ?thesis by (intro that(1)) auto
  next
    case (err e)
    then show ?thesis by (intro that(2))
  qed
qed

lemma ms_append_cases:
  assumes "ms_inv s"
  obtains (ok) s' ns where "path_names p = Some ns" "ms_append_object p d s = (Ok (), s')" "ms_inv s'"
      "tree_of s' = (tree_of s)(ns \<mapsto> ObjectNode (node_data (tree_of s ns) @ d))"
      "tree_of s ns \<noteq> Some NamespaceNode"
    | (err) e where "ms_append_object p d s = (Err (FileOperationError e), s)" "memory_content s p = None"
proof (cases "path_names p")
  case None
  then have "memory_content s p = None" by (simp add: memory_content_def)
  with None show ?thesis by (intro err) (rule outside_Err)
next
  case (Some ns)
  from ms_append_implements [OF assms Some, of d] show ?thesis
  proof (cases rule: implements_cases)
    case (ok s' t)
    then have "t = (tree_of s)(ns \<mapsto> ObjectNode (node_data (tree_of s ns) @ d))" "tree_of s ns \<noteq> Some NamespaceNode"
      by (simp_all add: spec_append_def spec_put_def split: if_splits)
    with ok Some show ?thesis by (intro that(1)) auto
  next
    case (err e)
    have "\<not> (\<exists>c. tree_of s ns = Some (ObjectNode c))"
    proof
      assume ob: "\<exists>c. tree_of s ns = Some (ObjectNode c)"
      then have "ns \<noteq> []" using tree_of_root [OF assms] by auto
      then obtain ms n where "ns = ms @ [n]" by (cases ns rule: rev_cases) auto
      with ob tree_ok_of [OF assms] have "tree_of s (butlast ns) = Some NamespaceNode"
        by (auto simp: tree_ok_def)
      with ob err \<open>ns \<noteq> []\<close> show False by (auto simp: spec_append_def spec_put_def split: if_splits)
    qed
    then have "memory_content s p = None"
      using Some by (auto simp: memory_content_def split: option.splits node.splits)
    with err show ?thesis by (intro that(2))
  qed
qed

lemma node_data_content:
  assumes "path_names p = Some ns" "tree_of s ns \<noteq> Some NamespaceNode"
  shows "node_data (tree_of s ns) @ d = (case memory_content s p of None \<Rightarrow> d | Some c \<Rightarrow> c @ d)"
  using assms by (auto simp: node_data_def memory_content_def split: option.splits node.splits)

lemma slice_chunk_of:
  assumes d: "vec_ok d" and n: "0 < n" "n < 2 ^ 63" and off: "\<not> len_u64 d \<le> off"
  shows "\<exists>sl. slice_range d (unat off) (min (length d) (usize_add (unat off) n)) = Some sl \<and>
    chunk_of d off n \<lparr>oc_offset = off, oc_data = sl,
      oc_is_last = (min (length d) (usize_add (unat off) n) = length d), oc_total_size = len_u64 d\<rparr>"
proof -
  from off d have lt: "unat off < length d"
    by (simp add: word_le_nat_alt)
  with d n have add: "usize_add (unat off) n = unat off + n"
    by (intro usize_add_small) (simp add: vec_ok_def)
  with lt n show ?thesis
    by (auto simp: slice_range_def chunk_of_def min_def)
qed

lemma ms_chunk_ok:
  assumes "ms_inv s" "memory_content s p = Some d" "vec_ok d" "0 < n" "n < 2 ^ 63"
  shows "\<exists>c. ms_get_object_chunk p off n s = (Ok c, s) \<and> chunk_of d off n c"
proof -
  obtain ns where ns: "path_names p = Some ns" "map_of (ms_objects s) (abs_path ns) = Some d"
    using assms(1,2) by (auto simp: memory_content_Some)
  show ?thesis
  proof (cases "len_u64 d \<le> off")
    case True
    then have "length d \<le> unat off" using assms(3) by (simp add: word_le_nat_alt)
    with True ns assms show ?thesis
      by (auto simp: ms_get_object_chunk_def normalize_path_eq chunk_of_def)
  next
    case False
    obtain sl where sl: "slice_range d (unat off) (min (length d) (usize_add (unat off) n)) = Some sl"
      "chunk_of d off n \<lparr>oc_offset = off, oc_data = sl,
         oc_is_last = (min (length d) (usize_add (unat off) n) = length d), oc_total_size = len_u64 d\<rparr>"
      using slice_chunk_of [OF assms(3-5) False] by blast
    with False ns assms show ?thesis
      by (simp add: ms_get_object_chunk_def normalize_path_eq Let_def)
  qed
qed

interpretation memory: storage_contract memory_backend ms_inv memory_content same_place
proof
  show "fst (put_object memory_backend p d s) \<noteq> Panic" if "ms_inv s" for s p d
    using that by (cases rule: ms_put_cases [of s p d]) auto
  show "ms_inv s' \<and> (\<forall>q. memory_content s' q = (if same_place p q then Some d else memory_content s q))"
    if "ms_inv s" "put_object memory_backend p d s = (Ok u, s')" for s p d u s'
    using that by (cases rule: ms_put_cases [of s p d]) (auto simp: memory_content_update)
  show "s' = s" if "ms_inv s" "put_object memory_backend p d s = (Err e, s')" for s p d e s'
    using that by (cases rule: ms_put_cases [of s p d]) auto
  show "get_object memory_backend p s = (Ok d, s)" if "ms_inv s" "memory_content s p = Some d" for s p d
    using that by (auto simp: memory_content_Some ms_get_object_def normalize_path_eq)
  show "\<exists>e. get_object memory_backend p s = (Err e, s)" if "ms_inv s" "memory_content s p = None" for s p
    using that by (cases "path_names p") (auto simp: memory_content_None ms_get_object_def normalize_path_eq)
  show "\<exists>c. get_object_chunk memory_backend p off n s = (Ok c, s) \<and> chunk_of d off n c"
    if "ms_inv s" "memory_content s p = Some d" "vec_ok d" "0 < n" "n < 2 ^ 63" for s p d n off
    using ms_chunk_ok [OF that] by simp
  show "\<exists>r. get_object_chunk memory_backend p off n s = (r, s) \<and> r \<noteq> Panic \<and> (\<forall>c. r = Ok c \<longrightarrow> oc_is_last c)"
    if "ms_inv s" "memory_content s p = None" "0 < n" for s p n off
    using that by (cases "path_names p") (auto simp: memory_content_None ms_get_object_chunk_def normalize_path_eq)
  show "fst (append_object memory_backend p d s) \<noteq> Panic" if "ms_inv s" for s p d
    using that by (cases rule: ms_append_cases [of s p d]) auto
  show "ms_inv s' \<and> (\<forall>q. memory_content s' q =
      (if same_place p q then Some (case memory_content s p of None \<Rightarrow> d | Some c \<Rightarrow> c @ d) else memory_content s q))"
    if "ms_inv s" "append_object memory_backend p d s = (Ok u, s')" for s p d u s'
    using that by (cases rule: ms_append_cases [of s p d]) (auto simp: memory_content_update node_data_content)
  show "s' = s" if "ms_inv s" "append_object memory_backend p d s = (Err e, s')" for s p d e s'
    using that by (cases rule: ms_append_cases [of s p d]) auto
  show "fst (append_object memory_backend p d s) = Ok ()" if "ms_inv s" "memory_content s p = Some c" for s p c d
    using that by (cases rule: ms_append_cases [of s p d]) auto
  show "same_place p p" if "ms_inv s" "memory_content s p \<noteq> None" for s p
    using that by (auto simp: memory_content_def same_place_def split: option.splits)
  show "same_place p p" if "ms_inv s" "fst (put_object memory_backend p d s) = Ok ()" for s p d
    using that by (cases rule: ms_put_cases [of s p d]) (auto simp: same_place_def)
  show "same_place p p" if "ms_inv s" "fst (append_object memory_backend p d s) = Ok ()" for s p d
    using that by (cases rule: ms_append_cases [of s p d]) (auto simp: same_place_def)
qed

subsection \<open>Listing and metadata\<close>

text \<open>What a listing says of the child \<open>n\<close>.\<close>

fun child_metadata :: "string \<Rightarrow> node \<Rightarrow> fenris_metadata" where
  "child_metadata n NamespaceNode =
     \<lparr>md_name = utf8_lossy n, md_size = 0, md_is_namespace = True, md_modified_time = 0, md_permissions = 493\<rparr>"
| "child_metadata n (ObjectNode d) =
     \<lparr>md_name = utf8_lossy n, md_size = len_u64 d, md_is_namespace = False, md_modified_time = 0,
      md_permissions = 420\<rparr>"

lemma metadata_for_abs_path:
  assumes "names_ok ns" "name_ok n"
  shows "metadata_for (abs_path (ns @ [n])) sz b =
    \<lparr>md_name = utf8_lossy n, md_size = sz, md_is_namespace = b, md_modified_time = 0,
     md_permissions = (if b then 493 else 420)\<rparr>"
  using assms by (simp add: metadata_for_def to_string_lossy_def)

lemma child_key_iff:
  assumes "names_ok ns" "canonical k"
  shows "(case parent k of None \<Rightarrow> False | Some q \<Rightarrow> path_eq q (abs_path ns)) \<longleftrightarrow>
    (\<exists>n. name_ok n \<and> k = abs_path (ns @ [n]))"
proof -
  obtain ms where ms: "names_ok ms" "k = abs_path ms" using assms(2) by (rule canonicalE)
  show ?thesis
  proof (cases ms rule: rev_cases)
    case Nil
    have "abs_path [] \<noteq> abs_path (ns @ [n])" if "name_ok n" for n
      using that assms(1) abs_path_inj [of "[]" "ns @ [n]"] by auto
    with Nil ms show ?thesis by auto
  next
    case (snoc ls m)
    with ms assms(1) show ?thesis
      by (auto simp: abs_path_inj)
  qed
qed

lemma children_ok: "n \<in> children (tree_of s) ns \<Longrightarrow> name_ok n"
  by (auto simp: children_def tree_of_def split: if_splits)

lemma list_namespaces_part:
  assumes "ms_inv s" "names_ok ns"
  shows "set (filter (\<lambda>n. \<not> path_eq n (abs_path ns) \<and>
      (case parent n of None \<Rightarrow> False | Some q \<Rightarrow> path_eq q (abs_path ns))) (ms_namespaces s)) =
    (\<lambda>n. abs_path (ns @ [n])) ` {n. tree_of s (ns @ [n]) = Some NamespaceNode}"
proof -
  have "k \<in> set (ms_namespaces s) \<Longrightarrow> canonical k" for k
    using assms(1) by (auto simp: ms_inv_def)
  with assms(2) show ?thesis
    by (auto simp: child_key_iff tree_of_def split: if_splits)
qed

lemma list_objects_part:
  assumes "ms_inv s" "names_ok ns"
  shows "set (filter (\<lambda>(ob, d). case parent ob of None \<Rightarrow> False | Some q \<Rightarrow> path_eq q (abs_path ns)) (ms_objects s)) =
    {(abs_path (ns @ [n]), d) |n d. tree_of s (ns @ [n]) = Some (ObjectNode d)}"
proof -
  have can: "(k, d) \<in> set (ms_objects s) \<Longrightarrow> canonical k" for k d
    using assms(1) by (force simp: ms_inv_def)
  have ob: "(abs_path (ns @ [n]), d) \<in> set (ms_objects s) \<longleftrightarrow> tree_of s (ns @ [n]) = Some (ObjectNode d)"
    if "name_ok n" for n d
    using that assms tree_of_object [of s "ns @ [n]" d]
    by (simp add: ms_inv_def)
  have "tree_of s (ns @ [n]) = Some (ObjectNode d) \<Longrightarrow> name_ok n" for n d
    by (auto simp: tree_of_def split: if_splits)
  with can ob assms(2) show ?thesis
    by (auto simp: child_key_iff) blast+
qed

lemma ms_list_entries_set:
  assumes "ms_inv s" "names_ok ns"
  shows "set (ms_list_entries s (abs_path ns)) =
    (\<lambda>n. child_metadata n (the (tree_of s (ns @ [n])))) ` children (tree_of s) ns"
proof -
  let ?c = "\<lambda>n. child_metadata n (the (tree_of s (ns @ [n])))"
  have md: "metadata_for (abs_path (ns @ [n])) 0 True = ?c n" if "tree_of s (ns @ [n]) = Some NamespaceNode" for n
    using that assms(2) children_ok [of n s ns] by (simp add: children_def metadata_for_abs_path)
  have mo: "metadata_for (abs_path (ns @ [n])) (len_u64 d) False = ?c n" if "tree_of s (ns @ [n]) = Some (ObjectNode d)" for n d
    using that assms(2) children_ok [of n s ns] by (simp add: children_def metadata_for_abs_path)
  have "set (ms_list_entries s (abs_path ns)) =
      ?c ` {n. tree_of s (ns @ [n]) = Some NamespaceNode} \<union> ?c ` {n. \<exists>d. tree_of s (ns @ [n]) = Some (ObjectNode d)}"
    unfolding ms_list_entries_def set_append set_map
      list_namespaces_part [OF assms] list_objects_part [OF assms]
    by (force simp: image_Un image_image image_Collect md mo intro!: arg_cong2 [where f = "(\<union>)"])
  also have "\<dots> = ?c ` children (tree_of s) ns"
    unfolding image_Un [symmetric] children_def
    by (rule arg_cong [where f = "image ?c"]) (auto, metis node.exhaust)
  finally show ?thesis .
qed

lemma inj_child: "names_ok ns \<Longrightarrow> inj_on (\<lambda>n. abs_path (ns @ [n])) {n. name_ok n}"
  by (auto simp: inj_on_def abs_path_inj)

lemma ms_list_entries_length:
  assumes "ms_inv s" "names_ok ns"
  shows "length (ms_list_entries s (abs_path ns)) = card (children (tree_of s) ns)"
proof -
  let ?f = "\<lambda>n. abs_path (ns @ [n])"
  let ?N = "{n. tree_of s (ns @ [n]) = Some NamespaceNode}"
  let ?O = "{n. \<exists>d. tree_of s (ns @ [n]) = Some (ObjectNode d)}"
  let ?ns = "filter (\<lambda>n. \<not> path_eq n (abs_path ns) \<and>
      (case parent n of None \<Rightarrow> False | Some q \<Rightarrow> path_eq q (abs_path ns))) (ms_namespaces s)"
  let ?os = "filter (\<lambda>(ob, d). case parent ob of None \<Rightarrow> False | Some q \<Rightarrow> path_eq q (abs_path ns)) (ms_objects s)"
  have ok: "?N \<subseteq> {n. name_ok n}" "?O \<subseteq> {n. name_ok n}"
    using children_ok [of _ s ns] by (auto simp: children_def)
  have inj: "inj_on ?f ?N" "inj_on ?f ?O"
    using inj_child [OF assms(2)] ok by (auto intro: inj_on_subset)
  have "distinct (map fst ?os)" "distinct ?ns"
    using assms(1) by (auto simp: ms_inv_def distinct_map intro: inj_on_subset)
  then have len: "length ?ns = card (set ?ns)" "length ?os = card (fst ` set ?os)"
    using distinct_card [of ?ns] distinct_card [of "map fst ?os"] by simp_all
  have img: "fst ` set ?os = ?f ` ?O"
    unfolding list_objects_part [OF assms] by (auto simp: image_iff) force
  with len inj have "length ?ns = card ?N" "length ?os = card ?O"
    by (simp_all only: list_namespaces_part [OF assms] card_image)
  moreover have "finite ?N"
    using finite_imageD [OF _ inj(1)] list_namespaces_part [OF assms] by (metis List.finite_set)
  moreover have "finite ?O"
    using finite_imageD [OF _ inj(2)] img by (metis List.finite_set finite_imageI)
  moreover have "children (tree_of s) ns = ?N \<union> ?O"
    unfolding children_def by (auto, metis node.exhaust)
  ultimately show ?thesis
    by (simp add: card_Un_disjoint disjoint_iff ms_list_entries_def)
qed

lemma ms_list_namespace_ok:
  assumes "ms_inv s" "path_names p = Some ns" "tree_of s ns = Some NamespaceNode"
  shows "\<exists>es. ms_list_namespace p s = (Ok es, s) \<and> sorted (map md_name es) \<and>
    set es = (\<lambda>n. child_metadata n (the (tree_of s (ns @ [n])))) ` children (tree_of s) ns \<and>
    length es = card (children (tree_of s) ns)"
proof -
  have ok: "names_ok ns" using assms(2) by (rule path_names_ok)
  have "ms_list_namespace p s = (Ok (sort_key md_name (ms_list_entries s (abs_path ns))), s)"
    using assms ok by (simp add: ms_list_namespace_def normalize_path_eq tree_of_namespace)
  with ms_list_entries_set [OF assms(1) ok] ms_list_entries_length [OF assms(1) ok] show ?thesis
    by simp
qed

lemma ms_metadata_eq:
  assumes "ms_inv s" "path_names p = Some ns"
  shows "ms_metadata p s = (case tree_of s ns of
      None \<Rightarrow> (Err (FileOperationError ''Path not found''), s)
    | Some x \<Rightarrow> (Ok (child_metadata (if ns = [] then '''' else last ns) x), s))"
proof -
  have ok: "names_ok ns" using assms(2) by (rule path_names_ok)
  consider d where "tree_of s ns = Some (ObjectNode d)" | "tree_of s ns = Some NamespaceNode" | "tree_of s ns = None"
    by (metis node.exhaust not_None_eq)
  then show ?thesis
  proof cases
    case 1
    then have "map_of (ms_objects s) (abs_path ns) = Some d" using assms(1) ok by (simp add: tree_of_object)
    with 1 ok assms show ?thesis
      by (auto simp: ms_metadata_def normalize_path_eq metadata_for_def to_string_lossy_def)
  next
    case 2
    then have "map_of (ms_objects s) (abs_path ns) = None" using assms(1) ok by (simp add: tree_of_no_object)
    with 2 ok assms show ?thesis
      by (auto simp: ms_metadata_def normalize_path_eq tree_of_namespace metadata_for_def to_string_lossy_def)
  next
    case 3
    then have "map_of (ms_objects s) (abs_path ns) = None" using assms(1) ok by (simp add: tree_of_no_object)
    with 3 ok assms show ?thesis
      by (auto simp: ms_metadata_def normalize_path_eq tree_of_namespace)
  qed
qed

subsection \<open>The chunk read that panics\<close>

lemma usize_add_wraps: "a < 2 ^ 64 \<Longrightarrow> b < 2 ^ 64 \<Longrightarrow> 2 ^ 64 \<le> a + b \<Longrightarrow> usize_add a b = a + b - 2 ^ 64"
  by (simp add: usize_add_def mod_if)

lemma ms_chunk_panics:
  assumes "ms_inv s" "memory_content s p = Some d" "vec_ok d" "0 < unat off" "unat off < length d"
    "n < 2 ^ 64" "2 ^ 64 \<le> unat off + n"
  shows "ms_get_object_chunk p off n s = (Panic, s\<lparr>ms_poisoned := True\<rparr>)"
proof -
  obtain ns where ns: "path_names p = Some ns" "map_of (ms_objects s) (abs_path ns) = Some d"
    using assms(1,2) by (auto simp: memory_content_Some)
  have "n > 0" using assms(3,5,7) by (cases n) (auto simp: vec_ok_def)
  have "usize_add (unat off) n < unat off"
    using assms by (subst usize_add_wraps) auto
  then have "slice_range d (unat off) (min (length d) (usize_add (unat off) n)) = None"
    by (simp add: slice_range_def)
  moreover have "\<not> len_u64 d \<le> off" using assms by (simp add: word_le_nat_alt)
  ultimately show ?thesis
    using ns assms(1) \<open>n > 0\<close> by (simp add: ms_get_object_chunk_def normalize_path_eq Let_def)
qed

text \<open>With the lock poisoned every operation on a valid path fails, and nothing is found any more.\<close>

lemma ms_poisoned_Err:
  assumes "ms_poisoned s" "path_names p = Some ns"
  defines "e \<equiv> FileOperationError ''Memory storage lock poisoned''"
  shows "ms_put_object p d s = (Err e, s)" "ms_get_object p s = (Err e, s)"
    "0 < n \<Longrightarrow> ms_get_object_chunk p off n s = (Err e, s)" "ms_append_object p d s = (Err e, s)"
    "ms_delete_object p s = (Err e, s)" "ms_metadata p s = (Err e, s)" "ms_create_namespace p s = (Err e, s)"
    "ms_list_namespace p s = (Err e, s)" "ms_delete_namespace p s = (Err e, s)"
    "\<not> ms_exists p s" "\<not> ms_is_namespace p s" "\<not> ms_is_object p s"
  using assms
  by (simp_all add: normalize_path_eq ms_put_object_def ms_get_object_def ms_get_object_chunk_def lock_state_def
      ms_append_object_def ms_delete_object_def ms_metadata_def ms_create_namespace_def ms_list_namespace_def
      ms_delete_namespace_def ms_exists_def ms_is_namespace_def ms_is_object_def)

subsection \<open>Runs\<close>

lemma reads_keep_state:
  assumes "ms_inv s"
  shows "snd (ms_get_object p s) = s" "snd (ms_metadata p s) = s" "snd (ms_list_namespace p s) = s"
  using assms
  by (cases "normalize_path p";
      simp add: ms_get_object_def ms_metadata_def ms_list_namespace_def state_bind_def split: option.split)+

lemma ms_get_answer:
  assumes "ms_inv s"
  shows "apfst (answer Content) (ms_get_object p s) = (fst (spec_call (GetCall p) (tree_of s)), s)"
proof (cases "path_names p")
  case (Some ns)
  then have ok: "names_ok ns" by (rule path_names_ok)
  show ?thesis
  proof (cases "map_of (ms_objects s) (abs_path ns)")
    case None
    with ok assms have "\<forall>d. tree_of s ns \<noteq> Some (ObjectNode d)" by (simp add: tree_of_no_object)
    with None Some assms show ?thesis
      by (auto simp: ms_get_object_def normalize_path_eq spec_read_def split: option.split node.split)
  next
    case (Some d)
    with ok assms have "tree_of s ns = Some (ObjectNode d)" by (simp add: tree_of_object)
    with Some \<open>path_names p = Some ns\<close> assms show ?thesis
      by (simp add: ms_get_object_def normalize_path_eq spec_read_def)
  qed
qed (simp add: outside_Err spec_read_def)

lemma child_metadata_info [simp]:
  "info_of_metadata (child_metadata n x) = info_of_node x" "md_name (child_metadata n x) = utf8_lossy n"
  by (cases x; simp add: info_of_metadata_def)+

lemma ms_list_answer:
  assumes "ms_inv s"
  shows "apfst (answer listed) (ms_list_namespace p s) = (fst (spec_call (ListCall p) (tree_of s)), s)"
proof (cases "path_names p")
  case (Some ns)
  then have ok: "names_ok ns" by (rule path_names_ok)
  show ?thesis
  proof (cases "tree_of s ns = Some NamespaceNode")
    case True
    with ms_list_namespace_ok [OF assms Some True] Some show ?thesis
      by (auto simp: spec_read_def listed_def entries_def image_image)
  next
    case False
    with ok Some assms show ?thesis
      by (auto simp: ms_list_namespace_def normalize_path_eq tree_of_namespace spec_read_def split: option.split)
  qed
qed (simp add: outside_Err spec_read_def)

lemma memory_mutating_step:
  assumes "ms_inv s" "\<And>ns. path_names p = Some ns \<Longrightarrow> implements ms_inv tree_of op (spec (tree_of s) ns) s"
    and "path_names p = None \<Longrightarrow> op s = (Err (FileOperationError e), s)"
  shows "\<exists>s'. apfst (answer (\<lambda>_. Completed)) (op s) = (fst (or_same (tree_of s) (Option.bind (path_names p) (spec (tree_of s)))), s') \<and>
    ms_inv s' \<and> tree_of s' = snd (or_same (tree_of s) (Option.bind (path_names p) (spec (tree_of s))))"
proof (cases "path_names p")
  case (Some ns)
  from implements_call [OF assms(2) [OF this] assms(1)] Some show ?thesis by auto
qed (use assms in simp)

interpretation memory_tree: tree_storage memory_backend ms_inv tree_of "\<lambda>_. True"
proof
  fix s c
  assume inv: "ms_inv s"
  note step = memory_mutating_step [OF inv]
  show "\<exists>s'. backend_call memory_backend c s = (fst (spec_call c (tree_of s)), s') \<and> ms_inv s' \<and>
      tree_of s' = snd (spec_call c (tree_of s))"
  proof (cases c)
    case (PutCall p d)
    with step [of p "ms_put_object p d" "\<lambda>t ns. spec_put t ns d", OF ms_put_implements [OF inv] outside_Err(1)]
    show ?thesis by (simp add: memory_backend_def)
  next
    case (AppendCall p d)
    with step [of p "ms_append_object p d" "\<lambda>t ns. spec_append t ns d", OF ms_append_implements [OF inv] outside_Err(4)]
    show ?thesis by (simp add: memory_backend_def)
  next
    case (DeleteCall p)
    with step [of p "ms_delete_object p" spec_delete, OF ms_delete_implements [OF inv] outside_Err(5)]
    show ?thesis by (simp add: memory_backend_def)
  next
    case (MkdirCall p)
    with step [of p "ms_create_namespace p" spec_mkdir, OF ms_mkdir_implements [OF inv] outside_Err(7)]
    show ?thesis by (simp add: memory_backend_def)
  next
    case (RmdirCall p)
    with step [of p "ms_delete_namespace p" spec_rmdir, OF ms_rmdir_implements [OF inv] outside_Err(9)]
    show ?thesis by (simp add: memory_backend_def)
  next
    case (GetCall p)
    with ms_get_answer [OF inv, of p] inv show ?thesis by (auto simp: spec_read_def split: option.split)
  next
    case (MetadataCall p)
    with inv show ?thesis
      by (cases "path_names p") (auto simp: memory_backend_def spec_read_def outside_Err ms_metadata_eq split: option.split)
  next
    case (ListCall p)
    with ms_list_answer [OF inv, of p] inv show ?thesis by (auto simp: spec_read_def split: option.split)
  qed
qed

lemma tree_of_new: "tree_of memory_storage_new = root_tree"
proof
  fix ns
  have "names_ok ns \<Longrightarrow> abs_path ns = ''/'' \<Longrightarrow> ns = []"
    using abs_path_inj [of ns "[]"] by (simp add: abs_path_Nil names_ok_def)
  then show "tree_of memory_storage_new ns = root_tree ns"
    by (auto simp: tree_of_def root_tree_def memory_storage_new_def abs_path_Nil names_ok_def)
qed

end
