(* ===== verification/File_Ops.thy ===== *)
theory File_Ops
  imports Storage
begin

section \<open>File operations and the file-system backend (common/src/file_ops.rs, storage.rs)\<close>

text \<open>
  \<open>DefaultFileOperations\<close> and \<open>TokioFsStorage\<close> over the operating system's file system,
  which is a parameter: a record of operations over a state \<open>'f\<close>.  The theorems say
  that a request path never leads outside the base directory: apart from resolving names, the operations hand the
  file system only paths below it (and the base's parent, to make sure that it exists), so what they do does
  not depend on what the file system does elsewhere; and that a chunk read returns a piece of the file.
\<close>

record os_metadata =
  om_len :: u64
  om_is_dir :: bool
  om_is_file :: bool
  om_modified :: "u64 option"
  om_mode :: u32

text \<open>Errors are their texts.  \<open>os_read\<close> is a read of at most so many bytes at an offset;
  \<open>os_read_dir\<close> gives the file names of the entries, each of which may be an error.\<close>

record 'f os_fs =
  os_current_dir :: "'f \<Rightarrow> string + path"
  os_canonicalize :: "path \<Rightarrow> 'f \<Rightarrow> string + path"
  os_stat :: "path \<Rightarrow> 'f \<Rightarrow> string + os_metadata"
  os_create_dir_all :: "path \<Rightarrow> 'f \<Rightarrow> (string + unit) \<times> 'f"
  os_create :: "path \<Rightarrow> 'f \<Rightarrow> (string + unit) \<times> 'f"
  os_open :: "path \<Rightarrow> 'f \<Rightarrow> string + unit"
  os_open_append :: "path \<Rightarrow> 'f \<Rightarrow> (string + unit) \<times> 'f"
  os_read_to_end :: "path \<Rightarrow> 'f \<Rightarrow> string + bytes"
  os_seek :: "path \<Rightarrow> u64 \<Rightarrow> 'f \<Rightarrow> string + unit"
  os_read :: "path \<Rightarrow> u64 \<Rightarrow> usize \<Rightarrow> 'f \<Rightarrow> string + bytes"
  os_write_all :: "path \<Rightarrow> bytes \<Rightarrow> 'f \<Rightarrow> (string + unit) \<times> 'f"
  os_append_all :: "path \<Rightarrow> bytes \<Rightarrow> 'f \<Rightarrow> (string + unit) \<times> 'f"
  os_sync_all :: "path \<Rightarrow> 'f \<Rightarrow> (string + unit) \<times> 'f"
  os_remove_file :: "path \<Rightarrow> 'f \<Rightarrow> (string + unit) \<times> 'f"
  os_read_dir :: "path \<Rightarrow> 'f \<Rightarrow> string + (string + string) list"
  os_remove_dir :: "path \<Rightarrow> 'f \<Rightarrow> (string + unit) \<times> 'f"

subsection \<open>Metadata\<close>

record file_metadata =
  fm_name :: string
  fm_size :: u64
  fm_is_directory :: bool
  fm_modified_time :: u64
  fm_permissions :: u32

definition file_error :: "string \<Rightarrow> string \<Rightarrow> fenris_error" where
  "file_error what e = FileOperationError (what @ '': '' @ e)"

definition os_do :: "string \<Rightarrow> ('f \<Rightarrow> (string + unit) \<times> 'f) \<Rightarrow> ('f, unit) action" where
  "os_do what act f = (let (x, f') = act f in (ok_or_err (file_error what) x, f'))"

definition os_ask :: "string \<Rightarrow> ('f \<Rightarrow> string + 'a) \<Rightarrow> ('f, 'a) action" where
  "os_ask what act f = (ok_or_err (file_error what) (act f), f)"

definition from_path :: "'f os_fs \<Rightarrow> path \<Rightarrow> ('f, file_metadata) action" where
  "from_path F p =
     state_bind (os_ask ''Failed to get metadata'' (os_stat F p)) (\<lambda>m.
     state_return
       \<lparr>fm_name = (case file_name p of None \<Rightarrow> '''' | Some n \<Rightarrow> if utf8_valid n then n else ''''),
        fm_size = om_len m, fm_is_directory = om_is_dir m,
        fm_modified_time = (case om_modified m of None \<Rightarrow> 0 | Some t \<Rightarrow> t),
        fm_permissions = om_mode m\<rparr>)"

definition metadata_from_file :: "file_metadata \<Rightarrow> fenris_metadata" where
  "metadata_from_file m =
     \<lparr>md_name = fm_name m, md_size = fm_size m, md_is_namespace = fm_is_directory m,
      md_modified_time = fm_modified_time m, md_permissions = fm_permissions m\<rparr>"

subsection \<open>DefaultFileOperations\<close>

record file_operations =
  fo_base_dir :: path

definition file_operations_new :: "'f os_fs \<Rightarrow> path \<Rightarrow> 'f \<Rightarrow> file_operations" where
  "file_operations_new F base f =
     \<lparr>fo_base_dir = (case os_canonicalize F base f of Inr q \<Rightarrow> q | Inl e \<Rightarrow> base)\<rparr>"

definition with_current_dir :: "'f os_fs \<Rightarrow> 'f \<Rightarrow> file_operations res" where
  "with_current_dir F f =
     res_map (\<lambda>d. \<lparr>fo_base_dir = d\<rparr>) (ok_or_err (file_error ''Failed to get current dir'') (os_current_dir F f))"

definition canonicalize_parent :: "'f os_fs \<Rightarrow> path \<Rightarrow> 'f \<Rightarrow> path res" where
  "canonicalize_parent F full_path f =
     (case parent full_path of
        Some q \<Rightarrow>
          (case os_canonicalize F q f of
             Inr canonical_parent \<Rightarrow>
               (case file_name full_path of
                  Some filename \<Rightarrow> Ok (join canonical_parent filename)
                | None \<Rightarrow> Err (FileOperationError ''Invalid path''))
           | Inl e \<Rightarrow> Err (FileOperationError ''Invalid path''))
      | None \<Rightarrow> Err (FileOperationError ''Invalid path''))"

definition fo_resolve_path :: "'f os_fs \<Rightarrow> file_operations \<Rightarrow> path \<Rightarrow> ('f, path) action" where
  "fo_resolve_path F ops p f =
     (let p' = (case strip_root p of None \<Rightarrow> p | Some q \<Rightarrow> q);
          full_path = join (fo_base_dir ops) p' in
      (res_bind
         (case os_canonicalize F full_path f of
            Inr q \<Rightarrow> Ok q
          | Inl e \<Rightarrow> canonicalize_parent F full_path f)
         (\<lambda>canonical.
            if \<not> starts_with canonical (fo_base_dir ops)
            then Err (FileOperationError ''Path outside base directory'')
            else Ok canonical), f))"

definition make_parents :: "'f os_fs \<Rightarrow> path \<Rightarrow> ('f, unit) action" where
  "make_parents F full_path =
     (case parent full_path of
        Some q \<Rightarrow> os_do ''Failed to create parent dirs'' (os_create_dir_all F q)
      | None \<Rightarrow> state_return ())"

definition create_file :: "'f os_fs \<Rightarrow> file_operations \<Rightarrow> path \<Rightarrow> ('f, unit) action" where
  "create_file F ops p =
     state_bind (fo_resolve_path F ops p) (\<lambda>full_path.
     state_bind (make_parents F full_path) (\<lambda>_.
     os_do ''Failed to create file'' (os_create F full_path)))"

definition read_file :: "'f os_fs \<Rightarrow> file_operations \<Rightarrow> path \<Rightarrow> ('f, bytes) action" where
  "read_file F ops p =
     state_bind (fo_resolve_path F ops p) (\<lambda>full_path.
     state_bind (os_ask ''Failed to open file'' (os_open F full_path)) (\<lambda>_.
     os_ask ''Failed to read file'' (os_read_to_end F full_path)))"

definition write_file :: "'f os_fs \<Rightarrow> file_operations \<Rightarrow> path \<Rightarrow> bytes \<Rightarrow> ('f, unit) action" where
  "write_file F ops p d =
     state_bind (fo_resolve_path F ops p) (\<lambda>full_path.
     state_bind (make_parents F full_path) (\<lambda>_.
     state_bind (os_do ''Failed to create file'' (os_create F full_path)) (\<lambda>_.
     state_bind (os_do ''Failed to write file'' (os_write_all F full_path d)) (\<lambda>_.
     os_do ''Failed to sync file'' (os_sync_all F full_path)))))"

definition append_file :: "'f os_fs \<Rightarrow> file_operations \<Rightarrow> path \<Rightarrow> bytes \<Rightarrow> ('f, unit) action" where
  "append_file F ops p d =
     state_bind (fo_resolve_path F ops p) (\<lambda>full_path.
     state_bind (os_do ''Failed to open file for append'' (os_open_append F full_path)) (\<lambda>_.
     state_bind (os_do ''Failed to append to file'' (os_append_all F full_path d)) (\<lambda>_.
     os_do ''Failed to sync file'' (os_sync_all F full_path))))"

definition delete_file :: "'f os_fs \<Rightarrow> file_operations \<Rightarrow> path \<Rightarrow> ('f, unit) action" where
  "delete_file F ops p =
     state_bind (fo_resolve_path F ops p) (\<lambda>full_path.
     os_do ''Failed to delete file'' (os_remove_file F full_path))"

definition file_info_op :: "'f os_fs \<Rightarrow> file_operations \<Rightarrow> path \<Rightarrow> ('f, file_metadata) action" where
  "file_info_op F ops p = state_bind (fo_resolve_path F ops p) (from_path F)"

definition create_dir :: "'f os_fs \<Rightarrow> file_operations \<Rightarrow> path \<Rightarrow> ('f, unit) action" where
  "create_dir F ops p =
     state_bind (fo_resolve_path F ops p) (\<lambda>full_path.
     os_do ''Failed to create directory'' (os_create_dir_all F full_path))"

text \<open>The loop over the directory: an entry that cannot be read ends it with an error, an
  entry without metadata is left out.\<close>

fun list_loop ::
  "'f os_fs \<Rightarrow> path \<Rightarrow> (string + string) list \<Rightarrow> file_metadata list \<Rightarrow> ('f, file_metadata list) action" where
  "list_loop F dir [] entries f = (Ok entries, f)"
| "list_loop F dir (Inl e # es) entries f = (Err (file_error ''Failed to read entry'' e), f)"
| "list_loop F dir (Inr n # es) entries f =
     (case from_path F (join dir n) f of
        (Ok m, f') \<Rightarrow> list_loop F dir es (entries @ [m]) f'
      | (Err e, f') \<Rightarrow> list_loop F dir es entries f'
      | (Panic, f') \<Rightarrow> (Panic, f'))"

definition list_dir :: "'f os_fs \<Rightarrow> file_operations \<Rightarrow> path \<Rightarrow> ('f, file_metadata list) action" where
  "list_dir F ops p =
     state_bind (fo_resolve_path F ops p) (\<lambda>full_path.
     state_bind (os_ask ''Failed to read directory'' (os_read_dir F full_path)) (\<lambda>es.
     list_loop F full_path es []))"

definition delete_dir :: "'f os_fs \<Rightarrow> file_operations \<Rightarrow> path \<Rightarrow> ('f, unit) action" where
  "delete_dir F ops p =
     state_bind (fo_resolve_path F ops p) (\<lambda>full_path.
     os_do ''Failed to delete directory'' (os_remove_dir F full_path))"

definition fo_stat :: "'f os_fs \<Rightarrow> file_operations \<Rightarrow> path \<Rightarrow> 'f \<Rightarrow> os_metadata option" where
  "fo_stat F ops p f =
     (case fst (fo_resolve_path F ops p f) of
        Ok full_path \<Rightarrow> (case os_stat F full_path f of Inr m \<Rightarrow> Some m | Inl e \<Rightarrow> None)
      | _ \<Rightarrow> None)"

definition fo_exists :: "'f os_fs \<Rightarrow> file_operations \<Rightarrow> path \<Rightarrow> 'f \<Rightarrow> bool" where
  "fo_exists F ops p f = (fo_stat F ops p f \<noteq> None)"

definition is_dir :: "'f os_fs \<Rightarrow> file_operations \<Rightarrow> path \<Rightarrow> 'f \<Rightarrow> bool" where
  "is_dir F ops p f = (case fo_stat F ops p f of Some m \<Rightarrow> om_is_dir m | None \<Rightarrow> False)"

definition is_file :: "'f os_fs \<Rightarrow> file_operations \<Rightarrow> path \<Rightarrow> 'f \<Rightarrow> bool" where
  "is_file F ops p f = (case fo_stat F ops p f of Some m \<Rightarrow> om_is_file m | None \<Rightarrow> False)"

subsection \<open>TokioFsStorage\<close>

definition read_file_chunk :: "'f os_fs \<Rightarrow> path \<Rightarrow> u64 \<Rightarrow> usize \<Rightarrow> ('f, object_chunk) action" where
  "read_file_chunk F p offset max_len =
     (if max_len = 0
      then state_lift (Err (InvalidRequest ''chunk length must be greater than zero''))
      else
        state_bind (os_ask ''Failed to open file'' (os_open F p)) (\<lambda>_.
        state_bind (os_ask ''Failed to get metadata'' (os_stat F p)) (\<lambda>m.
          let total_size = om_len m in
          if total_size \<le> offset
          then state_return \<lparr>oc_offset = offset, oc_data = [], oc_is_last = True, oc_total_size = total_size\<rparr>
          else
            state_bind (os_ask ''Failed to seek file'' (os_seek F p offset)) (\<lambda>_.
            let remaining = unat (total_size - offset) in
            state_bind (os_ask ''Failed to read file'' (os_read F p offset (min remaining max_len))) (\<lambda>data.
            state_return
              \<lparr>oc_offset = offset, oc_data = data, oc_is_last = (total_size \<le> offset + len_u64 data),
               oc_total_size = total_size\<rparr>)))))"

record tokio_fs_storage =
  tf_file_ops :: file_operations

definition tokio_fs_storage_new :: "'f os_fs \<Rightarrow> path \<Rightarrow> 'f \<Rightarrow> tokio_fs_storage" where
  "tokio_fs_storage_new F base f = \<lparr>tf_file_ops = file_operations_new F base f\<rparr>"

definition tokio_backend :: "'f os_fs \<Rightarrow> tokio_fs_storage \<Rightarrow> 'f storage_backend" where
  "tokio_backend F t =
     \<lparr>put_object = write_file F (tf_file_ops t),
      get_object = read_file F (tf_file_ops t),
      get_object_chunk = (\<lambda>p offset max_len.
        state_bind (fo_resolve_path F (tf_file_ops t) p) (\<lambda>q. read_file_chunk F q offset max_len)),
      append_object = append_file F (tf_file_ops t),
      delete_object = delete_file F (tf_file_ops t),
      metadata = (\<lambda>p. state_bind (file_info_op F (tf_file_ops t) p) (\<lambda>m. state_return (metadata_from_file m))),
      create_namespace = create_dir F (tf_file_ops t),
      list_namespace = (\<lambda>p. state_bind (list_dir F (tf_file_ops t) p) (\<lambda>ms.
        state_return (map metadata_from_file ms))),
      delete_namespace = delete_dir F (tf_file_ops t),
      exists = fo_exists F (tf_file_ops t),
      is_namespace = is_dir F (tf_file_ops t),
      is_object = is_file F (tf_file_ops t)\<rparr>"

subsection \<open>Confinement to the base directory\<close>

text \<open>What \<open>realpath\<close> promises: an absolute path without \<open>.\<close>, \<open>..\<close> and empty segments.  A
  directory entry's name is one proper segment.\<close>

definition os_canonical :: "'f os_fs \<Rightarrow> bool" where
  "os_canonical F \<longleftrightarrow>
     (\<forall>p f q. os_canonicalize F p f = Inr q \<longrightarrow> canonical q) \<and>
     (\<forall>p f es n. os_read_dir F p f = Inr es \<longrightarrow> Inr n \<in> set es \<longrightarrow> name_ok n)"

text \<open>A path inside the base directory: below it name by name, no way back up.\<close>

definition inside :: "path \<Rightarrow> path \<Rightarrow> bool" where
  "inside base q \<longleftrightarrow> (\<exists>ns ms. names_ok ns \<and> names_ok ms \<and> base = abs_path ns \<and> q = abs_path (ns @ ms))"

text \<open>Two file systems that behave alike inside the base directory (and resolve names
  alike); above it they agree only on making sure that the base's own parent exists.\<close>

definition same_inside :: "path \<Rightarrow> 'f os_fs \<Rightarrow> 'f os_fs \<Rightarrow> bool" where
  "same_inside base F G \<longleftrightarrow>
     os_canonicalize F = os_canonicalize G \<and>
     (\<forall>q. parent base = Some q \<longrightarrow> os_create_dir_all F q = os_create_dir_all G q) \<and>
     (\<forall>q. inside base q \<longrightarrow>
        os_stat F q = os_stat G q \<and> os_create_dir_all F q = os_create_dir_all G q \<and>
        os_create F q = os_create G q \<and> os_open F q = os_open G q \<and>
        os_open_append F q = os_open_append G q \<and> os_read_to_end F q = os_read_to_end G q \<and>
        os_seek F q = os_seek G q \<and> os_read F q = os_read G q \<and>
        os_write_all F q = os_write_all G q \<and> os_append_all F q = os_append_all G q \<and>
        os_sync_all F q = os_sync_all G q \<and> os_remove_file F q = os_remove_file G q \<and>
        os_read_dir F q = os_read_dir G q \<and> os_remove_dir F q = os_remove_dir G q)"

lemma state_bind_cong_Ok:
  "m s = m' s \<Longrightarrow> (\<And>x s'. m s = (Ok x, s') \<Longrightarrow> f x s' = g x s') \<Longrightarrow> state_bind m f s = state_bind m' g s"
  by (auto simp: state_bind_def split: prod.splits res.splits)

lemma file_name_name_ok: "file_name p = Some n \<Longrightarrow> name_ok n"
proof -
  assume "file_name p = Some n"
  then obtain cs where "rev (components p) = Normal n # cs"
    by (auto simp: file_name_def split: list.splits component.splits)
  then have "Normal n \<in> set (rev (components p))" by simp
  then show ?thesis by (intro Normal_name_ok [of n p]) simp
qed

lemma fo_resolve_canonical:
  assumes "os_canonical F" "fo_resolve_path F ops p f = (Ok q, f')"
  shows "canonical q \<and> starts_with q (fo_base_dir ops) \<and> f' = f"
proof -
  define full where "full = join (fo_base_dir ops) (case strip_root p of None \<Rightarrow> p | Some q \<Rightarrow> q)"
  have q: "os_canonicalize F full f = Inr q \<or> canonicalize_parent F full f = Ok q"
    and st: "starts_with q (fo_base_dir ops)" and f': "f' = f"
    using assms(2) unfolding fo_resolve_path_def Let_def full_def [symmetric]
    by (auto simp: res_bind_eq_Ok split: if_splits sum.splits)
  from q have "canonical q"
  proof
    assume "canonicalize_parent F full f = Ok q"
    then obtain r cp n where "os_canonicalize F r f = Inr cp" "file_name full = Some n" "q = join cp n"
      by (auto simp: canonicalize_parent_def split: option.splits sum.splits)
    moreover from this(1) assms(1) have "canonical cp" by (auto simp: os_canonical_def)
    ultimately show ?thesis
      by (auto simp: join_def dest: file_name_name_ok elim!: canonicalE)
  qed (use assms(1) in \<open>auto simp: os_canonical_def\<close>)
  with st f' show ?thesis by simp
qed

lemma fo_resolve_inside:
  assumes "os_canonical F" "canonical (fo_base_dir ops)" "fo_resolve_path F ops p f = (Ok q, f')"
  shows "inside (fo_base_dir ops) q \<and> f' = f"
proof -
  note q = fo_resolve_canonical [OF assms(1,3)]
  with assms(2) obtain ns ms where "names_ok ns" "names_ok ms" "fo_base_dir ops = abs_path ns" "q = abs_path ms"
    "\<exists>ks. ms = ns @ ks"
    by (auto elim!: canonicalE)
  then show ?thesis using q unfolding inside_def by (metis names_ok_simps(3))
qed

text \<open>No canonical path is below a relative base directory, so with such a base every
  operation is refused.\<close>

definition refuses :: "('f, 'a) action \<Rightarrow> 'f \<Rightarrow> bool" where
  "refuses op f \<longleftrightarrow> (\<exists>e. op f = (Err e, f))"

lemma refuses_bind: "refuses op f \<Longrightarrow> refuses (state_bind op k) f"
  by (auto simp: refuses_def)

lemma fo_resolve_relative:
  assumes "os_canonical F" "\<not> is_absolute (fo_base_dir ops)" "components (fo_base_dir ops) \<noteq> []"
  shows "refuses (fo_resolve_path F ops p) f"
proof -
  obtain r f' where run: "fo_resolve_path F ops p f = (r, f')" by fastforce
  then have f': "f' = f" and "r \<noteq> Panic"
    by (auto simp: fo_resolve_path_def Let_def canonicalize_parent_def split: sum.splits option.splits if_splits)
  moreover have "r \<noteq> Ok q" for q
  proof
    assume "r = Ok q"
    then have "canonical q" "starts_with q (fo_base_dir ops)"
      using fo_resolve_canonical [OF assms(1)] run by auto
    then have "hd (components (fo_base_dir ops)) = RootDir"
      using assms(3) by (auto simp: starts_with_def starts_with_comps_append components_absolute hd_append dest!: arg_cong [of _ _ hd] elim!: canonicalE)
    moreover have "RootDir \<notin> set (components (fo_base_dir ops))"
      using assms(2) by (auto simp: components_def head_components_def split: if_splits)
    ultimately show False using assms(3) by (metis hd_in_set)
  qed
  ultimately show ?thesis using run by (cases r) (auto simp: refuses_def)
qed

text \<open>A storage that is in a state in which it refuses everything and finds nothing.\<close>

definition refuses_all :: "'f storage_backend \<Rightarrow> 'f \<Rightarrow> bool" where
  "refuses_all B f \<longleftrightarrow> (\<forall>p.
     (\<forall>d. refuses (put_object B p d) f \<and> refuses (append_object B p d) f) \<and>
     refuses (get_object B p) f \<and> (\<forall>off n. refuses (get_object_chunk B p off n) f) \<and>
     refuses (delete_object B p) f \<and> refuses (metadata B p) f \<and> refuses (create_namespace B p) f \<and>
     refuses (list_namespace B p) f \<and> refuses (delete_namespace B p) f \<and>
     \<not> exists B p f \<and> \<not> is_namespace B p f \<and> \<not> is_object B p f)"

lemma tokio_relative_refuses:
  assumes "os_canonical F" "\<not> is_absolute (fo_base_dir (tf_file_ops t))" "components (fo_base_dir (tf_file_ops t)) \<noteq> []"
  shows "refuses_all (tokio_backend F t) f"
proof -
  have none: "\<not> fo_exists F (tf_file_ops t) p f" "\<not> is_dir F (tf_file_ops t) p f" "\<not> is_file F (tf_file_ops t) p f" for p
    using fo_resolve_relative [OF assms, of p f]
    by (auto simp: refuses_def fo_exists_def is_dir_def is_file_def fo_stat_def)
  show ?thesis
    unfolding refuses_all_def
    by (auto simp: tokio_backend_def write_file_def read_file_def append_file_def delete_file_def create_dir_def
        delete_dir_def file_info_op_def list_dir_def none intro!: refuses_bind fo_resolve_relative [OF assms])
qed

lemma fo_resolve_same:
  assumes "os_canonicalize F = os_canonicalize G"
  shows "fo_resolve_path F ops p = fo_resolve_path G ops p"
proof -
  have par: "canonicalize_parent F x f = canonicalize_parent G x f" for x f
    unfolding canonicalize_parent_def assms by simp
  show ?thesis unfolding fun_eq_iff fo_resolve_path_def assms par by simp
qed

lemma inside_parent:
  assumes "inside base q" "parent q = Some r"
  shows "inside base r \<or> parent base = Some r"
proof -
  obtain ns ms where q: "names_ok ns" "names_ok ms" "base = abs_path ns" "q = abs_path (ns @ ms)"
    using assms(1) by (auto simp: inside_def)
  show ?thesis
  proof (cases ms rule: rev_cases)
    case Nil
    with q assms(2) show ?thesis by simp
  next
    case (snoc ks k)
    with q have "parent q = Some (abs_path (ns @ ks))"
      using parent_abs_path_snoc [of "ns @ ks" k] by simp
    with q snoc assms(2) show ?thesis by (auto simp: inside_def)
  qed
qed

lemma inside_join: "inside base q \<Longrightarrow> name_ok n \<Longrightarrow> inside base (join q n)"
  unfolding inside_def join_def
  by (metis append.assoc names_ok_simps push_abs_path)

lemma same_insideD:
  assumes "same_inside base F G"
  shows "os_canonicalize F = os_canonicalize G"
    and "parent base = Some q \<Longrightarrow> os_create_dir_all F q = os_create_dir_all G q"
    and "inside base q \<Longrightarrow> os_stat F q = os_stat G q"
    and "inside base q \<Longrightarrow> os_create_dir_all F q = os_create_dir_all G q"
    and "inside base q \<Longrightarrow> os_create F q = os_create G q"
    and "inside base q \<Longrightarrow> os_open F q = os_open G q"
    and "inside base q \<Longrightarrow> os_open_append F q = os_open_append G q"
    and "inside base q \<Longrightarrow> os_read_to_end F q = os_read_to_end G q"
    and "inside base q \<Longrightarrow> os_seek F q = os_seek G q"
    and "inside base q \<Longrightarrow> os_read F q = os_read G q"
    and "inside base q \<Longrightarrow> os_write_all F q = os_write_all G q"
    and "inside base q \<Longrightarrow> os_append_all F q = os_append_all G q"
    and "inside base q \<Longrightarrow> os_sync_all F q = os_sync_all G q"
    and "inside base q \<Longrightarrow> os_remove_file F q = os_remove_file G q"
    and "inside base q \<Longrightarrow> os_read_dir F q = os_read_dir G q"
    and "inside base q \<Longrightarrow> os_remove_dir F q = os_remove_dir G q"
  using assms by (simp_all add: same_inside_def)

lemma make_parents_same:
  "same_inside base F G \<Longrightarrow> inside base q \<Longrightarrow> make_parents F q = make_parents G q"
  using inside_parent [of base q]
  by (auto simp: make_parents_def same_insideD(2,4) split: option.splits)

lemma from_path_same: "os_stat F q = os_stat G q \<Longrightarrow> from_path F q = from_path G q"
  by (simp add: from_path_def)

lemma list_loop_same:
  assumes "same_inside base F G" "inside base dir"
  shows "(\<And>n. Inr n \<in> set es \<Longrightarrow> name_ok n) \<Longrightarrow> list_loop F dir es acc f = list_loop G dir es acc f"
proof (induction es arbitrary: acc f)
  case (Cons e es)
  show ?case
  proof (cases e)
    case (Inr n)
    with Cons.prems have "name_ok n" by simp
    with assms have "from_path F (join dir n) = from_path G (join dir n)"
      by (intro from_path_same same_insideD(3) [OF assms(1)] inside_join)
    with Inr Cons show ?thesis by (simp split: prod.split res.split)
  qed simp
qed simp

lemma resolve_then:
  assumes "same_inside (fo_base_dir ops) F G" "os_canonical F" "canonical (fo_base_dir ops)"
    and "\<And>q f. inside (fo_base_dir ops) q \<Longrightarrow> h F q f = h G q f"
  shows "state_bind (fo_resolve_path F ops p) (h F) = state_bind (fo_resolve_path G ops p) (h G)"
proof
  fix f
  show "state_bind (fo_resolve_path F ops p) (h F) f = state_bind (fo_resolve_path G ops p) (h G) f"
    using fo_resolve_same [OF same_insideD(1) [OF assms(1)], of ops p] fo_resolve_inside [OF assms(2,3), of p f] assms(4)
    by (intro state_bind_cong_Ok) auto
qed

lemma tokio_confined:
  assumes "same_inside (fo_base_dir (tf_file_ops t)) F G" "os_canonical F" "canonical (fo_base_dir (tf_file_ops t))"
  shows "tokio_backend F t = tokio_backend G t"
proof -
  let ?ops = "tf_file_ops t"
  note eqs = same_insideD [OF assms(1)] and rt = resolve_then [OF assms]
  have "write_file F ?ops = write_file G ?ops"
    unfolding write_file_def fun_eq_iff
    by (intro allI fun_cong [OF rt])
      (simp add: make_parents_same [OF assms(1)] eqs)
  moreover have "read_file F ?ops = read_file G ?ops"
    unfolding read_file_def fun_eq_iff by (intro allI fun_cong [OF rt]) (simp add: eqs)
  moreover have "append_file F ?ops = append_file G ?ops"
    unfolding append_file_def fun_eq_iff by (intro allI fun_cong [OF rt]) (simp add: eqs)
  moreover have "delete_file F ?ops = delete_file G ?ops"
    unfolding delete_file_def fun_eq_iff by (intro allI fun_cong [OF rt]) (simp add: eqs)
  moreover have "create_dir F ?ops = create_dir G ?ops"
    unfolding create_dir_def fun_eq_iff by (intro allI fun_cong [OF rt]) (simp add: eqs)
  moreover have "delete_dir F ?ops = delete_dir G ?ops"
    unfolding delete_dir_def fun_eq_iff by (intro allI fun_cong [OF rt]) (simp add: eqs)
  moreover have "file_info_op F ?ops = file_info_op G ?ops"
    unfolding file_info_op_def fun_eq_iff
    by (intro allI fun_cong [OF rt]) (simp add: from_path_same [OF eqs(3)])
  moreover have "state_bind (fo_resolve_path F ?ops p) (\<lambda>q. read_file_chunk F q off n) =
      state_bind (fo_resolve_path G ?ops p) (\<lambda>q. read_file_chunk G q off n)" for p off n
    by (rule rt) (simp add: read_file_chunk_def eqs Let_def cong: if_cong)
  moreover have "list_dir F ?ops = list_dir G ?ops"
    unfolding list_dir_def fun_eq_iff
  proof (intro allI fun_cong [OF rt])
    fix q f
    assume q: "inside (fo_base_dir ?ops) q"
    show "state_bind (os_ask ''Failed to read directory'' (os_read_dir F q)) (\<lambda>es. list_loop F q es []) f =
        state_bind (os_ask ''Failed to read directory'' (os_read_dir G q)) (\<lambda>es. list_loop G q es []) f"
    proof (intro state_bind_cong_Ok list_loop_same [OF assms(1) q])
      fix es f' n
      assume "os_ask ''Failed to read directory'' (os_read_dir F q) f = (Ok es, f')" "Inr n \<in> set es"
      with assms(2) show "name_ok n" by (auto simp: os_ask_def os_canonical_def ok_or_err_eq_Ok)
    qed (simp add: eqs(15) [OF q])
  qed
  moreover have stat: "fo_stat F ?ops p f = fo_stat G ?ops p f" for p f
    using fo_resolve_inside [OF assms(2,3), of p f] fo_resolve_same [OF eqs(1), of ?ops p]
    by (cases "fo_resolve_path G ?ops p f") (auto simp: fo_stat_def eqs(3) split: res.splits)
  moreover from stat have "fo_exists F ?ops = fo_exists G ?ops" "is_dir F ?ops = is_dir G ?ops"
    "is_file F ?ops = is_file G ?ops"
    by (simp_all add: fo_exists_def is_dir_def is_file_def fun_eq_iff)
  ultimately show ?thesis
    by (simp add: tokio_backend_def)
qed

subsection \<open>Chunks of a file\<close>

text \<open>A file with contents \<open>d\<close>: a read at an offset inside it returns some of the bytes
  there, at least one and at most as many as asked for.\<close>

definition reads_file :: "'f os_fs \<Rightarrow> path \<Rightarrow> 'f \<Rightarrow> bytes \<Rightarrow> bool" where
  "reads_file F q f d \<longleftrightarrow>
     os_open F q f = Inr () \<and> (\<exists>m. os_stat F q f = Inr m \<and> om_len m = len_u64 d) \<and>
     (\<forall>off n. unat off < length d \<longrightarrow> 0 < n \<longrightarrow> os_seek F q off f = Inr () \<and>
        (\<exists>k. 0 < k \<and> k \<le> n \<and> os_read F q off n f = Inr (take k (drop (unat off) d))))"

lemma read_file_chunk_ok:
  assumes "reads_file F q f d" "vec_ok d" "0 < n"
  shows "\<exists>c. read_file_chunk F q off n f = (Ok c, f) \<and> chunk_of d off n c"
proof -
  obtain m where m: "os_open F q f = Inr ()" "os_stat F q f = Inr m" "om_len m = len_u64 d"
    using assms(1) by (auto simp: reads_file_def)
  show ?thesis
  proof (cases "len_u64 d \<le> off")
    case True
    then have "length d \<le> unat off" using assms(2) by (simp add: word_le_nat_alt)
    with True m assms(3) show ?thesis
      by (auto simp: read_file_chunk_def os_ask_def chunk_of_def)
  next
    case False
    then have lt: "unat off < length d" using assms(2) by (simp add: word_le_nat_alt)
    have rem: "unat (len_u64 d - off) = length d - unat off"
      using False assms(2) by (subst unat_sub) simp_all
    with lt assms(3) have "0 < min (unat (len_u64 d - off)) n" by simp
    with lt assms(1) obtain k where k: "0 < k" "k \<le> min (unat (len_u64 d - off)) n"
      "os_read F q off (min (unat (len_u64 d - off)) n) f = Inr (take k (drop (unat off) d))"
      "os_seek F q off f = Inr ()"
      unfolding reads_file_def by blast
    let ?data = "take k (drop (unat off) d)"
    have len: "length ?data = k" using k(2) rem by simp
    have "vec_ok ?data" using assms(2) by (intro vec_ok_take vec_ok_drop)
    then have "unat (len_u64 ?data) = k" using len by simp
    moreover have "k \<le> length d - unat off" using k(2) rem by simp
    with lt have "unat off + k \<le> length d" by linarith
    then have "unat off + k < 2 ^ 64" using assms(2) by (simp add: vec_ok_def)
    ultimately have "unat (off + len_u64 ?data) = unat off + k"
      by (simp add: unat_word_ariths)
    then have last: "len_u64 d \<le> off + len_u64 ?data \<longleftrightarrow> length d \<le> unat off + k"
      using assms(2) by (simp add: word_le_nat_alt)
    with False m k len assms(3) lt show ?thesis
      by (auto simp: read_file_chunk_def os_ask_def chunk_of_def Let_def)
  qed
qed

end
