(* ===== verification/Request_Handler.thy ===== *)
theory Request_Handler
  imports Storage Memory_Storage
begin

section \<open>The request handler (server/src/request_handler.rs)\<close>

text \<open>
  The handler is generic in the storage backend, so every definition takes the record
  \<open>B\<close>.  A command acts on the storage state and the connection's current directory.  The
  lemmas about commands are proved once in the context of \<open>storage_contract\<close> and hold for
  every backend that meets it; at the end of the theory they are read off for the
  in-memory backend.
\<close>

record active_write_transfer =
  aw_path :: path
  aw_expected_offset :: u64
  aw_total_size :: u64

type_synonym 's workspace = "'s \<times> path"

definition on_storage :: "('s, 'a) action \<Rightarrow> ('s workspace, 'a) action" where
  "on_storage act = (\<lambda>(s, dir). let (x, s') = act s in (x, (s', dir)))"

definition resolve_path :: "path \<Rightarrow> path \<Rightarrow> path" where
  "resolve_path p current_dir =
     (if p = [] \<or> path_eq p ''.'' then current_dir
      else if is_absolute p then p
      else join current_dir p)"

definition handle_create_object :: "'s storage_backend \<Rightarrow> path \<Rightarrow> path \<Rightarrow> ('s, fenris_output) action" where
  "handle_create_object B p current_dir =
     (let q = resolve_path p current_dir in
      state_bind (put_object B q []) (\<lambda>_.
      state_return (Success (''File created: '' @ to_string_lossy q))))"

definition handle_read_object :: "'s storage_backend \<Rightarrow> path \<Rightarrow> path \<Rightarrow> ('s, fenris_output) action" where
  "handle_read_object B p current_dir =
     (let q = resolve_path p current_dir in
      state_bind (get_object B q) (\<lambda>d.
      state_return (ObjectContent d (len_u64 d) False)))"

definition handle_write_object ::
  "'s storage_backend \<Rightarrow> path \<Rightarrow> bytes \<Rightarrow> path \<Rightarrow> ('s, fenris_output) action" where
  "handle_write_object B p d current_dir =
     (let q = resolve_path p current_dir in
      state_bind (put_object B q d) (\<lambda>_.
      state_return (Success (''File written: '' @ show_nat (length d) @ '' bytes''))))"

definition handle_append_object ::
  "'s storage_backend \<Rightarrow> path \<Rightarrow> bytes \<Rightarrow> path \<Rightarrow> ('s, fenris_output) action" where
  "handle_append_object B p d current_dir =
     (let q = resolve_path p current_dir in
      state_bind (append_object B q d) (\<lambda>_.
      state_return (Success (''Appended '' @ show_nat (length d) @ '' bytes to '' @ to_string_lossy q))))"

definition handle_delete_object :: "'s storage_backend \<Rightarrow> path \<Rightarrow> path \<Rightarrow> ('s, fenris_output) action" where
  "handle_delete_object B p current_dir =
     (let q = resolve_path p current_dir in
      state_bind (delete_object B q) (\<lambda>_.
      state_return (Success (''File deleted: '' @ to_string_lossy q))))"

definition handle_upload_object ::
  "'s storage_backend \<Rightarrow> path \<Rightarrow> bytes \<Rightarrow> path \<Rightarrow> ('s, fenris_output) action" where
  "handle_upload_object B p d current_dir =
     (let q = resolve_path p current_dir in
      state_bind (put_object B q d) (\<lambda>_.
      state_return (Success (''Uploaded '' @ show_nat (length d) @ '' bytes to '' @ to_string_lossy q))))"

definition handle_object_info :: "'s storage_backend \<Rightarrow> path \<Rightarrow> path \<Rightarrow> ('s, fenris_output) action" where
  "handle_object_info B p current_dir =
     state_bind (metadata B (resolve_path p current_dir)) (\<lambda>m. state_return (ObjectInfoOutput m))"

definition handle_create_namespace :: "'s storage_backend \<Rightarrow> path \<Rightarrow> path \<Rightarrow> ('s, fenris_output) action" where
  "handle_create_namespace B p current_dir =
     (let q = resolve_path p current_dir in
      state_bind (create_namespace B q) (\<lambda>_.
      state_return (Success (''Directory created: '' @ to_string_lossy q))))"

definition handle_list_namespace :: "'s storage_backend \<Rightarrow> path \<Rightarrow> path \<Rightarrow> ('s, fenris_output) action" where
  "handle_list_namespace B p current_dir =
     state_bind (list_namespace B (resolve_path p current_dir)) (\<lambda>es. state_return (NamespaceListing es))"

definition handle_delete_namespace :: "'s storage_backend \<Rightarrow> path \<Rightarrow> path \<Rightarrow> ('s, fenris_output) action" where
  "handle_delete_namespace B p current_dir =
     (let q = resolve_path p current_dir in
      state_bind (delete_namespace B q) (\<lambda>_.
      state_return (Success (''Directory deleted: '' @ to_string_lossy q))))"

definition change_target :: "path \<Rightarrow> path \<Rightarrow> path" where
  "change_target p current_dir =
     (if p = [] \<or> path_eq p ''~'' then ''/''
      else if path_eq p ''.'' then current_dir
      else if path_eq p ''..'' then (case parent current_dir of None \<Rightarrow> ''/'' | Some q \<Rightarrow> q)
      else if is_absolute p then p
      else join current_dir p)"

definition handle_change_namespace :: "'s storage_backend \<Rightarrow> path \<Rightarrow> ('s workspace, fenris_output) action" where
  "handle_change_namespace B p = (\<lambda>(s, current_dir).
     let target = change_target p current_dir in
     if \<not> is_namespace B target s
     then (Err (FileOperationError ''Not a directory''), (s, current_dir))
     else (Ok (NamespaceChanged target), (s, target)))"

fun handle_command :: "'s storage_backend \<Rightarrow> fenris_command \<Rightarrow> ('s workspace, fenris_output) action" where
  "handle_command B Ping w = (Ok Pong, w)"
| "handle_command B (CreateObject p) w = on_storage (handle_create_object B p (snd w)) w"
| "handle_command B (ReadObject p) w = on_storage (handle_read_object B p (snd w)) w"
| "handle_command B (WriteObject p d) w = on_storage (handle_write_object B p d (snd w)) w"
| "handle_command B (AppendObject p d) w = on_storage (handle_append_object B p d (snd w)) w"
| "handle_command B (DeleteObject p) w = on_storage (handle_delete_object B p (snd w)) w"
| "handle_command B (UploadObject p d) w = on_storage (handle_upload_object B p d (snd w)) w"
| "handle_command B (BeginObjectWrite p m n) w =
     (Err (InvalidRequest ''chunked write must be handled by a connection''), w)"
| "handle_command B (WriteObjectChunk c) w =
     (Err (InvalidRequest ''chunked write must be handled by a connection''), w)"
| "handle_command B (ObjectInfo p) w = on_storage (handle_object_info B p (snd w)) w"
| "handle_command B (CreateNamespace p) w = on_storage (handle_create_namespace B p (snd w)) w"
| "handle_command B (ListNamespace p) w = on_storage (handle_list_namespace B p (snd w)) w"
| "handle_command B (ChangeNamespace p) w = handle_change_namespace B p w"
| "handle_command B (DeleteNamespace p) w = on_storage (handle_delete_namespace B p (snd w)) w"
| "handle_command B Terminate w = (Ok Terminated, w)"

text \<open>An error becomes an output; only a panic of the backend is passed on.\<close>

definition process_command :: "'s storage_backend \<Rightarrow> fenris_command \<Rightarrow> ('s workspace, fenris_output) action" where
  "process_command B c w =
     (case handle_command B c w of
        (Err e, w') \<Rightarrow> (Ok (ErrorOutput (error_to_string e)), w')
      | (Ok out, w') \<Rightarrow> (Ok out, w')
      | (Panic, w') \<Rightarrow> (Panic, w'))"

subsection \<open>Chunked transfers\<close>

definition begin_object_write ::
  "'s storage_backend \<Rightarrow> path \<Rightarrow> object_write_mode \<Rightarrow> u64 \<Rightarrow> path \<Rightarrow> ('s, active_write_transfer) action" where
  "begin_object_write B p mode total_size current_dir =
     (let q = resolve_path p current_dir in
      state_bind
        (case mode of Append \<Rightarrow> append_object B q [] | Write \<Rightarrow> put_object B q [] | Upload \<Rightarrow> put_object B q [])
        (\<lambda>_. state_return \<lparr>aw_path = q, aw_expected_offset = 0, aw_total_size = total_size\<rparr>))"

text \<open>The transfer is updated in place even when the last check fails; the caller keeps or
  drops it, so it is returned beside the result.\<close>

definition handler_write_object_chunk ::
  "'s storage_backend \<Rightarrow> active_write_transfer \<Rightarrow> transfer_chunk \<Rightarrow> usize \<Rightarrow> 's \<Rightarrow>
   fenris_output res \<times> active_write_transfer \<times> 's" where
  "handler_write_object_chunk B t c max_chunk_size s =
     (if max_chunk_size < length (tc_data c)
      then (Err (InvalidRequest (''chunk too large: max '' @ show_nat max_chunk_size @ '' bytes, got '' @
              show_nat (length (tc_data c)) @ '' bytes'')), t, s)
      else if tc_offset c \<noteq> aw_expected_offset t
      then (Err (InvalidRequest (''unexpected chunk offset: expected '' @ show_u64 (aw_expected_offset t) @
              '', got '' @ show_u64 (tc_offset c))), t, s)
      else if tc_total_size c \<noteq> aw_total_size t
      then (Err (InvalidRequest (''transfer size changed: expected '' @ show_u64 (aw_total_size t) @
              '', got '' @ show_u64 (tc_total_size c))), t, s)
      else
        (case append_object B (aw_path t) (tc_data c) s of
           (Err e, s') \<Rightarrow> (Err e, t, s')
         | (Panic, s') \<Rightarrow> (Panic, t, s')
         | (Ok _, s') \<Rightarrow>
             (let t' = t\<lparr>aw_expected_offset := aw_expected_offset t + len_u64 (tc_data c)\<rparr> in
              if tc_is_last c then
                if aw_expected_offset t' \<noteq> aw_total_size t'
                then (Err (InvalidRequest (''incomplete transfer: expected '' @ show_u64 (aw_total_size t') @
                        '' bytes, got '' @ show_u64 (aw_expected_offset t') @ '' bytes'')), t', s')
                else (Ok (Success (''Transfer complete: '' @ show_u64 (aw_total_size t') @ '' bytes'')), t', s')
              else (Ok (TransferProgress (aw_expected_offset t')), t', s'))))"

definition read_object_chunk ::
  "'s storage_backend \<Rightarrow> path \<Rightarrow> path \<Rightarrow> u64 \<Rightarrow> ('s, transfer_chunk) action" where
  "read_object_chunk B p current_dir offset =
     state_bind (get_object_chunk B (resolve_path p current_dir) offset DEFAULT_TRANSFER_CHUNK_SIZE) (\<lambda>c.
     state_return
       \<lparr>tc_offset = oc_offset c, tc_data = oc_data c, tc_is_last = oc_is_last c,
        tc_total_size = oc_total_size c\<rparr>)"

subsection \<open>Commands over any backend that meets the contract\<close>

lemma on_storage_apply: "on_storage act (s, dir) = (fst (act s), (snd (act s), dir))"
  by (simp add: on_storage_def split: prod.splits)

lemma process_command_Err:
  "handle_command B c w = (Err e, w') \<Longrightarrow> process_command B c w = (Ok (ErrorOutput (error_to_string e)), w')"
  by (simp add: process_command_def)

lemma process_command_Ok:
  "handle_command B c w = (Ok out, w') \<Longrightarrow> process_command B c w = (Ok out, w')"
  by (simp add: process_command_def)

text \<open>Only \<open>ChangeNamespace\<close> moves the current directory.\<close>

lemma process_command_dir:
  assumes "process_command B c (s, dir) = (r, (s', dir'))" "\<And>p. c \<noteq> ChangeNamespace p"
  shows "dir' = dir"
  using assms by (cases c) (auto simp: process_command_def on_storage_apply split: prod.splits res.splits)

text \<open>The outcome of one chunk that fits the transfer.\<close>

definition chunk_fits :: "active_write_transfer \<Rightarrow> transfer_chunk \<Rightarrow> usize \<Rightarrow> bool" where
  "chunk_fits t ch n \<longleftrightarrow> length (tc_data ch) \<le> n \<and> tc_offset ch = aw_expected_offset t \<and>
     tc_total_size ch = aw_total_size t"

definition advance :: "active_write_transfer \<Rightarrow> transfer_chunk \<Rightarrow> active_write_transfer" where
  "advance t ch = t\<lparr>aw_expected_offset := aw_expected_offset t + len_u64 (tc_data ch)\<rparr>"

definition chunk_outcome :: "active_write_transfer \<Rightarrow> transfer_chunk \<Rightarrow> fenris_output res" where
  "chunk_outcome t ch =
     (if tc_is_last ch then
        if aw_expected_offset (advance t ch) \<noteq> aw_total_size t
        then Err (InvalidRequest (''incomplete transfer: expected '' @ show_u64 (aw_total_size t) @
                '' bytes, got '' @ show_u64 (aw_expected_offset (advance t ch)) @ '' bytes''))
        else Ok (Success (''Transfer complete: '' @ show_u64 (aw_total_size t) @ '' bytes''))
      else Ok (TransferProgress (aw_expected_offset (advance t ch))))"

lemma chunk_refused:
  assumes "\<not> chunk_fits t ch n"
  shows "\<exists>m. handler_write_object_chunk B t ch n s = (Err (InvalidRequest m), t, s)"
  using assms by (auto simp: handler_write_object_chunk_def chunk_fits_def)

lemma chunk_appended:
  assumes "chunk_fits t ch n" "append_object B (aw_path t) (tc_data ch) s = (Ok u, s')"
  shows "handler_write_object_chunk B t ch n s = (chunk_outcome t ch, advance t ch, s')"
  using assms by (simp add: handler_write_object_chunk_def chunk_fits_def chunk_outcome_def advance_def Let_def)

context storage_contract
begin

lemma write_then_read:
  assumes "inv s" "process_command B (WriteObject p d) (s, dir) = (Ok out, (s', dir'))"
    "\<And>m. out \<noteq> ErrorOutput m"
  shows "inv s' \<and> process_command B (ReadObject p) (s', dir) = (Ok (ObjectContent d (len_u64 d) False), (s', dir))"
proof -
  let ?q = "resolve_path p dir"
  obtain s1 where put: "put_object B ?q d s = (Ok (), s1)" "s' = s1"
    using assms(2,3)
    by (cases "put_object B ?q d s"; cases "fst (put_object B ?q d s)")
      (auto simp: process_command_def on_storage_apply handle_write_object_def Let_def state_bind_def)
  have "inv s1" using put_Ok [OF assms(1) put(1)] by simp
  moreover have "get_object B ?q s1 = (Ok d, s1)" by (rule get_after_put [OF assms(1) put(1)])
  ultimately show ?thesis
    using put(2) by (simp add: process_command_def on_storage_apply handle_read_object_def Let_def)
qed

lemma append_then_read:
  assumes "inv s" "content s (resolve_path p dir) = Some c"
  shows "\<exists>s' m. process_command B (AppendObject p d) (s, dir) = (Ok (Success m), (s', dir)) \<and> inv s' \<and>
    process_command B (ReadObject p) (s', dir) = (Ok (ObjectContent (c @ d) (len_u64 (c @ d)) False), (s', dir))"
proof -
  let ?q = "resolve_path p dir"
  obtain s' where s': "append_object B ?q d s = (Ok (), s')" "inv s'" "content s' ?q = Some (c @ d)"
    by (rule append_existing [OF assms, of d])
  have "get_object B ?q s' = (Ok (c @ d), s')" using s'(2,3) by (rule get_Some)
  with s' show ?thesis
    by (simp add: process_command_def on_storage_apply handle_append_object_def handle_read_object_def Let_def)
qed

lemma write_chunk_content:
  assumes "inv s" "content s (aw_path t) = Some c" "chunk_fits t ch n"
  obtains s' where "handler_write_object_chunk B t ch n s = (chunk_outcome t ch, advance t ch, s')" "inv s'"
    "content s' (aw_path t) = Some (c @ tc_data ch)"
    "\<And>q. \<not> same (aw_path t) q \<Longrightarrow> content s' q = content s q"
proof -
  obtain s' where s': "append_object B (aw_path t) (tc_data ch) s = (Ok (), s')" "inv s'"
    "content s' (aw_path t) = Some (c @ tc_data ch)" "\<And>q. \<not> same (aw_path t) q \<Longrightarrow> content s' q = content s q"
    by (rule append_existing [OF assms(1,2), of "tc_data ch"]) blast
  with that chunk_appended [OF assms(3) s'(1)] show ?thesis by blast
qed

lemma begin_write_content:
  assumes "inv s" "begin_object_write B p mode n dir s = (Ok t, s')"
  shows "inv s' \<and> t = \<lparr>aw_path = resolve_path p dir, aw_expected_offset = 0, aw_total_size = n\<rparr> \<and>
    content s' (aw_path t) =
      Some (if mode = Append then (case content s (aw_path t) of None \<Rightarrow> [] | Some c \<Rightarrow> c) else [])"
proof -
  let ?q = "resolve_path p dir"
  have t: "t = \<lparr>aw_path = ?q, aw_expected_offset = 0, aw_total_size = n\<rparr>"
    using assms(2) by (auto simp: begin_object_write_def Let_def state_bind_eq_Ok)
  show ?thesis
  proof (cases "mode = Append")
    case True
    with assms(2) have ap: "append_object B ?q [] s = (Ok (), s')"
      by (auto simp: begin_object_write_def Let_def state_bind_eq_Ok)
    then have "same ?q ?q" using append_same [OF assms(1), of ?q "[]"] by simp
    with append_Ok [OF assms(1) ap] True t show ?thesis by (auto split: option.splits)
  next
    case False
    with assms(2) have pt: "put_object B ?q [] s = (Ok (), s')"
      by (cases mode) (auto simp: begin_object_write_def Let_def state_bind_eq_Ok)
    then have "same ?q ?q" using put_same [OF assms(1), of ?q "[]"] by simp
    with put_Ok [OF assms(1) pt] False t show ?thesis by simp
  qed
qed

lemma read_chunk_content:
  assumes "inv s" "content s (resolve_path p dir) = Some d" "vec_ok d"
  obtains c where "read_object_chunk B p dir off s = (Ok c, s)" "tc_offset c = off" "tc_total_size c = len_u64 d"
    "length (tc_data c) \<le> DEFAULT_TRANSFER_CHUNK_SIZE" "tc_data c = take (length (tc_data c)) (drop (unat off) d)"
    "unat off < length d \<longleftrightarrow> tc_data c \<noteq> []" "tc_is_last c \<longleftrightarrow> length d \<le> unat off + length (tc_data c)"
proof -
  have sz: "0 < DEFAULT_TRANSFER_CHUNK_SIZE" "DEFAULT_TRANSFER_CHUNK_SIZE < 2 ^ 63"
    by (simp_all add: DEFAULT_TRANSFER_CHUNK_SIZE_def)
  obtain c where c: "get_object_chunk B (resolve_path p dir) off DEFAULT_TRANSFER_CHUNK_SIZE s = (Ok c, s)"
    "chunk_of d off DEFAULT_TRANSFER_CHUNK_SIZE c"
    using chunk_Some [OF assms sz] by blast
  then have "read_object_chunk B p dir off s =
      (Ok \<lparr>tc_offset = oc_offset c, tc_data = oc_data c, tc_is_last = oc_is_last c, tc_total_size = oc_total_size c\<rparr>, s)"
    by (simp add: read_object_chunk_def)
  with c(2) show ?thesis unfolding chunk_of_def by (intro that) auto
qed

text \<open>The two ways a chunk goes: it is the rest of the object, or a nonempty piece with more to come.\<close>

lemma read_next:
  assumes "inv s" "content s (resolve_path p dir) = Some d" "vec_ok d"
  obtains (final) ch where "read_object_chunk B p dir off s = (Ok ch, s)" "tc_is_last ch" "tc_offset ch = off"
      "tc_total_size ch = len_u64 d" "length (tc_data ch) \<le> DEFAULT_TRANSFER_CHUNK_SIZE" "tc_data ch = drop (unat off) d"
    | (more) ch where "read_object_chunk B p dir off s = (Ok ch, s)" "\<not> tc_is_last ch" "tc_offset ch = off"
      "tc_total_size ch = len_u64 d" "length (tc_data ch) \<le> DEFAULT_TRANSFER_CHUNK_SIZE"
      "unat off < unat (off + len_u64 (tc_data ch))" "unat (off + len_u64 (tc_data ch)) < length d"
      "tc_data ch @ drop (unat (off + len_u64 (tc_data ch))) d = drop (unat off) d"
proof -
  obtain ch where ch: "read_object_chunk B p dir off s = (Ok ch, s)"
    "tc_offset ch = off" "tc_total_size ch = len_u64 d" "length (tc_data ch) \<le> DEFAULT_TRANSFER_CHUNK_SIZE"
    "tc_data ch = take (length (tc_data ch)) (drop (unat off) d)" "unat off < length d \<longleftrightarrow> tc_data ch \<noteq> []"
    "tc_is_last ch \<longleftrightarrow> length d \<le> unat off + length (tc_data ch)"
    by (rule read_chunk_content [OF assms, where off = off])
  let ?k = "length (tc_data ch)" and ?off = "off + len_u64 (tc_data ch)"
  show thesis
  proof (cases "tc_is_last ch")
    case True
    then have "tc_data ch = drop (unat off) d"
      using ch(5,7) by (metis diff_le_mono2 drop_all length_drop le_diff_conv add.commute take_all)
    with True ch show thesis by (intro final)
  next
    case False
    then have lt: "unat off + ?k < length d" using ch(7) by simp
    have "unat (len_u64 (tc_data ch)) = ?k"
      using ch(4) by (intro unat_len_u64) (simp add: DEFAULT_TRANSFER_CHUNK_SIZE_def)
    moreover have "unat off + ?k < 2 ^ 64" using lt assms(3) by (simp add: vec_ok_def)
    ultimately have off: "unat ?off = unat off + ?k" by (simp add: unat_word_ariths)
    moreover have "tc_data ch @ drop (unat ?off) d = drop (unat off) d"
      using ch(5) off by (metis append_take_drop_id drop_drop add.commute)
    ultimately show thesis using ch lt False by (intro more [of ch]) auto
  qed
qed

end

subsection \<open>A refused command changes nothing\<close>

text \<open>An operation that succeeds and keeps the invariant, or fails and keeps the state.\<close>

definition clean :: "(memory_storage, 'a) action \<Rightarrow> memory_storage \<Rightarrow> bool" where
  "clean op s \<longleftrightarrow> (\<exists>x s'. op s = (Ok x, s') \<and> ms_inv s') \<or> (\<exists>e. op s = (Err e, s))"

lemma clean_implements: "implements ms_inv tree_of op spec s \<Longrightarrow> clean op s"
  by (auto simp: implements_def clean_def split: option.splits)

lemma clean_Err: "op s = (Err e, s) \<Longrightarrow> clean op s"
  by (simp add: clean_def)

text \<open>The same for a handler: a success is not an error output.\<close>

definition answered :: "('w, fenris_output) action \<Rightarrow> ('w \<Rightarrow> bool) \<Rightarrow> 'w \<Rightarrow> bool" where
  "answered op ok w \<longleftrightarrow>
     (\<exists>out w'. op w = (Ok out, w') \<and> ok w' \<and> (\<forall>m. out \<noteq> ErrorOutput m)) \<or> (\<exists>e. op w = (Err e, w))"

lemma answered_bind:
  "clean op s \<Longrightarrow> (\<And>x m. f x \<noteq> ErrorOutput m) \<Longrightarrow> answered (state_bind op (\<lambda>x. state_return (f x))) ms_inv s"
  by (auto simp: clean_def answered_def state_bind_def)

lemma answered_on_storage: "answered act ms_inv s \<Longrightarrow> answered (on_storage act) (ms_inv \<circ> fst) (s, dir)"
  by (auto simp: answered_def on_storage_def)

lemma clean_writers:
  assumes "ms_inv s"
  shows "clean (ms_put_object p d) s" "clean (ms_append_object p d) s" "clean (ms_delete_object p) s"
    "clean (ms_create_namespace p) s" "clean (ms_delete_namespace p) s"
  by (cases "path_names p";
      simp add: clean_Err outside_Err clean_implements [OF ms_put_implements [OF assms]]
        clean_implements [OF ms_append_implements [OF assms]] clean_implements [OF ms_delete_implements [OF assms]]
        clean_implements [OF ms_mkdir_implements [OF assms]] clean_implements [OF ms_rmdir_implements [OF assms]])+

lemma clean_unchanged: "ms_inv s \<Longrightarrow> snd (op s) = s \<Longrightarrow> fst (op s) \<noteq> Panic \<Longrightarrow> clean op s"
  by (cases "op s"; cases "fst (op s)") (auto simp: clean_def)

lemma normalize_not_Panic: "normalize_path p \<noteq> Panic"
  by (simp add: normalize_path_eq split: option.split)

lemma clean_readers:
  assumes "ms_inv s"
  shows "clean (ms_get_object p) s" "clean (ms_metadata p) s" "clean (ms_list_namespace p) s"
proof -
  have "fst (ms_get_object p s) \<noteq> Panic" "fst (ms_metadata p s) \<noteq> Panic" "fst (ms_list_namespace p s) \<noteq> Panic"
    using assms normalize_not_Panic [of p]
    by (cases "normalize_path p";
        simp add: ms_get_object_def ms_metadata_def ms_list_namespace_def state_bind_def split: option.split)+
  then show "clean (ms_get_object p) s" "clean (ms_metadata p) s" "clean (ms_list_namespace p) s"
    using reads_keep_state [OF assms] clean_unchanged [OF assms] by blast+
qed

lemmas clean_ops = clean_writers clean_readers

lemma handlers_answer:
  assumes "ms_inv s"
  shows "answered (handle_create_object memory_backend p dir) ms_inv s"
    "answered (handle_read_object memory_backend p dir) ms_inv s"
    "answered (handle_write_object memory_backend p d dir) ms_inv s"
    "answered (handle_append_object memory_backend p d dir) ms_inv s"
    "answered (handle_delete_object memory_backend p dir) ms_inv s"
    "answered (handle_upload_object memory_backend p d dir) ms_inv s"
    "answered (handle_object_info memory_backend p dir) ms_inv s"
    "answered (handle_create_namespace memory_backend p dir) ms_inv s"
    "answered (handle_list_namespace memory_backend p dir) ms_inv s"
    "answered (handle_delete_namespace memory_backend p dir) ms_inv s"
  unfolding handle_create_object_def handle_read_object_def handle_write_object_def handle_append_object_def
    handle_delete_object_def handle_upload_object_def handle_object_info_def handle_create_namespace_def
    handle_list_namespace_def handle_delete_namespace_def Let_def
  by (rule answered_bind, simp add: memory_backend_def clean_ops [OF assms], simp)+

lemma handle_command_answers:
  assumes "ms_inv s"
  shows "answered (handle_command memory_backend c) (ms_inv \<circ> fst) (s, dir)"
proof -
  note storage = answered_on_storage [OF handlers_answer(1) [OF assms]] answered_on_storage [OF handlers_answer(2) [OF assms]]
    answered_on_storage [OF handlers_answer(3) [OF assms]] answered_on_storage [OF handlers_answer(4) [OF assms]]
    answered_on_storage [OF handlers_answer(5) [OF assms]] answered_on_storage [OF handlers_answer(6) [OF assms]]
    answered_on_storage [OF handlers_answer(7) [OF assms]] answered_on_storage [OF handlers_answer(8) [OF assms]]
    answered_on_storage [OF handlers_answer(9) [OF assms]] answered_on_storage [OF handlers_answer(10) [OF assms]]
  show ?thesis
    using assms storage [unfolded answered_def]
    by (cases c) (simp_all add: answered_def handle_change_namespace_def Let_def)
qed

text \<open>Over the memory storage no command panics, the invariant holds after it, and a command
  that is answered by an error has changed neither the storage nor the directory.\<close>

lemma process_command_memory:
  assumes "ms_inv s" "process_command memory_backend c (s, dir) = (r, (s', dir'))"
  shows "\<exists>out. r = Ok out \<and> ms_inv s' \<and> ((\<exists>m. out = ErrorOutput m) \<longrightarrow> s' = s \<and> dir' = dir)"
  using handle_command_answers [OF assms(1), of c dir] assms
  by (auto simp: answered_def process_command_def)

subsection \<open>A directory that is not normalised\<close>

text \<open>The text of a path that goes down into \<open>n\<close> and back up again: it leads to where it started, but
  its parent, by its text, is the directory it went through.\<close>

lemma back_text: "abs_path (ns @ [n]) @ ''/..'' = abs_path ((ns @ [n]) @ [''..''])"
  using join_with_append [of "ns @ [n]" "[''..'']" slash] by (simp add: abs_path_def)

lemma back_body:
  assumes "names_ok ns" "name_ok n"
  shows "path_body (abs_path ((ns @ [n]) @ [''..''])) = (ns @ [n]) @ [''..'']"
proof -
  have free: "slash \<notin> set s" if "s \<in> set ((ns @ [n]) @ [''..''])" for s
  proof -
    have "names_ok (ns @ [n])" using assms by simp
    then have "slash \<notin> set s" if "s \<in> set (ns @ [n])" using that unfolding names_ok_def name_ok_def by blast
    moreover have "slash \<notin> set ''..''" by simp
    ultimately show ?thesis using that by fastforce
  qed
  have "split_on slash (join_with slash ((ns @ [n]) @ [''..''])) = (ns @ [n]) @ [''..'']"
    using free by (intro split_join) blast+
  then show ?thesis unfolding path_body_def path_head_abs_path by (simp add: abs_path_def)
qed

lemma back_parent:
  assumes "names_ok ns" "name_ok n"
  shows "parent (abs_path ((ns @ [n]) @ [''..''])) = Some (abs_path (ns @ [n]))"
proof -
  have "trim_right ((ns @ [n]) @ [''..'']) = (ns @ [n]) @ [''..'']" by (simp add: trim_right_def null_seg_def)
  moreover have "trim_right (ns @ [n]) = ns @ [n]" using assms by (intro trim_right_names_ok) simp
  ultimately show ?thesis
    unfolding parent_def back_body [OF assms] by (simp add: path_head_abs_path) (simp add: abs_path_def)
qed

lemma back_names:
  assumes "names_ok ns" "name_ok n"
  shows "path_names (abs_path ((ns @ [n]) @ [''..''])) = Some ns"
proof -
  have ok: "names_ok (ns @ [n])" using assms by simp
  have "names_of (abs_path ((ns @ [n]) @ [''..''])) = (ns @ [n]) @ [''..'']"
    unfolding names_of_def back_body [OF assms] filter_append [of _ "ns @ [n]"] filter_names_ok [OF ok] by (simp add: null_seg_def)
  then have "components (abs_path ((ns @ [n]) @ [''..''])) = RootDir # map Normal (ns @ [n]) @ [ParentDir]"
    unfolding components_absolute [OF is_absolute_abs_path] by (simp add: map_seg_names_ok [OF assms(1)] map_seg_names_ok [of "[n]", simplified] assms(2))
  moreover have "walk (map Normal ms @ cs) ks = walk cs (ks @ ms)" for ms cs ks by (induction ms arbitrary: ks) simp_all
  from this [of "ns @ [n]" "[ParentDir]" "[]"] have "walk (map Normal (ns @ [n]) @ [ParentDir]) [] = Some ns" by simp
  ultimately show ?thesis by (simp add: path_names_def)
qed

lemma back_components:
  assumes "name_ok n"
  shows "components (n @ ''/..'') = [Normal n, ParentDir] \<and> \<not> is_absolute (n @ ''/..'')"
proof -
  have n: "n \<noteq> []" "n \<noteq> ''.''" "n \<noteq> ''..''" "slash \<notin> set n" using assms by (simp_all add: name_ok_def)
  have "split_on slash (join_with slash [n, ''..'']) = [n, ''..'']" using n(4) by (intro split_join) auto
  then have split: "split_on slash (n @ ''/..'') = [n, ''..'']" by simp
  have rel: "\<not> is_absolute (n @ ''/..'')" using n(1,4) by (cases n) (auto simp: is_absolute_def)
  then have "\<not> include_cur_dir (n @ ''/..'')" unfolding include_cur_dir_def split using n(2) by simp
  with rel n(1-3) show ?thesis unfolding components_def path_body_def path_head_def head_components_def
    by (simp add: split null_seg_def)
qed

lemma change_there_and_back:
  assumes "names_ok ns" "name_ok n"
  shows "change_target (n @ ''/..'') (abs_path ns) = abs_path ((ns @ [n]) @ [''..''])"
    and "change_target ''..'' (abs_path ((ns @ [n]) @ [''..''])) = abs_path (ns @ [n])"
proof -
  note comp = back_components [OF assms(2)]
  have eqs: "components ''~'' = [Normal ''~'']" "components ''.'' = [CurDir]" "components ''..'' = [ParentDir]" by code_simp+
  then have "\<not> path_eq (n @ ''/..'') ''~''" "\<not> path_eq (n @ ''/..'') ''.''" "\<not> path_eq (n @ ''/..'') ''..''"
    using comp by (simp_all add: path_eq_def)
  then have "change_target (n @ ''/..'') (abs_path ns) = join (abs_path ns) (n @ ''/..'')"
    using comp assms(2) by (simp add: change_target_def name_ok_def)
  also have "\<dots> = abs_path (ns @ [n]) @ ''/..''"
    using push_abs_path [OF assms] comp assms(2) by (auto simp: join_def push_def is_absolute_def name_ok_def split: if_splits)
  finally show "change_target (n @ ''/..'') (abs_path ns) = abs_path ((ns @ [n]) @ [''..''])" by (simp only: back_text)
  show "change_target ''..'' (abs_path ((ns @ [n]) @ [''..''])) = abs_path (ns @ [n])"
    unfolding change_target_def back_parent [OF assms] by (simp add: path_eq_def eqs)
qed

lemma memory_changes_to:
  assumes "ms_inv s" "path_names (change_target p dir) = Some ns" "tree_of s ns = Some NamespaceNode"
  shows "process_command memory_backend (ChangeNamespace p) (s, dir) =
    (Ok (NamespaceChanged (change_target p dir)), (s, change_target p dir))"
  using assms path_names_ok [OF assms(2)]
  by (simp add: process_command_def handle_change_namespace_def ms_is_namespace_def normalize_path_eq tree_of_namespace Let_def ms_inv_def)

end
