(* ===== verification/Compression.thy ===== *)
theory Compression
  imports Fenris_Error
begin

section \<open>Compression (common/src/compression.rs)\<close>

text \<open>
  The trait \<open>Compressor\<close> is a record of operations; the three implementations are values
  of it.  The zlib and zstd libraries are parameters: a stage of a streaming coder takes
  the level and the data and returns its output or an error text.  The locale
  \<open>compressor_contract\<close> is what the channel relies on; \<open>trusted\<close> names the documented
  behaviour of the library behind the compressor and is \<open>True\<close> for the compressor that
  needs none.
\<close>

record compressor =
  cp_compress :: "bytes \<Rightarrow> bytes res"
  cp_decompress :: "bytes \<Rightarrow> bytes res"
  cp_name :: string

text \<open>flate2's writers: \<open>write_all\<close> then \<open>finish\<close>, each of which may fail; zstd's one-shot
  functions.\<close>

record compression_library =
  zlib_encoder_write :: "u32 \<Rightarrow> bytes \<Rightarrow> string + bytes"
  zlib_encoder_finish :: "u32 \<Rightarrow> bytes \<Rightarrow> string + bytes"
  zlib_decoder_write :: "bytes \<Rightarrow> string + bytes"
  zlib_decoder_finish :: "bytes \<Rightarrow> string + bytes"
  zlib_default_level :: u32
  zstd_encode_all :: "int \<Rightarrow> bytes \<Rightarrow> string + bytes"
  zstd_decode_all :: "bytes \<Rightarrow> string + bytes"
  zstd_default_level :: int

record zlib_compressor =
  zc_level :: u32

definition zlib_compressor_new :: "compression_library \<Rightarrow> zlib_compressor" where
  "zlib_compressor_new L = \<lparr>zc_level = zlib_default_level L\<rparr>"

definition zlib_compressor_with_level :: "u32 \<Rightarrow> zlib_compressor" where
  "zlib_compressor_with_level level = \<lparr>zc_level = level\<rparr>"

definition zlib_compress :: "compression_library \<Rightarrow> zlib_compressor \<Rightarrow> bytes \<Rightarrow> bytes res" where
  "zlib_compress L z d =
     res_bind (ok_or_err CompressionError (zlib_encoder_write L (zc_level z) d)) (\<lambda>enc.
     ok_or_err CompressionError (zlib_encoder_finish L (zc_level z) enc))"

definition zlib_decompress :: "compression_library \<Rightarrow> bytes \<Rightarrow> bytes res" where
  "zlib_decompress L d =
     res_bind (ok_or_err CompressionError (zlib_decoder_write L d)) (\<lambda>dec.
     ok_or_err CompressionError (zlib_decoder_finish L dec))"

definition ZlibCompressor :: "compression_library \<Rightarrow> zlib_compressor \<Rightarrow> compressor" where
  "ZlibCompressor L z =
     \<lparr>cp_compress = zlib_compress L z, cp_decompress = zlib_decompress L, cp_name = ''zlib''\<rparr>"

record zstd_compressor =
  zs_level :: int

definition zstd_compressor_new :: "compression_library \<Rightarrow> zstd_compressor" where
  "zstd_compressor_new L = \<lparr>zs_level = zstd_default_level L\<rparr>"

definition zstd_compressor_with_level :: "int \<Rightarrow> zstd_compressor" where
  "zstd_compressor_with_level level = \<lparr>zs_level = level\<rparr>"

definition zstd_compress :: "compression_library \<Rightarrow> zstd_compressor \<Rightarrow> bytes \<Rightarrow> bytes res" where
  "zstd_compress L z d = ok_or_err CompressionError (zstd_encode_all L (zs_level z) d)"

definition zstd_decompress :: "compression_library \<Rightarrow> bytes \<Rightarrow> bytes res" where
  "zstd_decompress L d = ok_or_err DecompressionError (zstd_decode_all L d)"

definition ZstdCompressor :: "compression_library \<Rightarrow> zstd_compressor \<Rightarrow> compressor" where
  "ZstdCompressor L z =
     \<lparr>cp_compress = zstd_compress L z, cp_decompress = zstd_decompress L, cp_name = ''zstd''\<rparr>"

definition NullCompressor :: compressor where
  "NullCompressor = \<lparr>cp_compress = Ok, cp_decompress = Ok, cp_name = ''none''\<rparr>"

record compression_manager =
  mgr_compressor :: compressor

definition compression_manager_new :: "compressor \<Rightarrow> compression_manager" where
  "compression_manager_new c = \<lparr>mgr_compressor = c\<rparr>"

definition compress :: "compression_manager \<Rightarrow> bytes \<Rightarrow> bytes res" where
  "compress m d = cp_compress (mgr_compressor m) d"

definition decompress :: "compression_manager \<Rightarrow> bytes \<Rightarrow> bytes res" where
  "decompress m d = cp_decompress (mgr_compressor m) d"

definition compressor_name :: "compression_manager \<Rightarrow> string" where
  "compressor_name m = cp_name (mgr_compressor m)"

subsection \<open>The contract\<close>

locale compressor_contract =
  fixes C :: compressor and trusted :: bool
  assumes decompress_compress: "trusted \<Longrightarrow> cp_compress C d = Ok z \<Longrightarrow> cp_decompress C z = Ok d"
    and compress_not_Panic: "cp_compress C d \<noteq> Panic"
    and decompress_not_Panic: "cp_decompress C d \<noteq> Panic"
begin

lemma manager_roundtrip:
  "trusted \<Longrightarrow> compress (compression_manager_new C) d = Ok z \<Longrightarrow>
   decompress (compression_manager_new C) z = Ok d"
  by (simp add: compress_def decompress_def compression_manager_new_def decompress_compress)

lemma compress_inj: "trusted \<Longrightarrow> cp_compress C a = Ok z \<Longrightarrow> cp_compress C b = Ok z \<Longrightarrow> a = b"
  using decompress_compress [of a z] decompress_compress [of b z] by simp

end

text \<open>The documented behaviour of the libraries: decoding a finished stream gives back
  what was encoded, at every level.\<close>

definition zlib_ok :: "compression_library \<Rightarrow> bool" where
  "zlib_ok L \<longleftrightarrow> (\<forall>lv d e z. zlib_encoder_write L lv d = Inr e \<longrightarrow> zlib_encoder_finish L lv e = Inr z \<longrightarrow>
     (\<exists>y. zlib_decoder_write L z = Inr y \<and> zlib_decoder_finish L y = Inr d))"

definition zstd_ok :: "compression_library \<Rightarrow> bool" where
  "zstd_ok L \<longleftrightarrow> (\<forall>lv d z. zstd_encode_all L lv d = Inr z \<longrightarrow> zstd_decode_all L z = Inr d)"

interpretation null_compressor: compressor_contract NullCompressor True
  by unfold_locales (simp_all add: NullCompressor_def)

lemma res_bind_not_Panic: "r \<noteq> Panic \<Longrightarrow> (\<And>x. f x \<noteq> Panic) \<Longrightarrow> res_bind r f \<noteq> Panic"
  by (cases r) auto

interpretation zlib: compressor_contract "ZlibCompressor L z" "zlib_ok L" for L z
proof
  show "cp_decompress (ZlibCompressor L z) c = Ok d"
    if "zlib_ok L" "cp_compress (ZlibCompressor L z) d = Ok c" for d c
    using that
    by (auto simp: ZlibCompressor_def zlib_compress_def zlib_decompress_def zlib_ok_def res_simps)
  show "cp_compress (ZlibCompressor L z) d \<noteq> Panic" for d
    by (simp add: ZlibCompressor_def zlib_compress_def res_bind_not_Panic)
  show "cp_decompress (ZlibCompressor L z) d \<noteq> Panic" for d
    by (simp add: ZlibCompressor_def zlib_decompress_def res_bind_not_Panic)
qed

interpretation zstd: compressor_contract "ZstdCompressor L z" "zstd_ok L" for L z
proof
  show "cp_decompress (ZstdCompressor L z) c = Ok d"
    if "zstd_ok L" "cp_compress (ZstdCompressor L z) d = Ok c" for d c
    using that by (auto simp: ZstdCompressor_def zstd_compress_def zstd_decompress_def zstd_ok_def res_simps)
qed (simp_all add: ZstdCompressor_def zstd_compress_def zstd_decompress_def)

end
