(* ===== verification/Crypto.thy ===== *)
theory Crypto
  imports Fenris_Error
begin

section \<open>Encryption, key exchange and key derivation (common/src/crypto.rs)\<close>

text \<open>
  The three traits are records of operations, and \<open>CryptoManager\<close> combines one of each.
  The primitives of the libraries (AES-256-GCM, X25519, HKDF-SHA256) are a parameter; the
  checks around them are the code's.  The operating system's random source is a byte
  sequence with a position.  The locale \<open>encryptor_contract\<close> is what \<open>seal\<close> and \<open>open\<close>
  rely on, \<open>key_exchange_contract\<close> what the handshake relies on.
\<close>

definition KEY_SIZE :: usize where "KEY_SIZE = 32"
definition IV_SIZE :: usize where "IV_SIZE = 12"
definition TAG_SIZE :: usize where "TAG_SIZE = 16"
definition ECDH_KEY_SIZE :: usize where "ECDH_KEY_SIZE = 32"

lemmas key_sizes = KEY_SIZE_def IV_SIZE_def TAG_SIZE_def ECDH_KEY_SIZE_def

record rng =
  rng_byte :: "nat \<Rightarrow> u8"
  rng_pos :: nat

definition fill_bytes :: "usize \<Rightarrow> rng \<Rightarrow> bytes \<times> rng" where
  "fill_bytes n r = (map (rng_byte r) [rng_pos r..<rng_pos r + n], r\<lparr>rng_pos := rng_pos r + n\<rparr>)"

record encryptor =
  en_encrypt :: "bytes \<Rightarrow> bytes \<Rightarrow> bytes \<Rightarrow> bytes res"
  en_decrypt :: "bytes \<Rightarrow> bytes \<Rightarrow> bytes \<Rightarrow> bytes res"
  en_generate_iv :: "rng \<Rightarrow> bytes \<times> rng"
  en_key_size :: usize
  en_iv_size :: usize

record key_exchanger =
  kx_generate_keypair :: "rng \<Rightarrow> (bytes \<times> bytes) \<times> rng"
  kx_compute_shared_secret :: "bytes \<Rightarrow> bytes \<Rightarrow> bytes res"
  kx_key_size :: usize

record key_deriver =
  kd_derive_key :: "bytes \<Rightarrow> bytes \<Rightarrow> usize \<Rightarrow> bytes res"

record crypto_primitives =
  aes_encrypt :: "bytes \<Rightarrow> bytes \<Rightarrow> bytes \<Rightarrow> string + bytes"
  aes_decrypt :: "bytes \<Rightarrow> bytes \<Rightarrow> bytes \<Rightarrow> string + bytes"
  x25519_public :: "bytes \<Rightarrow> bytes"
  x25519_shared :: "bytes \<Rightarrow> bytes \<Rightarrow> bytes"
  hkdf_expand :: "bytes \<Rightarrow> bytes \<Rightarrow> bytes \<Rightarrow> usize \<Rightarrow> string + bytes"

subsection \<open>AES-GCM\<close>

text \<open>\<open>Aes256Gcm::new_from_slice\<close> fails only on a key of another length, which the check
  before it has already refused.\<close>

definition aes_gcm_encrypt :: "crypto_primitives \<Rightarrow> bytes \<Rightarrow> bytes \<Rightarrow> bytes \<Rightarrow> bytes res" where
  "aes_gcm_encrypt P plaintext key iv =
     (if length key \<noteq> KEY_SIZE then Err (InvalidKeySize KEY_SIZE (length key))
      else if length iv \<noteq> IV_SIZE then Err (InvalidIvSize IV_SIZE (length iv))
      else ok_or_err EncryptionError (aes_encrypt P key iv plaintext))"

definition aes_gcm_decrypt :: "crypto_primitives \<Rightarrow> bytes \<Rightarrow> bytes \<Rightarrow> bytes \<Rightarrow> bytes res" where
  "aes_gcm_decrypt P ciphertext key iv =
     (if length key \<noteq> KEY_SIZE then Err (InvalidKeySize KEY_SIZE (length key))
      else if length iv \<noteq> IV_SIZE then Err (InvalidIvSize IV_SIZE (length iv))
      else if length ciphertext < TAG_SIZE
      then Err (DecryptionError ''Ciphertext must contain at least the auth tag'')
      else ok_or_err DecryptionError (aes_decrypt P key iv ciphertext))"

definition aes_gcm_generate_iv :: "rng \<Rightarrow> bytes \<times> rng" where
  "aes_gcm_generate_iv r = fill_bytes IV_SIZE r"

definition AesGcmEncryptor :: "crypto_primitives \<Rightarrow> encryptor" where
  "AesGcmEncryptor P =
     \<lparr>en_encrypt = aes_gcm_encrypt P, en_decrypt = aes_gcm_decrypt P,
      en_generate_iv = aes_gcm_generate_iv, en_key_size = KEY_SIZE, en_iv_size = IV_SIZE\<rparr>"

subsection \<open>X25519\<close>

definition x25519_generate_keypair :: "crypto_primitives \<Rightarrow> rng \<Rightarrow> (bytes \<times> bytes) \<times> rng" where
  "x25519_generate_keypair P r =
     (let (secret, r') = fill_bytes ECDH_KEY_SIZE r in ((secret, x25519_public P secret), r'))"

definition x25519_compute_shared_secret :: "crypto_primitives \<Rightarrow> bytes \<Rightarrow> bytes \<Rightarrow> bytes res" where
  "x25519_compute_shared_secret P private_key peer_public_key =
     (if length private_key \<noteq> ECDH_KEY_SIZE
      then Err (InvalidKeySize ECDH_KEY_SIZE (length private_key))
      else if length peer_public_key \<noteq> ECDH_KEY_SIZE
      then Err (InvalidKeySize ECDH_KEY_SIZE (length peer_public_key))
      else Ok (x25519_shared P private_key peer_public_key))"

definition X25519KeyExchanger :: "crypto_primitives \<Rightarrow> key_exchanger" where
  "X25519KeyExchanger P =
     \<lparr>kx_generate_keypair = x25519_generate_keypair P,
      kx_compute_shared_secret = x25519_compute_shared_secret P, kx_key_size = ECDH_KEY_SIZE\<rparr>"

subsection \<open>HKDF\<close>

record hkdf_sha256_deriver =
  hk_salt :: bytes

definition default_salt :: bytes where
  "default_salt = map (\<lambda>c. of_nat (of_char c)) ''fenris-encryption-salt-v1''"

definition hkdf_derive_key ::
  "crypto_primitives \<Rightarrow> hkdf_sha256_deriver \<Rightarrow> bytes \<Rightarrow> bytes \<Rightarrow> usize \<Rightarrow> bytes res" where
  "hkdf_derive_key P h shared_secret context output_size =
     (let salt = (if hk_salt h = [] then default_salt else hk_salt h) in
      ok_or_err EncryptionError (hkdf_expand P salt shared_secret context output_size))"

definition HkdfSha256Deriver :: "crypto_primitives \<Rightarrow> hkdf_sha256_deriver \<Rightarrow> key_deriver" where
  "HkdfSha256Deriver P h = \<lparr>kd_derive_key = hkdf_derive_key P h\<rparr>"

subsection \<open>The manager\<close>

record crypto_manager =
  cm_encryptor :: encryptor
  cm_key_exchanger :: key_exchanger
  cm_key_deriver :: key_deriver

definition cm_encrypt :: "crypto_manager \<Rightarrow> bytes \<Rightarrow> bytes \<Rightarrow> bytes \<Rightarrow> bytes res" where
  "cm_encrypt m plaintext key iv = en_encrypt (cm_encryptor m) plaintext key iv"

definition cm_decrypt :: "crypto_manager \<Rightarrow> bytes \<Rightarrow> bytes \<Rightarrow> bytes \<Rightarrow> bytes res" where
  "cm_decrypt m ciphertext key iv = en_decrypt (cm_encryptor m) ciphertext key iv"

definition cm_generate_iv :: "crypto_manager \<Rightarrow> rng \<Rightarrow> bytes \<times> rng" where
  "cm_generate_iv m r = en_generate_iv (cm_encryptor m) r"

definition cm_generate_keypair :: "crypto_manager \<Rightarrow> rng \<Rightarrow> (bytes \<times> bytes) \<times> rng" where
  "cm_generate_keypair m r = kx_generate_keypair (cm_key_exchanger m) r"

definition cm_compute_shared_secret :: "crypto_manager \<Rightarrow> bytes \<Rightarrow> bytes \<Rightarrow> bytes res" where
  "cm_compute_shared_secret m private_key peer_public_key =
     kx_compute_shared_secret (cm_key_exchanger m) private_key peer_public_key"

definition cm_derive_key :: "crypto_manager \<Rightarrow> bytes \<Rightarrow> bytes \<Rightarrow> bytes res" where
  "cm_derive_key m shared_secret context =
     kd_derive_key (cm_key_deriver m) shared_secret context (en_key_size (cm_encryptor m))"

definition seal :: "crypto_manager \<Rightarrow> bytes \<Rightarrow> bytes \<Rightarrow> rng \<Rightarrow> bytes res \<times> rng" where
  "seal m plaintext key r =
     (let (iv, r') = cm_generate_iv m r in
      (res_bind (cm_encrypt m plaintext key iv) (\<lambda>ciphertext. Ok (iv @ ciphertext)), r'))"

definition open_sealed :: "crypto_manager \<Rightarrow> bytes \<Rightarrow> bytes \<Rightarrow> bytes res" where
  "open_sealed m sealed key =
     (if length sealed < en_iv_size (cm_encryptor m)
      then Err (DecryptionError ''Sealed data is too short to contain IV'')
      else
        cm_decrypt m (drop (en_iv_size (cm_encryptor m)) sealed) key
          (take (en_iv_size (cm_encryptor m)) sealed))"

subsection \<open>The encryptor's contract\<close>

locale encryptor_contract =
  fixes E :: encryptor and trusted :: bool
  assumes decrypt_encrypt: "trusted \<Longrightarrow> en_encrypt E pt k iv = Ok ct \<Longrightarrow> en_decrypt E ct k iv = Ok pt"
    and decrypt_authentic: "trusted \<Longrightarrow> en_decrypt E ct k iv = Ok pt \<Longrightarrow> en_encrypt E pt k iv = Ok ct"
    and encrypt_total: "trusted \<Longrightarrow> length k = en_key_size E \<Longrightarrow> length iv = en_iv_size E \<Longrightarrow>
        length pt < 2 ^ 32 \<Longrightarrow> \<exists>ct. en_encrypt E pt k iv = Ok ct"
    and iv_length: "length (fst (en_generate_iv E r)) = en_iv_size E"
    and encrypt_not_Panic: "en_encrypt E pt k iv \<noteq> Panic"
    and decrypt_not_Panic: "en_decrypt E ct k iv \<noteq> Panic"
begin

lemma open_seal:
  assumes "trusted" "cm_encryptor m = E" "seal m pt k r = (Ok sealed, r')"
  shows "open_sealed m sealed k = Ok pt"
proof -
  obtain iv where iv: "en_generate_iv E r = (iv, r')" "length iv = en_iv_size E"
    using assms(2,3) iv_length [of r] by (auto simp: seal_def cm_generate_iv_def split: prod.splits)
  with assms obtain ct where "en_encrypt E pt k iv = Ok ct" "sealed = iv @ ct"
    by (auto simp: seal_def cm_generate_iv_def cm_encrypt_def res_simps)
  with iv assms(1,2) show ?thesis
    using decrypt_encrypt by (simp add: open_sealed_def cm_decrypt_def)
qed

lemma seal_total:
  assumes "trusted" "cm_encryptor m = E" "length k = en_key_size E" "length pt < 2 ^ 32"
  shows "\<exists>sealed r'. seal m pt k r = (Ok sealed, r')"
  using assms iv_length [of r] encrypt_total [of k "fst (en_generate_iv E r)" pt]
  by (auto simp: seal_def cm_generate_iv_def cm_encrypt_def split: prod.splits)

text \<open>Whatever opens is a packet the key's holder could have sealed: the nonce it carries
  and the encryption under it.\<close>

lemma open_authentic:
  assumes "trusted" "cm_encryptor m = E" "open_sealed m sealed k = Ok pt"
  shows "\<exists>iv ct. sealed = iv @ ct \<and> length iv = en_iv_size E \<and> en_encrypt E pt k iv = Ok ct"
  using assms decrypt_authentic
  by (intro exI [of _ "take (en_iv_size E) sealed"] exI [of _ "drop (en_iv_size E) sealed"])
    (auto simp: open_sealed_def cm_decrypt_def split: if_splits)

lemma open_not_Panic: "cm_encryptor m = E \<Longrightarrow> open_sealed m sealed k \<noteq> Panic"
  by (simp add: open_sealed_def cm_decrypt_def decrypt_not_Panic)

lemma seal_not_Panic: "cm_encryptor m = E \<Longrightarrow> fst (seal m pt k r) \<noteq> Panic"
  using encrypt_not_Panic
  by (cases "en_generate_iv E r"; cases "en_encrypt E pt k (fst (en_generate_iv E r))")
    (auto simp: seal_def cm_generate_iv_def cm_encrypt_def)

end

text \<open>The documented behaviour of AES-GCM: decryption inverts encryption and accepts
  nothing else, the tag adds \<open>TAG_SIZE\<close> bytes, and a plaintext below the mode's length
  bound is encrypted.\<close>

definition aead_ok :: "crypto_primitives \<Rightarrow> bool" where
  "aead_ok P \<longleftrightarrow> (\<forall>k iv. length k = KEY_SIZE \<longrightarrow> length iv = IV_SIZE \<longrightarrow>
     (\<forall>pt ct. aes_encrypt P k iv pt = Inr ct \<longleftrightarrow> aes_decrypt P k iv ct = Inr pt) \<and>
     (\<forall>pt ct. aes_encrypt P k iv pt = Inr ct \<longrightarrow> length ct = length pt + TAG_SIZE) \<and>
     (\<forall>pt. length pt < 2 ^ 32 \<longrightarrow> (\<exists>ct. aes_encrypt P k iv pt = Inr ct)))"

lemma aead_okD:
  assumes "aead_ok P" "length k = KEY_SIZE" "length iv = IV_SIZE"
  shows "aes_encrypt P k iv pt = Inr ct \<longleftrightarrow> aes_decrypt P k iv ct = Inr pt"
    and "aes_encrypt P k iv pt = Inr ct \<Longrightarrow> length ct = length pt + TAG_SIZE"
    and "length pt < 2 ^ 32 \<Longrightarrow> \<exists>ct. aes_encrypt P k iv pt = Inr ct"
  using assms unfolding aead_ok_def by blast+

lemma aes_gcm_encrypt_Ok:
  "aes_gcm_encrypt P pt k iv = Ok ct \<longleftrightarrow>
     length k = KEY_SIZE \<and> length iv = IV_SIZE \<and> aes_encrypt P k iv pt = Inr ct"
  by (simp add: aes_gcm_encrypt_def ok_or_err_eq_Ok)

lemma aes_gcm_decrypt_Ok:
  "aes_gcm_decrypt P ct k iv = Ok pt \<longleftrightarrow>
     length k = KEY_SIZE \<and> length iv = IV_SIZE \<and> TAG_SIZE \<le> length ct \<and> aes_decrypt P k iv ct = Inr pt"
  by (auto simp: aes_gcm_decrypt_def ok_or_err_eq_Ok)

lemma length_fill_bytes [simp]: "length (fst (fill_bytes n r)) = n"
  by (simp add: fill_bytes_def)

lemma AesGcm_simps [simp]:
  "en_encrypt (AesGcmEncryptor P) = aes_gcm_encrypt P" "en_decrypt (AesGcmEncryptor P) = aes_gcm_decrypt P"
  "en_key_size (AesGcmEncryptor P) = KEY_SIZE" "en_iv_size (AesGcmEncryptor P) = IV_SIZE"
  "en_generate_iv (AesGcmEncryptor P) = fill_bytes IV_SIZE"
  by (simp_all add: AesGcmEncryptor_def aes_gcm_generate_iv_def fun_eq_iff)

interpretation aes: encryptor_contract "AesGcmEncryptor P" "aead_ok P" for P
proof
  show "en_decrypt (AesGcmEncryptor P) ct k iv = Ok pt"
    if "aead_ok P" "en_encrypt (AesGcmEncryptor P) pt k iv = Ok ct" for pt k iv ct
    using that aead_okD(1) [of P k iv pt ct] aead_okD(2) [of P k iv pt ct]
    by (simp add: aes_gcm_encrypt_Ok aes_gcm_decrypt_Ok)
  show "en_encrypt (AesGcmEncryptor P) pt k iv = Ok ct"
    if "aead_ok P" "en_decrypt (AesGcmEncryptor P) ct k iv = Ok pt" for pt k iv ct
    using that aead_okD(1) [of P k iv pt ct] by (simp add: aes_gcm_encrypt_Ok aes_gcm_decrypt_Ok)
  show "\<exists>ct. en_encrypt (AesGcmEncryptor P) pt k iv = Ok ct"
    if "aead_ok P" "length k = en_key_size (AesGcmEncryptor P)" "length iv = en_iv_size (AesGcmEncryptor P)"
      "length pt < 2 ^ 32" for k iv pt
    using that aead_okD(3) [of P k iv pt] by (simp add: aes_gcm_encrypt_Ok)
qed (simp_all add: aes_gcm_encrypt_def aes_gcm_decrypt_def)

subsection \<open>The key exchange's contract\<close>

locale key_exchange_contract =
  fixes X :: key_exchanger and trusted :: bool
  assumes agree: "trusted \<Longrightarrow> kx_generate_keypair X r = ((a, A), r1) \<Longrightarrow>
      kx_generate_keypair X q = ((b, B), q1) \<Longrightarrow>
      \<exists>s. kx_compute_shared_secret X a B = Ok s \<and> kx_compute_shared_secret X b A = Ok s"
    and public_length: "trusted \<Longrightarrow> kx_generate_keypair X r = ((a, A), r1) \<Longrightarrow> length A = kx_key_size X"
    and shared_not_Panic: "kx_compute_shared_secret X a B \<noteq> Panic"
    and size_refused: "length B \<noteq> kx_key_size X \<Longrightarrow> \<exists>e. kx_compute_shared_secret X a B = Err e"

definition x25519_ok :: "crypto_primitives \<Rightarrow> bool" where
  "x25519_ok P \<longleftrightarrow>
     (\<forall>a. length a = ECDH_KEY_SIZE \<longrightarrow> length (x25519_public P a) = ECDH_KEY_SIZE) \<and>
     (\<forall>a b. length a = ECDH_KEY_SIZE \<longrightarrow> length b = ECDH_KEY_SIZE \<longrightarrow>
        x25519_shared P a (x25519_public P b) = x25519_shared P b (x25519_public P a))"

lemma X25519_simps [simp]:
  "kx_generate_keypair (X25519KeyExchanger P) = x25519_generate_keypair P"
  "kx_compute_shared_secret (X25519KeyExchanger P) = x25519_compute_shared_secret P"
  "kx_key_size (X25519KeyExchanger P) = ECDH_KEY_SIZE"
  by (simp_all add: X25519KeyExchanger_def)

lemma x25519_keypair:
  "x25519_generate_keypair P r = ((a, A), r') \<Longrightarrow> length a = ECDH_KEY_SIZE \<and> A = x25519_public P a"
  using length_fill_bytes [of ECDH_KEY_SIZE r]
  by (cases "fill_bytes ECDH_KEY_SIZE r") (auto simp: x25519_generate_keypair_def simp del: length_fill_bytes)

interpretation x25519: key_exchange_contract "X25519KeyExchanger P" "x25519_ok P" for P
proof
  show "\<exists>s. kx_compute_shared_secret (X25519KeyExchanger P) a B = Ok s \<and>
      kx_compute_shared_secret (X25519KeyExchanger P) b A = Ok s"
    if "x25519_ok P" "kx_generate_keypair (X25519KeyExchanger P) r = ((a, A), r1)"
      "kx_generate_keypair (X25519KeyExchanger P) q = ((b, B), q1)" for r a A r1 q b B q1
    using that x25519_keypair [of P r a A r1] x25519_keypair [of P q b B q1]
    by (simp add: x25519_compute_shared_secret_def x25519_ok_def)
  show "length A = kx_key_size (X25519KeyExchanger P)"
    if "x25519_ok P" "kx_generate_keypair (X25519KeyExchanger P) r = ((a, A), r1)" for r a A r1
    using that x25519_keypair [of P r a A r1] by (simp add: x25519_ok_def)
qed (auto simp: x25519_compute_shared_secret_def)

end
