(* ===== verification/Protocol.thy ===== *)
theory Protocol
  imports Domain
begin

section \<open>The protocol codec (common/src/protocol.rs, common/src/proto.rs)\<close>

text \<open>
  The trait \<open>ProtocolCodec\<close> is a record; \<open>ProtobufCodec\<close> has one instance for each
  message type.  The generated protobuf coder is a parameter.  What it is known to do is
  stated by \<open>prost_ok\<close>: every message can be encoded, and a message whose strings are
  valid UTF-8 and whose enumeration numbers are in range, as those of every Rust value
  are, decodes to itself.  The locale
  \<open>codec_contract\<close> is what the secure channel relies on; \<open>canon\<close> is what of a message
  survives the wire.
\<close>

record 'm codec =
  cd_encode :: "'m \<Rightarrow> bytes res"
  cd_decode :: "bytes \<Rightarrow> 'm res"

record prost =
  prost_encode_request :: "request \<Rightarrow> string + bytes"
  prost_decode_request :: "bytes \<Rightarrow> string + request"
  prost_encode_response :: "response \<Rightarrow> string + bytes"
  prost_decode_response :: "bytes \<Rightarrow> string + response"

definition request_encode :: "prost \<Rightarrow> request \<Rightarrow> bytes res" where
  "request_encode P m = ok_or_err SerializationError (prost_encode_request P m)"

definition request_decode :: "prost \<Rightarrow> bytes \<Rightarrow> request res" where
  "request_decode P bs = ok_or_err SerializationError (prost_decode_request P bs)"

definition response_encode :: "prost \<Rightarrow> response \<Rightarrow> bytes res" where
  "response_encode P m = ok_or_err SerializationError (prost_encode_response P m)"

definition response_decode :: "prost \<Rightarrow> bytes \<Rightarrow> response res" where
  "response_decode P bs = ok_or_err SerializationError (prost_decode_response P bs)"

definition command_encode :: "prost \<Rightarrow> fenris_command \<Rightarrow> bytes res" where
  "command_encode P m = request_encode P (request_from_command m)"

definition command_decode :: "prost \<Rightarrow> bytes \<Rightarrow> fenris_command res" where
  "command_decode P bs = res_bind (request_decode P bs) command_try_from"

definition output_encode :: "prost \<Rightarrow> fenris_output \<Rightarrow> bytes res" where
  "output_encode P m = response_encode P (response_from_output m)"

definition output_decode :: "prost \<Rightarrow> bytes \<Rightarrow> fenris_output res" where
  "output_decode P bs = res_bind (response_decode P bs) output_try_from"

definition request_codec :: "prost \<Rightarrow> request codec" where
  "request_codec P = \<lparr>cd_encode = request_encode P, cd_decode = request_decode P\<rparr>"

definition response_codec :: "prost \<Rightarrow> response codec" where
  "response_codec P = \<lparr>cd_encode = response_encode P, cd_decode = response_decode P\<rparr>"

definition command_codec :: "prost \<Rightarrow> fenris_command codec" where
  "command_codec P = \<lparr>cd_encode = command_encode P, cd_decode = command_decode P\<rparr>"

definition output_codec :: "prost \<Rightarrow> fenris_output codec" where
  "output_codec P = \<lparr>cd_encode = output_encode P, cd_decode = output_decode P\<rparr>"

definition request_to_bytes :: "prost \<Rightarrow> request \<Rightarrow> bytes res" where
  "request_to_bytes P m = cd_encode (request_codec P) m"

definition request_from_bytes :: "prost \<Rightarrow> bytes \<Rightarrow> request res" where
  "request_from_bytes P bs = cd_decode (request_codec P) bs"

definition response_to_bytes :: "prost \<Rightarrow> response \<Rightarrow> bytes res" where
  "response_to_bytes P m = cd_encode (response_codec P) m"

definition response_from_bytes :: "prost \<Rightarrow> bytes \<Rightarrow> response res" where
  "response_from_bytes P bs = cd_decode (response_codec P) bs"

subsection \<open>The texts of a message\<close>

fun request_details_texts :: "request_details \<Rightarrow> string list" where
  "request_details_texts (ReqTransferStart t) = [ts_filename t]"
| "request_details_texts (ReqTransferChunk c) = []"

fun response_details_texts :: "response_details \<Rightarrow> string list" where
  "response_details_texts (RespFileInfo i) = [fi_name i]"
| "response_details_texts (RespDirectoryListing es) = map fi_name es"
| "response_details_texts (RespTransferAck a) = []"
| "response_details_texts (RespTransferChunk c) = []"

text \<open>The numbers of enumerations are \<open>i32\<close>.\<close>

definition i32_ok :: "int \<Rightarrow> bool" where
  "i32_ok c \<longleftrightarrow> - (2 ^ 31) \<le> c \<and> c < 2 ^ 31"

fun request_details_ok :: "request_details \<Rightarrow> bool" where
  "request_details_ok (ReqTransferStart t) = i32_ok (ts_mode t)"
| "request_details_ok (ReqTransferChunk c) = True"

definition request_text_ok :: "request \<Rightarrow> bool" where
  "request_text_ok r \<longleftrightarrow> i32_ok (req_command r) \<and> pred_option request_details_ok (req_details r) \<and>
     utf8_valid (req_filename r) \<and>
     list_all utf8_valid (case req_details r of None \<Rightarrow> [] | Some d \<Rightarrow> request_details_texts d)"

definition response_text_ok :: "response \<Rightarrow> bool" where
  "response_text_ok r \<longleftrightarrow> i32_ok (resp_type r) \<and> utf8_valid (resp_error_message r) \<and>
     list_all utf8_valid (case resp_details r of None \<Rightarrow> [] | Some d \<Rightarrow> response_details_texts d)"

text \<open>The \<open>String\<close>s of an output are valid UTF-8; its paths need not be.\<close>

fun output_text_ok :: "fenris_output \<Rightarrow> bool" where
  "output_text_ok (Success m) = utf8_valid m"
| "output_text_ok (ErrorOutput m) = utf8_valid m"
| "output_text_ok (ObjectInfoOutput i) = utf8_valid (md_name i)"
| "output_text_ok (NamespaceListing is) = list_all (\<lambda>i. utf8_valid (md_name i)) is"
| "output_text_ok _ = True"

lemma utf8_valid_Nil [simp]: "utf8_valid []"
  by (rule ascii_valid) (simp add: ascii_def)

lemma i32_ok_request_type [simp]: "i32_ok (request_type_code c)"
  by (cases c) (simp_all add: i32_ok_def request_type_code.simps)

lemma i32_ok_response_type [simp]: "i32_ok (response_type_code t)"
  by (cases t) (simp_all add: i32_ok_def response_type_code.simps)

lemma i32_ok_transfer_mode [simp]: "i32_ok (transfer_mode_code m)"
  by (cases m) (simp_all add: i32_ok_def transfer_mode_code.simps)

lemma request_from_command_text_ok: "request_text_ok (request_from_command c)"
  by (cases c) (simp_all add: request_text_ok_def mk_request_def request_with_details_def to_string_lossy_def)

lemma response_from_output_text_ok: "output_text_ok out \<Longrightarrow> response_text_ok (response_from_output out)"
  by (cases out) (auto simp: response_text_ok_def mk_response_def info_from_metadata_def list_all_iff)

subsection \<open>The codec's contract\<close>

definition prost_ok :: "prost \<Rightarrow> bool" where
  "prost_ok P \<longleftrightarrow>
     (\<forall>m. \<exists>bs. prost_encode_request P m = Inr bs \<and>
        (request_text_ok m \<longrightarrow> prost_decode_request P bs = Inr m)) \<and>
     (\<forall>m. \<exists>bs. prost_encode_response P m = Inr bs \<and>
        (response_text_ok m \<longrightarrow> prost_decode_response P bs = Inr m))"

text \<open>The size of an encoded message.  The variable part of a message is its strings and bytes,
  with 64 for each further entry of a listing; protobuf adds a tag and a length to every field
  and stores numbers in at most ten bytes, so the bounds leave room for more than that.\<close>

definition info_size :: "file_info \<Rightarrow> nat" where
  "info_size i = length (fi_name i) + 64"

fun request_details_size :: "request_details \<Rightarrow> nat" where
  "request_details_size (ReqTransferStart t) = length (ts_filename t)"
| "request_details_size (ReqTransferChunk c) = length (ptc_data c)"

fun response_details_size :: "response_details \<Rightarrow> nat" where
  "response_details_size (RespFileInfo i) = info_size i"
| "response_details_size (RespDirectoryListing es) = sum_list (map info_size es)"
| "response_details_size (RespTransferAck a) = 0"
| "response_details_size (RespTransferChunk c) = length (ptc_data c)"

definition request_size :: "request \<Rightarrow> nat" where
  "request_size r = length (req_filename r) + length (req_data r) +
     (case req_details r of None \<Rightarrow> 0 | Some d \<Rightarrow> request_details_size d)"

definition response_size :: "response \<Rightarrow> nat" where
  "response_size r = length (resp_error_message r) + length (resp_data r) +
     (case resp_details r of None \<Rightarrow> 0 | Some d \<Rightarrow> response_details_size d)"

definition prost_compact :: "prost \<Rightarrow> bool" where
  "prost_compact P \<longleftrightarrow>
     (\<forall>m bs. prost_encode_request P m = Inr bs \<longrightarrow> length bs \<le> 2 * request_size m + 128) \<and>
     (\<forall>m bs. prost_encode_response P m = Inr bs \<longrightarrow> length bs \<le> 2 * response_size m + 128)"

lemma prost_compact_lengths:
  assumes "prost_compact P"
  shows "command_encode P c = Ok bs \<Longrightarrow> length bs \<le> 2 * request_size (request_from_command c) + 128"
    and "output_encode P out = Ok bs \<Longrightarrow> length bs \<le> 2 * response_size (response_from_output out) + 128"
  using assms
  by (simp_all add: prost_compact_def command_encode_def request_encode_def output_encode_def response_encode_def
      ok_or_err_eq_Ok del: request_from_command.simps response_from_output.simps)

lemma prost_ok_request:
  "prost_ok P \<Longrightarrow> \<exists>bs. request_encode P m = Ok bs \<and> (request_text_ok m \<longrightarrow> request_decode P bs = Ok m)"
proof -
  assume "prost_ok P"
  then obtain bs where "prost_encode_request P m = Inr bs" "request_text_ok m \<longrightarrow> prost_decode_request P bs = Inr m"
    unfolding prost_ok_def by blast
  then show ?thesis by (auto simp: request_encode_def request_decode_def)
qed

lemma prost_ok_response:
  "prost_ok P \<Longrightarrow> \<exists>bs. response_encode P m = Ok bs \<and> (response_text_ok m \<longrightarrow> response_decode P bs = Ok m)"
proof -
  assume "prost_ok P"
  then obtain bs where "prost_encode_response P m = Inr bs" "response_text_ok m \<longrightarrow> prost_decode_response P bs = Inr m"
    unfolding prost_ok_def by blast
  then show ?thesis by (auto simp: response_encode_def response_decode_def)
qed

locale codec_contract =
  fixes K :: "'m codec" and valid :: "'m \<Rightarrow> bool" and canon :: "'m \<Rightarrow> 'm" and trusted :: bool
  assumes encode_total: "trusted \<Longrightarrow> \<exists>bs. cd_encode K m = Ok bs"
    and decode_encode: "trusted \<Longrightarrow> valid m \<Longrightarrow> cd_encode K m = Ok bs \<Longrightarrow> cd_decode K bs = Ok (canon m)"
    and encode_not_Panic: "cd_encode K m \<noteq> Panic"
begin

lemma encode_determines: "trusted \<Longrightarrow> valid m \<Longrightarrow> valid n \<Longrightarrow> cd_encode K m = cd_encode K n \<Longrightarrow> canon m = canon n"
  using encode_total [of m] decode_encode [of m] decode_encode [of n] by auto

end

lemma codec_simps [simp]:
  "cd_encode (request_codec P) = request_encode P" "cd_decode (request_codec P) = request_decode P"
  "cd_encode (response_codec P) = response_encode P" "cd_decode (response_codec P) = response_decode P"
  "cd_encode (command_codec P) = command_encode P" "cd_decode (command_codec P) = command_decode P"
  "cd_encode (output_codec P) = output_encode P" "cd_decode (output_codec P) = output_decode P"
  by (simp_all add: request_codec_def response_codec_def command_codec_def output_codec_def)

interpretation request_wire: codec_contract "request_codec P" request_text_ok "\<lambda>m. m" "prost_ok P" for P
proof
  show "\<exists>bs. cd_encode (request_codec P) m = Ok bs" if "prost_ok P" for m
    using prost_ok_request [OF that] by auto
  show "cd_decode (request_codec P) bs = Ok m"
    if "prost_ok P" "request_text_ok m" "cd_encode (request_codec P) m = Ok bs" for m bs
    using that prost_ok_request [of P m] by auto
qed (simp add: request_encode_def)

interpretation response_wire: codec_contract "response_codec P" response_text_ok "\<lambda>m. m" "prost_ok P" for P
proof
  show "\<exists>bs. cd_encode (response_codec P) m = Ok bs" if "prost_ok P" for m
    using prost_ok_response [OF that] by auto
  show "cd_decode (response_codec P) bs = Ok m"
    if "prost_ok P" "response_text_ok m" "cd_encode (response_codec P) m = Ok bs" for m bs
    using that prost_ok_response [of P m] by auto
qed (simp add: response_encode_def)

interpretation command_wire: codec_contract "command_codec P" "\<lambda>_. True" command_on_wire "prost_ok P" for P
proof
  show "\<exists>bs. cd_encode (command_codec P) m = Ok bs" if "prost_ok P" for m
    using prost_ok_request [OF that] by (auto simp: command_encode_def)
  show "cd_decode (command_codec P) bs = Ok (command_on_wire m)"
    if "prost_ok P" "cd_encode (command_codec P) m = Ok bs" for m bs
    using that request_wire.decode_encode [of P "request_from_command m" bs]
    by (simp add: command_encode_def command_decode_def request_from_command_text_ok command_wire_eq)
qed (simp add: command_encode_def request_encode_def)

interpretation output_wire: codec_contract "output_codec P" output_text_ok output_on_wire "prost_ok P" for P
proof
  show "\<exists>bs. cd_encode (output_codec P) m = Ok bs" if "prost_ok P" for m
    using prost_ok_response [OF that] by (auto simp: output_encode_def)
  show "cd_decode (output_codec P) bs = Ok (output_on_wire m)"
    if "prost_ok P" "output_text_ok m" "cd_encode (output_codec P) m = Ok bs" for m bs
    using that response_wire.decode_encode [of P "response_from_output m" bs]
    by (simp add: output_encode_def output_decode_def response_from_output_text_ok output_wire_eq)
qed (simp add: output_encode_def response_encode_def)

end
