(* ===== verification/Framing.thy ===== *)
theory Framing
  imports Fenris_Error
begin

section \<open>Length-prefixed frames (common/src/framing.rs, common/src/network.rs)\<close>

text \<open>
  A \<open>TcpStream\<close> as one end sees it: \<open>ts_in\<close> is what the peer will have sent before it
  closes, \<open>ts_out\<close> what this end has written, and \<open>ts_room\<close> bounds how much can still be
  written before the connection breaks (\<open>None\<close>: it does not break).  \<open>read_exact\<close> and
  \<open>write_all\<close> are tokio's: the first consumes the rest of the stream when it is too
  short, the second may get part of its data out before it fails.  The locale
  \<open>prefix_code\<close> is the argument for any length-prefix format; it is used here for the
  4-byte frames and in \<open>Identity\<close> for the 8-byte parts of the handshake transcript.
\<close>

record tcp_stream =
  ts_in :: bytes
  ts_out :: bytes
  ts_room :: "nat option"

definition read_exact :: "usize \<Rightarrow> (tcp_stream, bytes) action" where
  "read_exact n s =
     (if n \<le> length (ts_in s)
      then (Ok (take n (ts_in s)), s\<lparr>ts_in := drop n (ts_in s)\<rparr>)
      else (Err (NetworkError (IoError UnexpectedEof ''early eof'')), s\<lparr>ts_in := []\<rparr>))"

definition write_all :: "bytes \<Rightarrow> (tcp_stream, unit) action" where
  "write_all d s =
     (case ts_room s of
        None \<Rightarrow> (Ok (), s\<lparr>ts_out := ts_out s @ d\<rparr>)
      | Some k \<Rightarrow>
          if length d \<le> k then (Ok (), s\<lparr>ts_out := ts_out s @ d, ts_room := Some (k - length d)\<rparr>)
          else (Err (NetworkError (IoError BrokenPipe ''Broken pipe'')),
                s\<lparr>ts_out := ts_out s @ take k d, ts_room := Some 0\<rparr>))"

definition DEFAULT_MAX_FRAME_SIZE :: usize where
  "DEFAULT_MAX_FRAME_SIZE = 1024 * 1024"

record frame_limits =
  max_frame_size :: usize

definition frame_limits_default :: frame_limits where
  "frame_limits_default = \<lparr>max_frame_size = DEFAULT_MAX_FRAME_SIZE\<rparr>"

definition encode_len :: "usize \<Rightarrow> bytes res" where
  "encode_len n =
     (if n < 2 ^ 32 then Ok (u32_to_be_bytes (of_nat n))
      else Err (InvalidFrame ''frame length exceeds supported range''))"

text \<open>\<open>usize::try_from\<close> of a \<open>u32\<close> cannot fail on a 64-bit target.\<close>

definition decode_len :: "bytes \<Rightarrow> frame_limits \<Rightarrow> usize res" where
  "decode_len header limits =
     (let n = unat (u32_from_be_bytes header) in
      if max_frame_size limits < n then Err (FrameTooLarge (max_frame_size limits) n) else Ok n)"

definition frame_send :: "bytes \<Rightarrow> frame_limits \<Rightarrow> (tcp_stream, unit) action" where
  "frame_send d limits =
     (if max_frame_size limits < length d
      then state_lift (Err (FrameTooLarge (max_frame_size limits) (length d)))
      else
        state_bind (state_lift (encode_len (length d))) (\<lambda>length_buf.
        state_bind (write_all length_buf) (\<lambda>_.
        write_all d)))"

definition frame_receive :: "frame_limits \<Rightarrow> (tcp_stream, bytes) action" where
  "frame_receive limits =
     state_bind (read_exact 4) (\<lambda>length_buf.
     state_bind (state_lift (decode_len length_buf limits)) (\<lambda>n.
     read_exact n))"

definition send_prefixed_with_limits :: "bytes \<Rightarrow> frame_limits \<Rightarrow> (tcp_stream, unit) action" where
  "send_prefixed_with_limits d limits = frame_send d limits"

definition receive_prefixed_with_limits :: "frame_limits \<Rightarrow> (tcp_stream, bytes) action" where
  "receive_prefixed_with_limits limits = frame_receive limits"

definition send_prefixed :: "bytes \<Rightarrow> (tcp_stream, unit) action" where
  "send_prefixed d = send_prefixed_with_limits d frame_limits_default"

definition receive_prefixed :: "(tcp_stream, bytes) action" where
  "receive_prefixed = receive_prefixed_with_limits frame_limits_default"

subsection \<open>Any length-prefix format\<close>

locale prefix_code =
  fixes hdr :: "nat \<Rightarrow> bytes" and width :: nat and bound :: nat
  assumes hdr_length: "length (hdr n) = width"
    and hdr_inj: "m < bound \<Longrightarrow> n < bound \<Longrightarrow> hdr m = hdr n \<Longrightarrow> m = n"
begin

lemma framed_inj:
  assumes "length a < bound" "length b < bound"
    and "hdr (length a) @ a @ r = hdr (length b) @ b @ s"
  shows "a = b \<and> r = s"
proof -
  from assms(3) have "hdr (length a) = hdr (length b)" and rest: "a @ r = b @ s"
    by (simp_all add: hdr_length append_eq_append_conv)
  with assms(1,2) have "length a = length b" by (intro hdr_inj)
  with rest show ?thesis by simp
qed

lemma framed_list_inj:
  assumes "\<And>x. x \<in> set as \<union> set bs \<Longrightarrow> length x < bound" "length as = length bs"
    and "concat (map (\<lambda>x. hdr (length x) @ x) as) @ r = concat (map (\<lambda>x. hdr (length x) @ x) bs) @ s"
  shows "as = bs \<and> r = s"
  using assms(2,1,3)
proof (induction as bs rule: list_induct2)
  case Nil
  then show ?case by simp
next
  case (Cons a as b bs)
  have "a = b \<and> concat (map (\<lambda>x. hdr (length x) @ x) as) @ r = concat (map (\<lambda>x. hdr (length x) @ x) bs) @ s"
    using Cons.prems by (intro framed_inj) auto
  with Cons show ?case by auto
qed

end

lemma unat_of_nat_32: "n < 2 ^ 32 \<Longrightarrow> unat (of_nat n :: u32) = n"
  by (simp add: unat_of_nat)

lemma be_encode_4_inj:
  "m < 2 ^ 32 \<Longrightarrow> n < 2 ^ 32 \<Longrightarrow> u32_to_be_bytes (of_nat m) = u32_to_be_bytes (of_nat n) \<Longrightarrow> m = n"
  by (metis u32_be_bytes unat_of_nat_32)

interpretation frame4: prefix_code "\<lambda>n. u32_to_be_bytes (of_nat n)" 4 "2 ^ 32"
  by unfold_locales (simp, rule be_encode_4_inj)

subsection \<open>One frame\<close>

definition framed :: "bytes \<Rightarrow> bytes" where
  "framed d = u32_to_be_bytes (of_nat (length d)) @ d"

lemma decode_encode_len:
  "n < 2 ^ 32 \<Longrightarrow> decode_len (u32_to_be_bytes (of_nat n)) l =
     (if max_frame_size l < n then Err (FrameTooLarge (max_frame_size l) n) else Ok n)"
  using unat_of_nat_32 [of n] by (simp add: decode_len_def Let_def)

text \<open>Within the limits and on a connection that does not break, exactly the frame goes out.\<close>

lemma frame_send_eq:
  "ts_room s = None \<Longrightarrow> frame_send d l s =
     (if max_frame_size l < length d then (Err (FrameTooLarge (max_frame_size l) (length d)), s)
      else if 2 ^ 32 \<le> length d then (Err (InvalidFrame ''frame length exceeds supported range''), s)
      else (Ok (), s\<lparr>ts_out := ts_out s @ framed d\<rparr>))"
  by (simp add: frame_send_def encode_len_def write_all_def framed_def)

lemma frame_send_Ok:
  assumes "frame_send d l s = (Ok u, s')"
  shows "length d \<le> max_frame_size l \<and> length d < 2 ^ 32 \<and> ts_out s' = ts_out s @ framed d \<and> ts_in s' = ts_in s"
  using assms
  by (auto simp: frame_send_def encode_len_def write_all_def framed_def state_bind_eq_Ok
      split: if_splits option.splits)

text \<open>When the connection breaks, what went out is a strict prefix of the frame.\<close>

lemma frame_send_Err:
  assumes "frame_send d l s = (Err e, s')"
  shows "ts_in s' = ts_in s \<and> (\<exists>k < length (framed d). ts_out s' = ts_out s @ take k (framed d))"
proof (cases "max_frame_size l < length d \<or> 2 ^ 32 \<le> length d")
  case True
  with assms have "s' = s"
    by (auto simp: frame_send_def encode_len_def split: if_splits)
  then show ?thesis by (auto simp: framed_def intro!: exI [of _ 0])
next
  case False
  then obtain k where room: "ts_room s = Some k"
    using assms frame_send_eq [of s d l] by (cases "ts_room s") auto
  show ?thesis
  proof (cases "k < 4")
    case True
    with False room assms show ?thesis
      by (auto simp: frame_send_def encode_len_def write_all_def framed_def intro!: exI [of _ k])
  next
    case hdr: False
    with False room assms have "k - 4 < length d" "s' = s\<lparr>ts_out := ts_out s @ take k (framed d), ts_room := Some 0\<rparr>"
      by (auto simp: frame_send_def encode_len_def write_all_def framed_def split: if_splits)
    with hdr show ?thesis by (auto simp: framed_def intro!: exI [of _ k])
  qed
qed

lemma frame_send_not_Panic [simp]: "fst (frame_send d l s) \<noteq> Panic"
  by (auto simp: frame_send_def encode_len_def write_all_def state_bind_def split: option.splits)

lemma frame_receive_not_Panic [simp]: "fst (frame_receive l s) \<noteq> Panic"
  by (auto simp: frame_receive_def read_exact_def decode_len_def Let_def state_bind_def)

lemma frame_receive_framed:
  assumes "ts_in s = framed d @ rest" "length d < 2 ^ 32" "length d \<le> max_frame_size l"
  shows "frame_receive l s = (Ok d, s\<lparr>ts_in := rest\<rparr>)"
  using assms decode_encode_len [of "length d" l]
  by (simp add: frame_receive_def read_exact_def framed_def)

text \<open>An oversized frame is refused after its header: the payload is never read.\<close>

lemma frame_receive_too_large:
  assumes "ts_in s = u32_to_be_bytes (of_nat n) @ rest" "n < 2 ^ 32" "max_frame_size l < n"
  shows "frame_receive l s = (Err (FrameTooLarge (max_frame_size l) n), s\<lparr>ts_in := rest\<rparr>)"
  using assms decode_encode_len [of n l]
  by (simp add: frame_receive_def read_exact_def)

lemma frame_receive_Ok:
  assumes "frame_receive l s = (Ok d, s')"
  shows "length d \<le> max_frame_size l \<and> length d < 2 ^ 32 \<and> ts_in s = framed d @ ts_in s' \<and> ts_out s' = ts_out s"
proof -
  obtain h r where h: "ts_in s = h @ r" "length h = 4" "length (ts_in s) \<ge> 4"
    and n: "decode_len h l = Ok (length d)" "d = take (length d) r" "s' = s\<lparr>ts_in := drop (length d) r\<rparr>"
      "length d \<le> length r"
    using assms that [of "take 4 (ts_in s)" "drop 4 (ts_in s)"]
    by (auto simp: frame_receive_def state_bind_eq_Ok read_exact_def split: if_splits)
  have "u32_to_be_bytes (u32_from_be_bytes h) = h"
    using be_encode_decode [of h] be_decode_less [of h] h(2)
    by (simp add: u32_to_be_bytes_def u32_from_be_bytes_def unat_of_nat)
  moreover have "length d = unat (u32_from_be_bytes h)" "length d \<le> max_frame_size l"
    using n(1) by (simp_all add: decode_len_def Let_def split: if_splits)
  moreover have "d @ drop (length d) r = r" by (metis n(2) append_take_drop_id)
  ultimately show ?thesis
    using h(1) n(3) unat_u32_less [of "u32_from_be_bytes h"] by (simp add: framed_def)
qed

subsection \<open>A sequence of frames\<close>

fun frames_send :: "bytes list \<Rightarrow> frame_limits \<Rightarrow> (tcp_stream, unit) action" where
  "frames_send [] l = state_return ()"
| "frames_send (d # ds) l = state_bind (frame_send d l) (\<lambda>_. frames_send ds l)"

fun frames_receive :: "nat \<Rightarrow> frame_limits \<Rightarrow> (tcp_stream, bytes list) action" where
  "frames_receive 0 l = state_return []"
| "frames_receive (Suc n) l =
     state_bind (frame_receive l) (\<lambda>d.
     state_bind (frames_receive n l) (\<lambda>ds. state_return (d # ds)))"

lemma frames_send_Ok:
  "frames_send ds l s = (Ok u, s') \<Longrightarrow>
     ts_out s' = ts_out s @ concat (map framed ds) \<and> ts_in s' = ts_in s \<and>
     (\<forall>d \<in> set ds. length d \<le> max_frame_size l \<and> length d < 2 ^ 32)"
proof (induction ds arbitrary: s)
  case Nil
  then show ?case by simp
next
  case (Cons d ds)
  then obtain s1 where "frame_send d l s = (Ok (), s1)" "frames_send ds l s1 = (Ok u, s')"
    by (auto simp: state_bind_eq_Ok)
  with Cons.IH [of s1] frame_send_Ok [of d l s "()" s1] show ?case by auto
qed

lemma frames_receive_framed:
  "ts_in s = concat (map framed ds) @ rest \<Longrightarrow>
   \<forall>d \<in> set ds. length d < 2 ^ 32 \<and> length d \<le> max_frame_size l \<Longrightarrow>
   frames_receive (length ds) l s = (Ok ds, s\<lparr>ts_in := rest\<rparr>)"
proof (induction ds arbitrary: s)
  case Nil
  then show ?case by simp
next
  case (Cons d ds)
  have "frame_receive l s = (Ok d, s\<lparr>ts_in := concat (map framed ds) @ rest\<rparr>)"
    using Cons.prems by (intro frame_receive_framed) auto
  moreover have "frames_receive (length ds) l (s\<lparr>ts_in := concat (map framed ds) @ rest\<rparr>) =
      (Ok ds, s\<lparr>ts_in := rest\<rparr>)"
    using Cons.IH [of "s\<lparr>ts_in := concat (map framed ds) @ rest\<rparr>"] Cons.prems(2) by simp
  ultimately show ?case by simp
qed

end
