(* ===== verification/Identity.thy ===== *)
theory Identity
  imports Framing Paths
begin

section \<open>The server's identity (common/src/identity.rs)\<close>

text \<open>
  Key material, the transcript that the server signs, and the key files.  Ed25519 and the
  hex coder are parameters (\<open>identity_primitives\<close>), and so is the file system
  (\<open>std_fs\<close>, over a state \<open>'f\<close>).  A signing key is its 32 secret bytes.  The transcript
  is a list of parts, each preceded by its 8-byte length: an instance of \<open>prefix_code\<close>,
  so a transcript determines the parts it was built from.
\<close>

definition SERVER_IDENTITY_KEY_SIZE :: usize where "SERVER_IDENTITY_KEY_SIZE = 32"
definition SERVER_IDENTITY_SIGNATURE_SIZE :: usize where "SERVER_IDENTITY_SIGNATURE_SIZE = 64"

definition SERVER_IDENTITY_TRANSCRIPT_LABEL :: bytes where
  "SERVER_IDENTITY_TRANSCRIPT_LABEL = bytes_of ''fenris-server-identity-v1''"

definition AUTHENTICATED_KDF_CONTEXT_LABEL :: bytes where
  "AUTHENTICATED_KDF_CONTEXT_LABEL = bytes_of ''fenris-authenticated-kdf-v1''"

record identity_primitives =
  ed25519_public :: "bytes \<Rightarrow> bytes"
  ed25519_sign :: "bytes \<Rightarrow> bytes \<Rightarrow> bytes"
  ed25519_valid_key :: "bytes \<Rightarrow> bool"
  ed25519_verify :: "bytes \<Rightarrow> bytes \<Rightarrow> bytes \<Rightarrow> bool"
  ed25519_generate :: "nat \<Rightarrow> bytes"
  hex_encode :: "bytes \<Rightarrow> string"
  hex_decode :: "string \<Rightarrow> string + bytes"

record 'f std_fs =
  fs_exists :: "path \<Rightarrow> 'f \<Rightarrow> bool"
  fs_read_to_string :: "path \<Rightarrow> 'f \<Rightarrow> string + string"
  fs_create_dir_all :: "path \<Rightarrow> 'f \<Rightarrow> (string + unit) \<times> 'f"
  fs_write :: "path \<Rightarrow> string \<Rightarrow> 'f \<Rightarrow> (string + unit) \<times> 'f"

record server_identity_key =
  signing_key :: bytes

record server_identity_public_key =
  identity_bytes :: bytes

subsection \<open>Key material\<close>

definition key_bytes :: "bytes \<Rightarrow> bytes res" where
  "key_bytes bs = (if length bs = SERVER_IDENTITY_KEY_SIZE then Ok bs else Err InvalidProtocolMessage)"

definition signature_bytes :: "bytes \<Rightarrow> bytes res" where
  "signature_bytes bs =
     (if length bs = SERVER_IDENTITY_SIGNATURE_SIZE then Ok bs else Err InvalidProtocolMessage)"

definition decode_hex :: "identity_primitives \<Rightarrow> string \<Rightarrow> bytes res" where
  "decode_hex I encoded = ok_or_err (\<lambda>_. InvalidProtocolMessage) (hex_decode I (trim encoded))"

text \<open>The random source is asked for a fresh key by a counter.\<close>

definition key_generate :: "identity_primitives \<Rightarrow> nat \<Rightarrow> server_identity_key" where
  "key_generate I seed = \<lparr>signing_key = ed25519_generate I seed\<rparr>"

definition key_from_slice :: "bytes \<Rightarrow> server_identity_key res" where
  "key_from_slice bs = res_bind (key_bytes bs) (\<lambda>k. Ok \<lparr>signing_key = k\<rparr>)"

definition key_from_hex :: "identity_primitives \<Rightarrow> string \<Rightarrow> server_identity_key res" where
  "key_from_hex I encoded = res_bind (decode_hex I encoded) key_from_slice"

definition key_to_hex :: "identity_primitives \<Rightarrow> server_identity_key \<Rightarrow> string" where
  "key_to_hex I k = hex_encode I (signing_key k)"

definition public_key :: "identity_primitives \<Rightarrow> server_identity_key \<Rightarrow> server_identity_public_key" where
  "public_key I k = \<lparr>identity_bytes = ed25519_public I (signing_key k)\<rparr>"

definition sign_transcript :: "identity_primitives \<Rightarrow> server_identity_key \<Rightarrow> bytes \<Rightarrow> bytes" where
  "sign_transcript I k transcript = ed25519_sign I (signing_key k) transcript"

definition public_from_slice :: "identity_primitives \<Rightarrow> bytes \<Rightarrow> server_identity_public_key res" where
  "public_from_slice I bs =
     res_bind (key_bytes bs) (\<lambda>b.
       if ed25519_valid_key I b then Ok \<lparr>identity_bytes = b\<rparr> else Err InvalidProtocolMessage)"

definition public_from_hex :: "identity_primitives \<Rightarrow> string \<Rightarrow> server_identity_public_key res" where
  "public_from_hex I encoded = res_bind (decode_hex I encoded) (public_from_slice I)"

definition public_to_hex :: "identity_primitives \<Rightarrow> server_identity_public_key \<Rightarrow> string" where
  "public_to_hex I k = hex_encode I (identity_bytes k)"

definition verify_transcript ::
  "identity_primitives \<Rightarrow> server_identity_public_key \<Rightarrow> bytes \<Rightarrow> bytes \<Rightarrow> unit res" where
  "verify_transcript I k transcript signature =
     res_bind (signature_bytes signature) (\<lambda>sig.
       if \<not> ed25519_valid_key I (identity_bytes k) then Err InvalidProtocolMessage
       else if ed25519_verify I (identity_bytes k) transcript sig then Ok ()
       else Err (AuthenticationError ''server identity signature verification failed''))"

subsection \<open>The transcript\<close>

definition append_transcript_part :: "bytes \<Rightarrow> bytes \<Rightarrow> bytes" where
  "append_transcript_part out part = (out @ u64_to_be_bytes (len_u64 part)) @ part"

definition server_identity_transcript ::
  "bytes \<Rightarrow> bytes \<Rightarrow> server_identity_public_key \<Rightarrow> bytes \<Rightarrow> bytes" where
  "server_identity_transcript client_ephemeral server_ephemeral identity kdf_context =
     (let t = append_transcript_part [] SERVER_IDENTITY_TRANSCRIPT_LABEL;
          t = append_transcript_part t client_ephemeral;
          t = append_transcript_part t server_ephemeral;
          t = append_transcript_part t (identity_bytes identity);
          t = append_transcript_part t kdf_context
      in t)"

definition authenticated_kdf_context :: "bytes \<Rightarrow> bytes" where
  "authenticated_kdf_context transcript =
     (let c = append_transcript_part [] AUTHENTICATED_KDF_CONTEXT_LABEL;
          c = append_transcript_part c transcript
      in c)"

subsection \<open>Key files\<close>

definition key_load_from_file ::
  "identity_primitives \<Rightarrow> 'f std_fs \<Rightarrow> path \<Rightarrow> 'f \<Rightarrow> server_identity_key res" where
  "key_load_from_file I F p f =
     res_bind (ok_or_err (\<lambda>e. FileOperationError
         (''Failed to read server identity key '' @ to_string_lossy p @ '': '' @ e))
       (fs_read_to_string F p f)) (\<lambda>encoded. key_from_hex I (trim encoded))"

definition key_save_to_file ::
  "identity_primitives \<Rightarrow> 'f std_fs \<Rightarrow> server_identity_key \<Rightarrow> path \<Rightarrow> ('f, unit) action" where
  "key_save_to_file I F k p =
     state_bind
       (case parent p of
          Some q \<Rightarrow>
            if q \<noteq> [] then
              (\<lambda>f. let (r, f') = fs_create_dir_all F q f in
                (ok_or_err (\<lambda>e. FileOperationError
                   (''Failed to create server identity key directory '' @ to_string_lossy q @ '': '' @ e)) r, f'))
            else state_return ()
        | None \<Rightarrow> state_return ())
       (\<lambda>_ f. let (r, f') = fs_write F p (key_to_hex I k @ [CHR 0x0A]) f in
          (ok_or_err (\<lambda>e. FileOperationError
             (''Failed to write server identity key '' @ to_string_lossy p @ '': '' @ e)) r, f'))"

definition load_or_generate ::
  "identity_primitives \<Rightarrow> 'f std_fs \<Rightarrow> nat \<Rightarrow> path \<Rightarrow> ('f, server_identity_key) action" where
  "load_or_generate I F seed p f =
     (if fs_exists F p f then (key_load_from_file I F p f, f)
      else state_bind (key_save_to_file I F (key_generate I seed) p)
             (\<lambda>_. state_return (key_generate I seed)) f)"

definition public_load_from_file ::
  "identity_primitives \<Rightarrow> 'f std_fs \<Rightarrow> path \<Rightarrow> 'f \<Rightarrow> server_identity_public_key res" where
  "public_load_from_file I F p f =
     res_bind (ok_or_err (\<lambda>e. FileOperationError
         (''Failed to read pinned server identity '' @ to_string_lossy p @ '': '' @ e))
       (fs_read_to_string F p f)) (\<lambda>encoded. public_from_hex I (trim encoded))"

definition from_hex_or_file ::
  "identity_primitives \<Rightarrow> 'f std_fs \<Rightarrow> string \<Rightarrow> 'f \<Rightarrow> server_identity_public_key res" where
  "from_hex_or_file I F input f =
     (if fs_exists F input f then public_load_from_file I F input f else public_from_hex I input)"

subsection \<open>A transcript determines its parts\<close>

lemma be_encode_8_inj:
  "m < 2 ^ 64 \<Longrightarrow> n < 2 ^ 64 \<Longrightarrow> u64_to_be_bytes (of_nat m) = u64_to_be_bytes (of_nat n) \<Longrightarrow> m = n"
  unfolding u64_to_be_bytes_def
  by (drule be_encode_inj) (simp_all add: unat_of_nat_64)

interpretation part8: prefix_code "\<lambda>n. u64_to_be_bytes (of_nat n)" 8 "2 ^ 64"
  by unfold_locales (simp, rule be_encode_8_inj)

lemma transcript_parts:
  "server_identity_transcript c s i k =
     concat (map (\<lambda>x. u64_to_be_bytes (of_nat (length x)) @ x)
       [SERVER_IDENTITY_TRANSCRIPT_LABEL, c, s, identity_bytes i, k])"
  by (simp add: server_identity_transcript_def append_transcript_part_def len_u64_def)

lemma kdf_context_parts:
  "authenticated_kdf_context t =
     concat (map (\<lambda>x. u64_to_be_bytes (of_nat (length x)) @ x) [AUTHENTICATED_KDF_CONTEXT_LABEL, t])"
  by (simp add: authenticated_kdf_context_def append_transcript_part_def len_u64_def)

lemma label_lengths [simp]:
  "length SERVER_IDENTITY_TRANSCRIPT_LABEL = 25" "length AUTHENTICATED_KDF_CONTEXT_LABEL = 27"
  by (simp_all add: SERVER_IDENTITY_TRANSCRIPT_LABEL_def AUTHENTICATED_KDF_CONTEXT_LABEL_def)

lemma transcript_inj:
  assumes "vec_ok c" "vec_ok s" "vec_ok (identity_bytes i)" "vec_ok k"
    "vec_ok c'" "vec_ok s'" "vec_ok (identity_bytes i')" "vec_ok k'"
    and "server_identity_transcript c s i k = server_identity_transcript c' s' i' k'"
  shows "c = c' \<and> s = s' \<and> i = i' \<and> k = k'"
proof -
  have "[SERVER_IDENTITY_TRANSCRIPT_LABEL, c, s, identity_bytes i, k] =
      [SERVER_IDENTITY_TRANSCRIPT_LABEL, c', s', identity_bytes i', k'] \<and> ([] :: bytes) = []"
    using assms by (intro part8.framed_list_inj) (auto simp: transcript_parts vec_ok_def)
  then show ?thesis by (simp add: server_identity_public_key.equality)
qed

lemma kdf_context_inj:
  assumes "vec_ok t" "vec_ok t'" "authenticated_kdf_context t = authenticated_kdf_context t'"
  shows "t = t'"
proof -
  have "[AUTHENTICATED_KDF_CONTEXT_LABEL, t] = [AUTHENTICATED_KDF_CONTEXT_LABEL, t'] \<and> ([] :: bytes) = []"
    using assms by (intro part8.framed_list_inj) (auto simp: kdf_context_parts vec_ok_def)
  then show ?thesis by simp
qed

subsection \<open>Keys survive their files\<close>

text \<open>What is documented of the primitives: keys and signatures have their sizes, a public
  key of a secret key is valid and verifies its signatures; hex text is lower-case
  hexadecimal and decodes to what was encoded.\<close>

definition ed25519_ok :: "identity_primitives \<Rightarrow> bool" where
  "ed25519_ok I \<longleftrightarrow>
     (\<forall>k. length k = SERVER_IDENTITY_KEY_SIZE \<longrightarrow>
        length (ed25519_public I k) = SERVER_IDENTITY_KEY_SIZE \<and> ed25519_valid_key I (ed25519_public I k) \<and>
        (\<forall>m. length (ed25519_sign I k m) = SERVER_IDENTITY_SIGNATURE_SIZE \<and>
             ed25519_verify I (ed25519_public I k) m (ed25519_sign I k m))) \<and>
     (\<forall>n. length (ed25519_generate I n) = SERVER_IDENTITY_KEY_SIZE)"

definition hex_ok :: "identity_primitives \<Rightarrow> bool" where
  "hex_ok I \<longleftrightarrow> (\<forall>bs. hex_decode I (hex_encode I bs) = Inr bs \<and>
     set (hex_encode I bs) \<subseteq> set ''0123456789abcdef'')"

text \<open>A file that was written is there and reads back.\<close>

definition std_fs_ok :: "'f std_fs \<Rightarrow> bool" where
  "std_fs_ok F \<longleftrightarrow> (\<forall>p t f f'. utf8_valid t \<longrightarrow> fs_write F p t f = (Inr (), f') \<longrightarrow>
     fs_exists F p f' \<and> fs_read_to_string F p f' = Inr t)"

text \<open>\<open>trim\<close> takes the line end off a hexadecimal text and leaves the text alone.\<close>

definition plain :: "string \<Rightarrow> bool" where
  "plain t \<longleftrightarrow> ascii t \<and> (\<forall>c \<in> set t. \<not> is_whitespace [c])"

lemma dropWhile_plain: "plain t \<Longrightarrow> dropWhile is_whitespace (map (\<lambda>c. [c]) t) = map (\<lambda>c. [c]) t"
  by (cases t) (auto simp: plain_def)

lemma plain_rev: "plain (rev t) \<longleftrightarrow> plain t"
  by (simp add: plain_def ascii_def)

lemma concat_singletons: "concat (map (\<lambda>c. [c]) t) = t"
  by (induction t) simp_all

lemma plain_ascii: "plain t \<Longrightarrow> ascii t"
  by (simp add: plain_def)

lemma trim_plain: "plain t \<Longrightarrow> trim t = t"
  using dropWhile_plain [of t] dropWhile_plain [of "rev t"]
  by (simp add: trim_def ascii_chars plain_ascii plain_rev concat_singletons flip: rev_map)

lemma newline_whitespace: "is_whitespace [CHR 0x0A]"
  by (simp add: is_whitespace_def code_of_def)

lemma trim_line: "plain t \<Longrightarrow> trim (t @ [CHR 0x0A]) = t"
proof -
  assume t: "plain t"
  then have "ascii (t @ [CHR 0x0A])" by (simp add: plain_def ascii_def code_of_def)
  then have chars: "utf8_chars (t @ [CHR 0x0A]) = map (\<lambda>c. [c]) t @ [[CHR 0x0A]]"
    by (simp add: ascii_chars)
  show ?thesis
  proof (cases t)
    case Nil
    then show ?thesis using chars newline_whitespace by (simp add: trim_def)
  next
    case (Cons c cs)
    with t have "\<not> is_whitespace [c]" by (simp add: plain_def)
    with Cons t chars newline_whitespace dropWhile_plain [of "rev t"] plain_rev [of t] concat_singletons [of t]
    show ?thesis by (simp add: trim_def flip: rev_map)
  qed
qed

lemma hex_plain: "hex_ok I \<Longrightarrow> plain (hex_encode I bs)"
proof -
  assume "hex_ok I"
  then have "set (hex_encode I bs) \<subseteq> set ''0123456789abcdef''" by (simp add: hex_ok_def)
  moreover have "code_of c < 128 \<and> \<not> is_whitespace [c]" if "c \<in> set ''0123456789abcdef''" for c
    using that by (auto simp: code_of_def is_whitespace_def)
  ultimately show ?thesis by (auto simp: plain_def ascii_def)
qed

lemma decode_hex_encode: "hex_ok I \<Longrightarrow> decode_hex I (hex_encode I bs) = Ok bs"
  by (simp add: decode_hex_def trim_plain hex_plain) (simp add: hex_ok_def)

lemma key_hex_roundtrip:
  "hex_ok I \<Longrightarrow> length (signing_key k) = SERVER_IDENTITY_KEY_SIZE \<Longrightarrow> key_from_hex I (key_to_hex I k) = Ok k"
  by (simp add: key_from_hex_def key_to_hex_def decode_hex_encode key_from_slice_def key_bytes_def)

lemma public_hex_roundtrip:
  "hex_ok I \<Longrightarrow> length (identity_bytes k) = SERVER_IDENTITY_KEY_SIZE \<Longrightarrow>
   ed25519_valid_key I (identity_bytes k) \<Longrightarrow> public_from_hex I (public_to_hex I k) = Ok k"
  by (simp add: public_from_hex_def public_to_hex_def decode_hex_encode public_from_slice_def key_bytes_def)

lemma key_file_roundtrip:
  assumes "hex_ok I" "std_fs_ok F" "length (signing_key k) = SERVER_IDENTITY_KEY_SIZE"
    and "key_save_to_file I F k p f = (Ok u, f')"
  shows "fs_exists F p f' \<and> key_load_from_file I F p f' = Ok k"
proof -
  let ?t = "key_to_hex I k @ [CHR 0x0A]"
  have plain: "plain (key_to_hex I k)" using assms(1) by (simp add: key_to_hex_def hex_plain)
  then have valid: "utf8_valid ?t"
    by (intro ascii_valid) (simp add: plain_def ascii_def code_of_def)
  obtain f1 where f1: "(let (r, f') = fs_write F p ?t f1 in
      (ok_or_err (\<lambda>e. FileOperationError
         (''Failed to write server identity key '' @ to_string_lossy p @ '': '' @ e)) r, f')) = (Ok u, f')"
    using assms(4) unfolding key_save_to_file_def state_bind_eq_Ok by blast
  then have "fs_write F p ?t f1 = (Inr (), f')"
    by (cases "fs_write F p ?t f1") (simp add: ok_or_err_eq_Ok)
  with valid assms(2) have "fs_exists F p f'" "fs_read_to_string F p f' = Inr ?t"
    by (auto simp: std_fs_ok_def)
  with assms(1,3) plain show ?thesis
    by (simp add: key_load_from_file_def trim_line key_hex_roundtrip)
qed

lemma load_or_generate_stable:
  assumes "hex_ok I" "ed25519_ok I" "std_fs_ok F" "load_or_generate I F seed p f = (Ok k, f')"
  shows "load_or_generate I F seed' p f' = (Ok k, f')"
proof (cases "fs_exists F p f")
  case True
  with assms(4) show ?thesis by (auto simp: load_or_generate_def)
next
  case False
  with assms(4) have k: "k = key_generate I seed" and save: "key_save_to_file I F k p f = (Ok (), f')"
    by (auto simp: load_or_generate_def state_bind_eq_Ok)
  have "length (signing_key k) = SERVER_IDENTITY_KEY_SIZE"
    using assms(2) k by (simp add: key_generate_def ed25519_ok_def)
  from key_file_roundtrip [OF assms(1,3) this save] show ?thesis
    by (simp add: load_or_generate_def)
qed

lemma sign_verify:
  assumes "ed25519_ok I" "length (signing_key k) = SERVER_IDENTITY_KEY_SIZE"
  shows "public_from_slice I (identity_bytes (public_key I k)) = Ok (public_key I k)"
    and "verify_transcript I (public_key I k) t (sign_transcript I k t) = Ok ()"
  using assms
  by (simp_all add: ed25519_ok_def public_from_slice_def key_bytes_def public_key_def
      verify_transcript_def sign_transcript_def signature_bytes_def)

end
