(* ===== verification/Secure_Channel.thy ===== *)
theory Secure_Channel
  imports Framing Compression Crypto Protocol Identity
begin

section \<open>The secure channel (common/src/secure_channel.rs, common/src/config.rs)\<close>

text \<open>
  A channel is a stream, a session key and the two managers its configuration gives it.
  The handshakes run over the stream and the random source, in the code's order of reads
  and writes.  The theorems: two honest ends agree on the key; an authenticated client
  accepts only a peer that proved the pinned identity over this very exchange; and what
  one end sends the other receives, message by message, in order.
\<close>

subsection \<open>Configuration\<close>

record channel_config =
  cfg_crypto :: crypto_manager
  cfg_compression :: compression_manager

definition DefaultSuite_crypto :: "crypto_primitives \<Rightarrow> crypto_manager" where
  "DefaultSuite_crypto P =
     \<lparr>cm_encryptor = AesGcmEncryptor P, cm_key_exchanger = X25519KeyExchanger P,
      cm_key_deriver = HkdfSha256Deriver P \<lparr>hk_salt = []\<rparr>\<rparr>"

definition DefaultSuite_compression :: compression_manager where
  "DefaultSuite_compression = compression_manager_new NullCompressor"

definition Zlib_compression :: "compression_library \<Rightarrow> compression_manager" where
  "Zlib_compression L = compression_manager_new (ZlibCompressor L (zlib_compressor_new L))"

definition ZlibWithLevel_compression :: "compression_library \<Rightarrow> u32 \<Rightarrow> compression_manager" where
  "ZlibWithLevel_compression L level =
     compression_manager_new (ZlibCompressor L (zlib_compressor_with_level level))"

definition Zstd_compression :: "compression_library \<Rightarrow> compression_manager" where
  "Zstd_compression L = compression_manager_new (ZstdCompressor L (zstd_compressor_new L))"

definition ZstdWithLevel_compression :: "compression_library \<Rightarrow> int \<Rightarrow> compression_manager" where
  "ZstdWithLevel_compression L level =
     compression_manager_new (ZstdCompressor L (zstd_compressor_with_level level))"

definition Config :: "crypto_primitives \<Rightarrow> channel_config" where
  "Config P = \<lparr>cfg_crypto = DefaultSuite_crypto P, cfg_compression = DefaultSuite_compression\<rparr>"

subsection \<open>The channel and its handshakes\<close>

definition DEFAULT_KDF_CONTEXT :: bytes where
  "DEFAULT_KDF_CONTEXT = bytes_of ''fenris-aes-key''"

record secure_channel =
  sc_stream :: tcp_stream
  sc_key :: bytes
  sc_crypto :: crypto_manager
  sc_compressor :: compression_manager

definition secure_channel_new ::
  "tcp_stream \<Rightarrow> bytes \<Rightarrow> crypto_manager \<Rightarrow> compression_manager \<Rightarrow> secure_channel" where
  "secure_channel_new s key cm cp =
     \<lparr>sc_stream = s, sc_key = key, sc_crypto = cm, sc_compressor = cp\<rparr>"

type_synonym wire = "tcp_stream \<times> rng"

definition on_stream :: "(tcp_stream, 'a) action \<Rightarrow> (wire, 'a) action" where
  "on_stream act = (\<lambda>(s, r). let (x, s') = act s in (x, (s', r)))"

definition draw_keypair :: "crypto_manager \<Rightarrow> (wire, bytes \<times> bytes) action" where
  "draw_keypair cm = (\<lambda>(s, r). let (kp, r') = cm_generate_keypair cm r in (Ok kp, (s, r')))"

text \<open>The stream moves into the channel that a handshake returns.\<close>

definition finish_channel :: "channel_config \<Rightarrow> bytes \<Rightarrow> (wire, secure_channel) action" where
  "finish_channel cfg key =
     (\<lambda>(s, r). (Ok (secure_channel_new s key (cfg_crypto cfg) (cfg_compression cfg)), (s, r)))"

definition client_handshake_with_context ::
  "channel_config \<Rightarrow> bytes \<Rightarrow> (wire, secure_channel) action" where
  "client_handshake_with_context cfg context =
     state_bind (draw_keypair (cfg_crypto cfg)) (\<lambda>(private_key, public_key).
     state_bind (on_stream (send_prefixed public_key)) (\<lambda>_.
     state_bind (on_stream receive_prefixed) (\<lambda>server_public_key.
     state_bind (state_lift (cm_compute_shared_secret (cfg_crypto cfg) private_key server_public_key)) (\<lambda>shared_secret.
     state_bind (state_lift (cm_derive_key (cfg_crypto cfg) shared_secret context)) (\<lambda>key.
     finish_channel cfg key)))))"

definition client_handshake :: "channel_config \<Rightarrow> (wire, secure_channel) action" where
  "client_handshake cfg = client_handshake_with_context cfg DEFAULT_KDF_CONTEXT"

definition client_handshake_authenticated_with_context ::
  "identity_primitives \<Rightarrow> channel_config \<Rightarrow> server_identity_public_key \<Rightarrow> bytes \<Rightarrow> (wire, secure_channel) action" where
  "client_handshake_authenticated_with_context I cfg expected_server_identity context =
     state_bind (draw_keypair (cfg_crypto cfg)) (\<lambda>(private_key, public_key).
     state_bind (on_stream (send_prefixed public_key)) (\<lambda>_.
     state_bind (on_stream receive_prefixed) (\<lambda>server_public_key.
     state_bind (on_stream receive_prefixed) (\<lambda>identity_slice.
     state_bind (state_lift (public_from_slice I identity_slice)) (\<lambda>server_identity.
     state_bind (on_stream receive_prefixed) (\<lambda>signature.
     if server_identity \<noteq> expected_server_identity
     then state_lift (Err (AuthenticationError ''server identity did not match pinned key''))
     else
       let transcript = server_identity_transcript public_key server_public_key server_identity context in
       state_bind (state_lift (verify_transcript I server_identity transcript signature)) (\<lambda>_.
       state_bind (state_lift (cm_compute_shared_secret (cfg_crypto cfg) private_key server_public_key)) (\<lambda>shared_secret.
       state_bind (state_lift (cm_derive_key (cfg_crypto cfg) shared_secret (authenticated_kdf_context transcript))) (\<lambda>key.
       finish_channel cfg key)))))))))"

definition client_handshake_authenticated ::
  "identity_primitives \<Rightarrow> channel_config \<Rightarrow> server_identity_public_key \<Rightarrow> (wire, secure_channel) action" where
  "client_handshake_authenticated I cfg expected =
     client_handshake_authenticated_with_context I cfg expected DEFAULT_KDF_CONTEXT"

definition server_handshake_with_context ::
  "channel_config \<Rightarrow> bytes \<Rightarrow> (wire, secure_channel) action" where
  "server_handshake_with_context cfg context =
     state_bind (on_stream receive_prefixed) (\<lambda>client_public_key.
     state_bind (draw_keypair (cfg_crypto cfg)) (\<lambda>(private_key, public_key).
     state_bind (on_stream (send_prefixed public_key)) (\<lambda>_.
     state_bind (state_lift (cm_compute_shared_secret (cfg_crypto cfg) private_key client_public_key)) (\<lambda>shared_secret.
     state_bind (state_lift (cm_derive_key (cfg_crypto cfg) shared_secret context)) (\<lambda>key.
     finish_channel cfg key)))))"

definition server_handshake :: "channel_config \<Rightarrow> (wire, secure_channel) action" where
  "server_handshake cfg = server_handshake_with_context cfg DEFAULT_KDF_CONTEXT"

definition server_handshake_authenticated_with_context ::
  "identity_primitives \<Rightarrow> channel_config \<Rightarrow> server_identity_key \<Rightarrow> bytes \<Rightarrow> (wire, secure_channel) action" where
  "server_handshake_authenticated_with_context I cfg server_identity_key context =
     state_bind (on_stream receive_prefixed) (\<lambda>client_public_key.
     state_bind (draw_keypair (cfg_crypto cfg)) (\<lambda>(private_key, pub).
       let server_identity = public_key I server_identity_key;
           transcript = server_identity_transcript client_public_key pub server_identity context;
           signature = sign_transcript I server_identity_key transcript in
       state_bind (on_stream (send_prefixed pub)) (\<lambda>_.
       state_bind (on_stream (send_prefixed (identity_bytes server_identity))) (\<lambda>_.
       state_bind (on_stream (send_prefixed signature)) (\<lambda>_.
       state_bind (state_lift (cm_compute_shared_secret (cfg_crypto cfg) private_key client_public_key)) (\<lambda>shared_secret.
       state_bind (state_lift (cm_derive_key (cfg_crypto cfg) shared_secret (authenticated_kdf_context transcript))) (\<lambda>key.
       finish_channel cfg key)))))))"

definition server_handshake_authenticated ::
  "identity_primitives \<Rightarrow> channel_config \<Rightarrow> server_identity_key \<Rightarrow> (wire, secure_channel) action" where
  "server_handshake_authenticated I cfg k =
     server_handshake_authenticated_with_context I cfg k DEFAULT_KDF_CONTEXT"

subsection \<open>Messages\<close>

type_synonym link = "secure_channel \<times> rng"

definition on_channel_stream :: "(tcp_stream, 'a) action \<Rightarrow> (secure_channel, 'a) action" where
  "on_channel_stream act ch = (let (x, s') = act (sc_stream ch) in (x, ch\<lparr>sc_stream := s'\<rparr>))"

fun send_msg :: "'m codec \<Rightarrow> 'm \<Rightarrow> (link, unit) action" where
  "send_msg K msg (ch, r) =
     (case res_bind (cd_encode K msg) (compress (sc_compressor ch)) of
        Ok compressed \<Rightarrow>
          (case seal (sc_crypto ch) compressed (sc_key ch) r of
             (Ok packet, r') \<Rightarrow>
               (let (x, ch') = on_channel_stream (send_prefixed packet) ch in (x, (ch', r')))
           | (Err e, r') \<Rightarrow> (Err e, (ch, r'))
           | (Panic, r') \<Rightarrow> (Panic, (ch, r')))
      | Err e \<Rightarrow> (Err e, (ch, r))
      | Panic \<Rightarrow> (Panic, (ch, r)))"

declare send_msg.simps [simp del]

definition recv_msg :: "'m codec \<Rightarrow> (secure_channel, 'm) action" where
  "recv_msg K =
     state_bind (on_channel_stream receive_prefixed) (\<lambda>packet ch.
     state_bind (state_lift (open_sealed (sc_crypto ch) packet (sc_key ch))) (\<lambda>decrypted ch.
     state_bind (state_lift (decompress (sc_compressor ch) decrypted)) (\<lambda>decompressed.
     state_lift (cd_decode K decompressed)) ch) ch)"

definition into_inner :: "secure_channel \<Rightarrow> tcp_stream" where
  "into_inner ch = sc_stream ch"

subsection \<open>Simplification of the plumbing\<close>

lemma on_stream_apply: "on_stream act (s, r) = (fst (act s), (snd (act s), r))"
  by (simp add: on_stream_def split: prod.splits)

lemma draw_keypair_apply:
  "draw_keypair cm (s, r) = (Ok (fst (cm_generate_keypair cm r)), (s, snd (cm_generate_keypair cm r)))"
  by (simp add: draw_keypair_def split: prod.splits)

lemma finish_channel_apply:
  "finish_channel cfg key (s, r) = (Ok (secure_channel_new s key (cfg_crypto cfg) (cfg_compression cfg)), (s, r))"
  by (simp add: finish_channel_def)

lemma on_channel_stream_apply:
  "on_channel_stream act ch = (fst (act (sc_stream ch)), ch\<lparr>sc_stream := snd (act (sc_stream ch))\<rparr>)"
  by (simp add: on_channel_stream_def split: prod.splits)

lemmas wire_simps = on_stream_apply draw_keypair_apply finish_channel_apply

lemma send_prefixed_room:
  "ts_room s = None \<Longrightarrow> length d \<le> DEFAULT_MAX_FRAME_SIZE \<Longrightarrow>
   send_prefixed d s = (Ok (), s\<lparr>ts_out := ts_out s @ framed d\<rparr>)"
  by (simp add: send_prefixed_def send_prefixed_with_limits_def frame_send_eq frame_limits_default_def
      DEFAULT_MAX_FRAME_SIZE_def)

lemma send_prefixed_Ok:
  "send_prefixed d s = (Ok u, s') \<Longrightarrow>
   ts_out s' = ts_out s @ framed d \<and> ts_in s' = ts_in s \<and> length d \<le> DEFAULT_MAX_FRAME_SIZE \<and> length d < 2 ^ 32"
  using frame_send_Ok [of d frame_limits_default s u s']
  by (simp add: send_prefixed_def send_prefixed_with_limits_def frame_limits_default_def)

lemma receive_prefixed_framed:
  "ts_in s = framed d @ rest \<Longrightarrow> length d \<le> DEFAULT_MAX_FRAME_SIZE \<Longrightarrow>
   receive_prefixed s = (Ok d, s\<lparr>ts_in := rest\<rparr>)"
  unfolding receive_prefixed_def receive_prefixed_with_limits_def
  by (rule frame_receive_framed) (simp_all add: frame_limits_default_def DEFAULT_MAX_FRAME_SIZE_def)

lemma receive_prefixed_Ok:
  "receive_prefixed s = (Ok d, s') \<Longrightarrow>
   ts_in s = framed d @ ts_in s' \<and> ts_out s' = ts_out s \<and> length d \<le> DEFAULT_MAX_FRAME_SIZE"
  using frame_receive_Ok [of frame_limits_default s d s']
  by (simp add: receive_prefixed_def receive_prefixed_with_limits_def frame_limits_default_def)

lemma small_frame: "n \<le> 64 \<Longrightarrow> n \<le> DEFAULT_MAX_FRAME_SIZE"
  by (simp add: DEFAULT_MAX_FRAME_SIZE_def)

subsection \<open>What is sent is received\<close>

lemma send_msg_Ok:
  "send_msg K m (ch, r) = (Ok u, (ch', r')) \<longleftrightarrow>
     (\<exists>buf z packet s'. cd_encode K m = Ok buf \<and> compress (sc_compressor ch) buf = Ok z \<and>
        seal (sc_crypto ch) z (sc_key ch) r = (Ok packet, r') \<and>
        send_prefixed packet (sc_stream ch) = (Ok u, s') \<and> ch' = ch\<lparr>sc_stream := s'\<rparr>)"
  by (auto simp: send_msg.simps on_channel_stream_apply res_bind_eq_Ok prod_eq_iff
      split: prod.splits res.splits)

lemma recv_msg_framed:
  assumes "ts_in (sc_stream ch) = framed packet @ rest" "length packet \<le> DEFAULT_MAX_FRAME_SIZE"
    and "open_sealed (sc_crypto ch) packet (sc_key ch) = Ok z" "decompress (sc_compressor ch) z = Ok buf"
    and "cd_decode K buf = Ok m"
  shows "recv_msg K ch = (Ok m, ch\<lparr>sc_stream := (sc_stream ch)\<lparr>ts_in := rest\<rparr>\<rparr>)"
  using assms receive_prefixed_framed [OF assms(1,2)]
  by (simp add: recv_msg_def on_channel_stream_apply state_bind_def)

lemma recv_msg_Ok:
  assumes "recv_msg K ch = (Ok m, ch')"
  obtains packet z buf where
    "ts_in (sc_stream ch) = framed packet @ ts_in (sc_stream ch')"
    "open_sealed (sc_crypto ch) packet (sc_key ch) = Ok z" "decompress (sc_compressor ch) z = Ok buf"
    "cd_decode K buf = Ok m" "length packet \<le> DEFAULT_MAX_FRAME_SIZE"
  using assms receive_prefixed_Ok [of "sc_stream ch"]
  by (auto simp: recv_msg_def on_channel_stream_def state_bind_eq_Ok split: prod.splits)

text \<open>A message is delivered only when it is the decoding of a plaintext whose encryption under the
  session key is the packet, whatever the messages are.\<close>

lemma recv_msg_authentic:
  assumes "aead_ok P" "cm_encryptor (sc_crypto rx) = AesGcmEncryptor P" "recv_msg K rx = (Ok m, rx')"
  shows "\<exists>iv ct z buf. ts_in (sc_stream rx) = framed (iv @ ct) @ ts_in (sc_stream rx') \<and> length iv = IV_SIZE \<and>
    aes_gcm_encrypt P z (sc_key rx) iv = Ok ct \<and> decompress (sc_compressor rx) z = Ok buf \<and> cd_decode K buf = Ok m"
proof -
  obtain packet z buf where p: "ts_in (sc_stream rx) = framed packet @ ts_in (sc_stream rx')"
    "open_sealed (sc_crypto rx) packet (sc_key rx) = Ok z" "decompress (sc_compressor rx) z = Ok buf" "cd_decode K buf = Ok m"
    by (rule recv_msg_Ok [OF assms(3)])
  with aes.open_authentic [OF assms(1,2) p(2)] show ?thesis by auto
qed

fun send_msgs :: "'m codec \<Rightarrow> 'm list \<Rightarrow> (link, unit) action" where
  "send_msgs K [] = state_return ()"
| "send_msgs K (m # ms) = state_bind (send_msg K m) (\<lambda>_. send_msgs K ms)"

fun recv_msgs :: "'m codec \<Rightarrow> nat \<Rightarrow> (secure_channel, 'm list) action" where
  "recv_msgs K 0 = state_return []"
| "recv_msgs K (Suc n) =
     state_bind (recv_msg K) (\<lambda>m. state_bind (recv_msgs K n) (\<lambda>ms. state_return (m # ms)))"

text \<open>Two ends of one connection: the same key and the same managers.\<close>

definition peers :: "secure_channel \<Rightarrow> secure_channel \<Rightarrow> bool" where
  "peers tx rx \<longleftrightarrow> sc_key tx = sc_key rx \<and> sc_crypto tx = sc_crypto rx \<and> sc_compressor tx = sc_compressor rx"

lemma peers_stream [simp]:
  "peers (tx\<lparr>sc_stream := s\<rparr>) rx = peers tx rx" "peers tx (rx\<lparr>sc_stream := s\<rparr>) = peers tx rx"
  by (simp_all add: peers_def)

locale secure_link =
  enc: encryptor_contract E trusted_cipher +
  cmp: compressor_contract C trusted_compressor +
  cod: codec_contract K valid canon trusted_codec
  for E trusted_cipher C trusted_compressor and K :: "'m codec" and valid canon trusted_codec
begin

lemma send_recv:
  assumes trust: "trusted_cipher" "trusted_compressor" "trusted_codec"
    and cfg: "cm_encryptor (sc_crypto tx) = E" "mgr_compressor (sc_compressor tx) = C" "peers tx rx"
    and m: "valid m" "send_msg K m (tx, r) = (Ok u, (tx', r'))"
    and rx: "ts_out (sc_stream tx') = ts_out (sc_stream tx) @ fresh" "ts_in (sc_stream rx) = fresh @ rest"
  shows "recv_msg K rx = (Ok (canon m), rx\<lparr>sc_stream := (sc_stream rx)\<lparr>ts_in := rest\<rparr>\<rparr>)"
proof -
  obtain buf z packet s' where steps: "cd_encode K m = Ok buf" "compress (sc_compressor tx) buf = Ok z"
    "seal (sc_crypto tx) z (sc_key tx) r = (Ok packet, r')"
    "send_prefixed packet (sc_stream tx) = (Ok u, s')" "tx' = tx\<lparr>sc_stream := s'\<rparr>"
    using m(2) by (auto simp: send_msg_Ok)
  have fresh: "fresh = framed packet" "length packet \<le> DEFAULT_MAX_FRAME_SIZE"
    using send_prefixed_Ok [OF steps(4)] steps(5) rx(1) by simp_all
  have "open_sealed (sc_crypto rx) packet (sc_key rx) = Ok z"
    using enc.open_seal [OF trust(1) cfg(1) steps(3)] cfg(3) by (simp add: peers_def)
  moreover have "decompress (sc_compressor rx) z = Ok buf"
    using cmp.decompress_compress [OF trust(2), of buf z] steps(2) cfg
    by (simp add: compress_def decompress_def peers_def)
  moreover have "cd_decode K buf = Ok (canon m)"
    using cod.decode_encode [OF trust(3) m(1) steps(1)] .
  ultimately show ?thesis
    using rx(2) fresh by (intro recv_msg_framed) simp_all
qed

lemma send_msg_cfg:
  assumes "send_msg K m (tx, r) = (Ok u, (tx', r'))"
  shows "\<exists>s'. tx' = tx\<lparr>sc_stream := s'\<rparr>" and "\<exists>fresh. ts_out (sc_stream tx') = ts_out (sc_stream tx) @ fresh"
  using assms send_prefixed_Ok [of _ "sc_stream tx"] by (auto simp: send_msg_Ok)

lemma send_recv_all:
  assumes trust: "trusted_cipher" "trusted_compressor" "trusted_codec"
    and cfg: "cm_encryptor (sc_crypto tx) = E" "mgr_compressor (sc_compressor tx) = C" "peers tx rx"
    and ms: "\<forall>m \<in> set ms. valid m" "send_msgs K ms (tx, r) = (Ok u, (tx', r'))"
    and rx: "ts_out (sc_stream tx') = ts_out (sc_stream tx) @ fresh" "ts_in (sc_stream rx) = fresh @ rest"
  shows "recv_msgs K (length ms) rx = (Ok (map canon ms), rx\<lparr>sc_stream := (sc_stream rx)\<lparr>ts_in := rest\<rparr>\<rparr>)"
  using cfg ms rx
proof (induction ms arbitrary: tx r rx fresh)
  case Nil
  then show ?case by simp
next
  case (Cons m ms)
  obtain tx1 r1 where step: "send_msg K m (tx, r) = (Ok (), (tx1, r1))" "send_msgs K ms (tx1, r1) = (Ok u, (tx', r'))"
    using Cons.prems(5) by (auto simp: state_bind_eq_Ok)
  obtain s1 f1 where s1: "tx1 = tx\<lparr>sc_stream := s1\<rparr>" "ts_out s1 = ts_out (sc_stream tx) @ f1"
    using send_msg_cfg [OF step(1)] by auto
  have "\<exists>f2. ts_out (sc_stream tx') = ts_out (sc_stream tx1) @ f2"
    using step(2)
  proof (induction ms arbitrary: tx1 r1)
    case (Cons k ks)
    then obtain tx2 r2 where "send_msg K k (tx1, r1) = (Ok (), (tx2, r2))" "send_msgs K ks (tx2, r2) = (Ok u, (tx', r'))"
      by (auto simp: state_bind_eq_Ok)
    with Cons.IH [of tx2 r2] send_msg_cfg(2) [of k tx1 r1 "()" tx2 r2] show ?case by auto
  qed simp
  then obtain f2 where f2: "ts_out (sc_stream tx') = ts_out (sc_stream tx1) @ f2" by blast
  then have fresh: "fresh = f1 @ f2" using Cons.prems(6) s1 by simp
  let ?rx1 = "rx\<lparr>sc_stream := (sc_stream rx)\<lparr>ts_in := f2 @ rest\<rparr>\<rparr>"
  have "recv_msg K rx = (Ok (canon m), ?rx1)"
    using send_recv [OF trust Cons.prems(1-3) _ step(1)] Cons.prems(4,7) s1 fresh by simp
  moreover have "recv_msgs K (length ms) ?rx1 = (Ok (map canon ms), ?rx1\<lparr>sc_stream := (sc_stream ?rx1)\<lparr>ts_in := rest\<rparr>\<rparr>)"
    using Cons.prems s1 f2 step(2) by (intro Cons.IH [of tx1 _ r1 f2]) auto
  ultimately show ?case by simp
qed

end

interpretation command_link: secure_link "AesGcmEncryptor P" "aead_ok P" NullCompressor True
  "command_codec Q" "\<lambda>_. True" command_on_wire "prost_ok Q" for P Q
  by unfold_locales

interpretation output_link: secure_link "AesGcmEncryptor P" "aead_ok P" NullCompressor True
  "output_codec Q" output_text_ok output_on_wire "prost_ok Q" for P Q
  by unfold_locales

interpretation zlib_command_link: secure_link "AesGcmEncryptor P" "aead_ok P" "ZlibCompressor L z" "zlib_ok L"
  "command_codec Q" "\<lambda>_. True" command_on_wire "prost_ok Q" for P L z Q
  by unfold_locales

subsection \<open>Two honest ends agree\<close>

definition channel_on :: "channel_config \<Rightarrow> tcp_stream \<Rightarrow> bytes \<Rightarrow> secure_channel" where
  "channel_on cfg s key = secure_channel_new s key (cfg_crypto cfg) (cfg_compression cfg)"

lemma on_stream_Ok:
  "on_stream act (s, r) = (Ok x, w) \<longleftrightarrow> (\<exists>s'. act s = (Ok x, s') \<and> w = (s', r))"
  by (auto simp: on_stream_apply prod_eq_iff)

lemma state_lift_Ok: "state_lift x w = (Ok y, w') \<longleftrightarrow> x = Ok y \<and> w' = w"
  by auto

locale handshake = key_exchange_contract X trusted for X trusted +
  fixes cfg :: channel_config
  assumes cfg_exchanger: "cm_key_exchanger (cfg_crypto cfg) = X"
    and public_fits: "kx_key_size X \<le> 64"
    and derive_total: "trusted \<Longrightarrow> \<exists>k. cm_derive_key (cfg_crypto cfg) s c = Ok k \<and>
        length k = en_key_size (cm_encryptor (cfg_crypto cfg))"
begin

lemma pair_key:
  assumes "trusted" "kx_generate_keypair X rc = ((a, A), rc')" "kx_generate_keypair X rs = ((b, B), rs')"
  shows "\<exists>s key. cm_compute_shared_secret (cfg_crypto cfg) a B = Ok s \<and>
    cm_compute_shared_secret (cfg_crypto cfg) b A = Ok s \<and> cm_derive_key (cfg_crypto cfg) s c = Ok key \<and>
    length key = en_key_size (cm_encryptor (cfg_crypto cfg))"
  using agree [OF assms] derive_total [OF assms(1)] cfg_exchanger
  by (simp add: cm_compute_shared_secret_def)

lemma public_small: "trusted \<Longrightarrow> kx_generate_keypair X r = ((a, A), r') \<Longrightarrow> length A \<le> DEFAULT_MAX_FRAME_SIZE"
  using public_length public_fits by (simp add: small_frame)

lemma handshake_agree:
  assumes "trusted" "kx_generate_keypair X rc = ((a, A), rc')" "kx_generate_keypair X rs = ((b, B), rs')"
    and "ts_room cs = None" "ts_room ss = None"
    and "ts_in ss = framed A @ r1" "ts_in cs = framed B @ r2"
  shows "\<exists>key. length key = en_key_size (cm_encryptor (cfg_crypto cfg)) \<and>
    server_handshake_with_context cfg c (ss, rs) =
      (let s = ss\<lparr>ts_in := r1, ts_out := ts_out ss @ framed B\<rparr> in (Ok (channel_on cfg s key), (s, rs'))) \<and>
    client_handshake_with_context cfg c (cs, rc) =
      (let s = cs\<lparr>ts_out := ts_out cs @ framed A, ts_in := r2\<rparr> in (Ok (channel_on cfg s key), (s, rc')))"
proof -
  obtain s key where sk: "cm_compute_shared_secret (cfg_crypto cfg) a B = Ok s"
    "cm_compute_shared_secret (cfg_crypto cfg) b A = Ok s" "cm_derive_key (cfg_crypto cfg) s c = Ok key"
    "length key = en_key_size (cm_encryptor (cfg_crypto cfg))"
    using pair_key [OF assms(1-3)] by blast
  have kp: "cm_generate_keypair (cfg_crypto cfg) rc = ((a, A), rc')"
    "cm_generate_keypair (cfg_crypto cfg) rs = ((b, B), rs')"
    using assms(2,3) cfg_exchanger by (simp_all add: cm_generate_keypair_def)
  have small: "length A \<le> DEFAULT_MAX_FRAME_SIZE" "length B \<le> DEFAULT_MAX_FRAME_SIZE"
    using public_small [OF assms(1,2)] public_small [OF assms(1,3)] by simp_all
  have "server_handshake_with_context cfg c (ss, rs) =
      (let s = ss\<lparr>ts_in := r1, ts_out := ts_out ss @ framed B\<rparr> in (Ok (channel_on cfg s key), (s, rs')))"
    using assms(5,6) sk kp small
    by (simp add: server_handshake_with_context_def wire_simps receive_prefixed_framed send_prefixed_room
        channel_on_def Let_def)
  moreover have "client_handshake_with_context cfg c (cs, rc) =
      (let s = cs\<lparr>ts_out := ts_out cs @ framed A, ts_in := r2\<rparr> in (Ok (channel_on cfg s key), (s, rc')))"
    using assms(4,7) sk kp small
    by (simp add: client_handshake_with_context_def wire_simps receive_prefixed_framed send_prefixed_room
        channel_on_def Let_def)
  ultimately show ?thesis using sk(4) by blast
qed

lemma handshake_agree_authenticated:
  assumes "trusted" "kx_generate_keypair X rc = ((a, A), rc')" "kx_generate_keypair X rs = ((b, B), rs')"
    and "ts_room cs = None" "ts_room ss = None"
    and ident: "ed25519_ok I" "length (signing_key k) = SERVER_IDENTITY_KEY_SIZE" "i = public_key I k"
    and sig: "sig = sign_transcript I k (server_identity_transcript A B i c)"
    and "ts_in ss = framed A @ r1" "ts_in cs = framed B @ framed (identity_bytes i) @ framed sig @ r2"
  shows "\<exists>key. length key = en_key_size (cm_encryptor (cfg_crypto cfg)) \<and>
    server_handshake_authenticated_with_context I cfg k c (ss, rs) =
      (let s = ss\<lparr>ts_in := r1, ts_out := ts_out ss @ framed B @ framed (identity_bytes i) @ framed sig\<rparr>
       in (Ok (channel_on cfg s key), (s, rs'))) \<and>
    client_handshake_authenticated_with_context I cfg i c (cs, rc) =
      (let s = cs\<lparr>ts_out := ts_out cs @ framed A, ts_in := r2\<rparr> in (Ok (channel_on cfg s key), (s, rc')))"
proof -
  let ?t = "server_identity_transcript A B i c"
  obtain s key where sk: "cm_compute_shared_secret (cfg_crypto cfg) a B = Ok s"
    "cm_compute_shared_secret (cfg_crypto cfg) b A = Ok s"
    "cm_derive_key (cfg_crypto cfg) s (authenticated_kdf_context ?t) = Ok key"
    "length key = en_key_size (cm_encryptor (cfg_crypto cfg))"
    using pair_key [OF assms(1-3)] by blast
  have kp: "cm_generate_keypair (cfg_crypto cfg) rc = ((a, A), rc')"
    "cm_generate_keypair (cfg_crypto cfg) rs = ((b, B), rs')"
    using assms(2,3) cfg_exchanger by (simp_all add: cm_generate_keypair_def)
  have small: "length A \<le> DEFAULT_MAX_FRAME_SIZE" "length B \<le> DEFAULT_MAX_FRAME_SIZE"
    using public_small [OF assms(1,2)] public_small [OF assms(1,3)] by simp_all
  have "length (identity_bytes i) = 32" "length sig = 64"
    using ident sig by (simp_all add: ed25519_ok_def public_key_def sign_transcript_def
        SERVER_IDENTITY_KEY_SIZE_def SERVER_IDENTITY_SIGNATURE_SIZE_def)
  then have fits: "length (identity_bytes i) \<le> DEFAULT_MAX_FRAME_SIZE" "length sig \<le> DEFAULT_MAX_FRAME_SIZE"
    by (simp_all add: small_frame)
  have ver: "public_from_slice I (identity_bytes i) = Ok i" "verify_transcript I i ?t sig = Ok ()"
    using sign_verify [OF ident(1,2)] ident(3) sig by simp_all
  have "server_handshake_authenticated_with_context I cfg k c (ss, rs) =
      (let s = ss\<lparr>ts_in := r1, ts_out := ts_out ss @ framed B @ framed (identity_bytes i) @ framed sig\<rparr>
       in (Ok (channel_on cfg s key), (s, rs')))"
    using assms(5,10) sk kp small fits
    by (simp add: server_handshake_authenticated_with_context_def wire_simps receive_prefixed_framed
        send_prefixed_room channel_on_def Let_def flip: ident(3) sig)
  moreover have "client_handshake_authenticated_with_context I cfg i c (cs, rc) =
      (let s = cs\<lparr>ts_out := ts_out cs @ framed A, ts_in := r2\<rparr> in (Ok (channel_on cfg s key), (s, rc')))"
    using assms(4,11) sk kp small fits ver
    by (simp add: client_handshake_authenticated_with_context_def wire_simps receive_prefixed_framed
        send_prefixed_room channel_on_def Let_def)
  ultimately show ?thesis using sk(4) by blast
qed

end

text \<open>HKDF expands to any length up to 255 blocks of the hash.\<close>

definition hkdf_ok :: "crypto_primitives \<Rightarrow> bool" where
  "hkdf_ok P \<longleftrightarrow> (\<forall>salt ikm info n. n \<le> 255 * 32 \<longrightarrow>
     (\<exists>k. hkdf_expand P salt ikm info n = Inr k \<and> length k = n))"

lemma Config_simps [simp]:
  "cm_encryptor (cfg_crypto (Config P)) = AesGcmEncryptor P"
  "cm_key_exchanger (cfg_crypto (Config P)) = X25519KeyExchanger P"
  "cm_key_deriver (cfg_crypto (Config P)) = HkdfSha256Deriver P \<lparr>hk_salt = []\<rparr>"
  "mgr_compressor (cfg_compression (Config P)) = NullCompressor"
  by (simp_all add: Config_def DefaultSuite_crypto_def DefaultSuite_compression_def compression_manager_new_def)

lemma Config_derive:
  assumes "hkdf_ok P"
  shows "\<exists>k. cm_derive_key (cfg_crypto (Config P)) s c = Ok k \<and> length k = KEY_SIZE"
proof -
  have "KEY_SIZE \<le> 255 * 32" by (simp add: key_sizes)
  with assms obtain k where "hkdf_expand P default_salt s c KEY_SIZE = Inr k" "length k = KEY_SIZE"
    unfolding hkdf_ok_def by blast
  then show ?thesis
    by (simp add: cm_derive_key_def HkdfSha256Deriver_def hkdf_derive_key_def)
qed

interpretation default_handshake: handshake "X25519KeyExchanger P" "x25519_ok P \<and> hkdf_ok P" "Config P" for P
proof
  show "\<exists>k. cm_derive_key (cfg_crypto (Config P)) s c = Ok k \<and>
      length k = en_key_size (cm_encryptor (cfg_crypto (Config P)))"
    if "x25519_ok P \<and> hkdf_ok P" for s c
    using Config_derive [of P s c] that by simp
qed (use x25519.agree x25519.public_length x25519.shared_not_Panic x25519.size_refused in
    \<open>auto simp: key_sizes\<close>)

subsection \<open>What an authenticated client has checked\<close>

lemma client_authenticated_Ok:
  assumes "client_handshake_authenticated_with_context I cfg expected c (cs, r) = (Ok ch, (cs', r'))"
  obtains a A B sig s where
    "cm_generate_keypair (cfg_crypto cfg) r = ((a, A), r')"
    "ts_in cs = framed B @ framed (identity_bytes expected) @ framed sig @ ts_in cs'"
    "verify_transcript I expected (server_identity_transcript A B expected c) sig = Ok ()"
    "cm_compute_shared_secret (cfg_crypto cfg) a B = Ok s"
    "cm_derive_key (cfg_crypto cfg) s
       (authenticated_kdf_context (server_identity_transcript A B expected c)) = Ok (sc_key ch)"
    "ts_out cs' = ts_out cs @ framed A"
proof -
  obtain a A r1 where kp: "cm_generate_keypair (cfg_crypto cfg) r = ((a, A), r1)"
    by (metis prod.exhaust)
  obtain s1 B s2 i s3 sig s4 where steps: "send_prefixed A cs = (Ok (), s1)" "receive_prefixed s1 = (Ok B, s2)"
    "receive_prefixed s2 = (Ok i, s3)" "public_from_slice I i = Ok expected"
    "receive_prefixed s3 = (Ok sig, s4)"
    "verify_transcript I expected (server_identity_transcript A B expected c) sig = Ok ()"
    and rest: "\<exists>s key. cm_compute_shared_secret (cfg_crypto cfg) a B = Ok s \<and>
      cm_derive_key (cfg_crypto cfg) s
         (authenticated_kdf_context (server_identity_transcript A B expected c)) = Ok key \<and>
      ch = secure_channel_new s4 key (cfg_crypto cfg) (cfg_compression cfg) \<and> cs' = s4 \<and> r' = r1"
    using assms kp
    by (auto simp: client_handshake_authenticated_with_context_def state_bind_eq_Ok on_stream_Ok
        draw_keypair_apply finish_channel_apply Let_def split: if_splits)
  have "i = identity_bytes expected"
    using steps(4) by (auto simp: public_from_slice_def key_bytes_def res_bind_eq_Ok split: if_splits)
  moreover obtain s where "cm_compute_shared_secret (cfg_crypto cfg) a B = Ok s"
    "cm_derive_key (cfg_crypto cfg) s
       (authenticated_kdf_context (server_identity_transcript A B expected c)) = Ok (sc_key ch)"
    "cs' = s4" "r' = r1"
    using rest by (auto simp: secure_channel_new_def)
  ultimately show ?thesis
    using steps kp send_prefixed_Ok [OF steps(1)] receive_prefixed_Ok [OF steps(2)]
      receive_prefixed_Ok [OF steps(3)] receive_prefixed_Ok [OF steps(5)]
    by (intro that [of a A B sig s]) auto
qed

lemma server_authenticated_Ok:
  assumes "server_handshake_authenticated_with_context I cfg k c (ss, r) = (Ok ch, (ss', r'))"
  obtains b B A s where
    "cm_generate_keypair (cfg_crypto cfg) r = ((b, B), r')"
    "ts_in ss = framed A @ ts_in ss'" "length A \<le> DEFAULT_MAX_FRAME_SIZE"
    "cm_compute_shared_secret (cfg_crypto cfg) b A = Ok s"
    "cm_derive_key (cfg_crypto cfg) s
       (authenticated_kdf_context (server_identity_transcript A B (public_key I k) c)) = Ok (sc_key ch)"
proof -
  obtain b B r1 where kp: "cm_generate_keypair (cfg_crypto cfg) r = ((b, B), r1)"
    by (metis prod.exhaust)
  obtain A s1 s2 s3 s4 s key where steps: "receive_prefixed ss = (Ok A, s1)" "send_prefixed B s1 = (Ok (), s2)"
    "send_prefixed (identity_bytes (public_key I k)) s2 = (Ok (), s3)"
    "send_prefixed (sign_transcript I k (server_identity_transcript A B (public_key I k) c)) s3 = (Ok (), s4)"
    "cm_compute_shared_secret (cfg_crypto cfg) b A = Ok s"
    "cm_derive_key (cfg_crypto cfg) s
       (authenticated_kdf_context (server_identity_transcript A B (public_key I k) c)) = Ok key"
    "ch = secure_channel_new s4 key (cfg_crypto cfg) (cfg_compression cfg)" "ss' = s4" "r' = r1"
    using assms kp
    by (auto simp: server_handshake_authenticated_with_context_def state_bind_eq_Ok on_stream_Ok
        draw_keypair_apply finish_channel_apply Let_def)
  then show ?thesis
    using kp receive_prefixed_Ok [OF steps(1)] send_prefixed_Ok [OF steps(2)] send_prefixed_Ok [OF steps(3)]
      send_prefixed_Ok [OF steps(4)]
    by (intro that [of b B A s]) (auto simp: secure_channel_new_def)
qed

text \<open>The transcript that a server run from the wire \<open>w\<close> signs.\<close>

definition server_signs ::
  "identity_primitives \<Rightarrow> channel_config \<Rightarrow> server_identity_key \<Rightarrow> bytes \<Rightarrow> wire \<Rightarrow> bytes \<Rightarrow> bool" where
  "server_signs I cfg k c w t \<longleftrightarrow>
     (case receive_prefixed (fst w) of
        (Ok A, s) \<Rightarrow>
          t = server_identity_transcript A (snd (fst (cm_generate_keypair (cfg_crypto cfg) (snd w)))) (public_key I k) c
      | _ \<Rightarrow> False)"

text \<open>The transcript and the signature that a client has checked in a handshake that took its stream
  from \<open>cs\<close> to \<open>cs'\<close>: the transcript of the key it sent and the key it was sent.\<close>

definition client_checked ::
  "identity_primitives \<Rightarrow> server_identity_key \<Rightarrow> bytes \<Rightarrow> tcp_stream \<Rightarrow> tcp_stream \<Rightarrow> bytes \<Rightarrow> bytes \<Rightarrow> bool" where
  "client_checked I k c cs cs' t sig \<longleftrightarrow>
     (\<exists>A B. t = server_identity_transcript A B (public_key I k) c \<and> length B = ECDH_KEY_SIZE \<and>
        ts_out cs' = ts_out cs @ framed A \<and>
        ts_in cs = framed B @ framed (identity_bytes (public_key I k)) @ framed sig @ ts_in cs')"

lemma public_vec_ok:
  assumes "x25519_ok P" "cm_generate_keypair (cfg_crypto (Config P)) r = ((a, A), r')"
  shows "vec_ok A"
  using x25519.public_length [of P r a A r'] assms
  by (simp add: cm_generate_keypair_def vec_ok_def key_sizes)

lemma authenticated_agreement:
  assumes P: "x25519_ok P" "ed25519_ok I" "length (signing_key k) = SERVER_IDENTITY_KEY_SIZE"
    and client: "client_handshake_authenticated_with_context I (Config P) (public_key I k) c (cs, r) = (Ok ch, (cs', r'))"
    and unforged: "\<And>t sig. client_checked I k c cs cs' t sig \<Longrightarrow>
        ed25519_verify I (ed25519_public I (signing_key k)) t sig \<Longrightarrow>
        \<exists>(w, c') \<in> runs. vec_ok c' \<and> server_signs I (Config P) k c' w t"
    and c: "vec_ok c"
  shows "\<exists>w. (w, c) \<in> runs \<and> (\<exists>A rest. ts_out cs' = ts_out cs @ framed A \<and> ts_in (fst w) = framed A @ rest) \<and>
    (\<forall>chs w'. server_handshake_authenticated_with_context I (Config P) k c w = (Ok chs, w') \<longrightarrow> sc_key chs = sc_key ch)"
proof -
  let ?i = "public_key I k"
  obtain a A B sig s where cl: "cm_generate_keypair (cfg_crypto (Config P)) r = ((a, A), r')"
    "ts_in cs = framed B @ framed (identity_bytes ?i) @ framed sig @ ts_in cs'"
    "verify_transcript I ?i (server_identity_transcript A B ?i c) sig = Ok ()"
    "cm_compute_shared_secret (cfg_crypto (Config P)) a B = Ok s"
    "cm_derive_key (cfg_crypto (Config P)) s
       (authenticated_kdf_context (server_identity_transcript A B ?i c)) = Ok (sc_key ch)"
    "ts_out cs' = ts_out cs @ framed A"
    by (rule client_authenticated_Ok [OF client])
  have "ed25519_verify I (ed25519_public I (signing_key k)) (server_identity_transcript A B ?i c) sig"
    using cl(3) by (auto simp: verify_transcript_def res_bind_eq_Ok public_key_def signature_bytes_def split: if_splits)
  moreover have size: "length B = ECDH_KEY_SIZE"
    using cl(4) by (simp add: cm_compute_shared_secret_def x25519_compute_shared_secret_def split: if_splits)
  then have "client_checked I k c cs cs' (server_identity_transcript A B ?i c) sig"
    unfolding client_checked_def using cl(2,6) by blast
  ultimately obtain w c' where w: "(w, c') \<in> runs" "vec_ok c'"
    "server_signs I (Config P) k c' w (server_identity_transcript A B ?i c)"
    using unforged by blast
  obtain A' s1 where A': "receive_prefixed (fst w) = (Ok A', s1)"
    using w(3) by (auto simp: server_signs_def split: prod.splits res.splits)
  obtain b B' r1 where kp: "cm_generate_keypair (cfg_crypto (Config P)) (snd w) = ((b, B'), r1)"
    by (metis prod.exhaust)
  have vecs: "vec_ok A" "vec_ok B" "vec_ok B'" "vec_ok A'" "vec_ok (identity_bytes ?i)"
    using public_vec_ok [OF P(1) cl(1)] public_vec_ok [OF P(1) kp] receive_prefixed_Ok [OF A'] P(2,3) size
    by (simp_all add: vec_ok_def key_sizes ed25519_ok_def DEFAULT_MAX_FRAME_SIZE_def public_key_def SERVER_IDENTITY_KEY_SIZE_def)
  have "server_identity_transcript A B ?i c = server_identity_transcript A' B' ?i c'"
    using w(3) A' kp by (simp add: server_signs_def)
  then have eq: "A' = A" "B' = B" "c' = c"
    using transcript_inj [of A B ?i c A' B' ?i c'] vecs c w(2) by simp_all
  have "sc_key chs = sc_key ch"
    if run: "server_handshake_authenticated_with_context I (Config P) k c w = (Ok chs, w')" for chs w'
  proof -
    obtain b2 B2 A2 s2 where sv: "cm_generate_keypair (cfg_crypto (Config P)) (snd w) = ((b2, B2), snd w')"
      "ts_in (fst w) = framed A2 @ ts_in (fst w')" "length A2 \<le> DEFAULT_MAX_FRAME_SIZE"
      "cm_compute_shared_secret (cfg_crypto (Config P)) b2 A2 = Ok s2"
      "cm_derive_key (cfg_crypto (Config P)) s2
         (authenticated_kdf_context (server_identity_transcript A2 B2 ?i c)) = Ok (sc_key chs)"
      using run by (cases w; cases w') (auto elim: server_authenticated_Ok)
    have "A2 = A" using receive_prefixed_framed [OF sv(2,3)] A' eq by simp
    moreover have "b2 = b" "B2 = B" using sv(1) kp eq by simp_all
    moreover have "s2 = s"
      using x25519.agree [of P r a A r' "snd w" b B r1] P(1) cl(1,4) kp sv(4) eq \<open>A2 = A\<close> \<open>b2 = b\<close>
      by (simp add: cm_generate_keypair_def cm_compute_shared_secret_def)
    ultimately show ?thesis using sv(5) cl(5) by simp
  qed
  with w(1) eq cl(6) receive_prefixed_Ok [OF A'] show ?thesis by blast
qed

end
