(* ===== verification/Server_Config.thy ===== *)
theory Server_Config
  imports Paths
begin

section \<open>The server's configuration (server/src/config.rs, server/src/main.rs)\<close>

text \<open>
  The configuration, its builder, and how \<open>main\<close> builds it from the command line.  A
  \<open>Duration\<close> is a number of seconds.  The lemmas say what each setting of the builder
  yields, including the one that does not do what its caller means.
\<close>

type_synonym duration = u64

record server_config =
  max_connections :: usize
  handshake_timeout :: duration
  idle_timeout :: "duration option"
  reject_when_full :: bool
  tcp_keepalive :: "duration option"

definition server_config_default :: server_config where
  "server_config_default =
     \<lparr>max_connections = 1024, handshake_timeout = 10, idle_timeout = Some 300,
      reject_when_full = True, tcp_keepalive = Some 60\<rparr>"

record server_config_builder =
  b_max_connections :: "usize option"
  b_handshake_timeout :: "duration option"
  b_idle_timeout :: "duration option"
  b_reject_when_full :: "bool option"
  b_tcp_keepalive :: "duration option"

definition builder :: server_config_builder where
  "builder =
     \<lparr>b_max_connections = None, b_handshake_timeout = None, b_idle_timeout = None,
      b_reject_when_full = None, b_tcp_keepalive = None\<rparr>"

definition unwrap_or :: "'a option \<Rightarrow> 'a \<Rightarrow> 'a" where
  "unwrap_or x d = (case x of None \<Rightarrow> d | Some y \<Rightarrow> y)"

definition or_opt :: "'a option \<Rightarrow> 'a option \<Rightarrow> 'a option" where
  "or_opt x y = (case x of None \<Rightarrow> y | Some z \<Rightarrow> Some z)"

definition set_max_connections :: "usize \<Rightarrow> server_config_builder \<Rightarrow> server_config_builder" where
  "set_max_connections n b = b\<lparr>b_max_connections := Some n\<rparr>"

definition set_handshake_timeout :: "duration \<Rightarrow> server_config_builder \<Rightarrow> server_config_builder" where
  "set_handshake_timeout t b = b\<lparr>b_handshake_timeout := Some t\<rparr>"

definition set_idle_timeout :: "duration option \<Rightarrow> server_config_builder \<Rightarrow> server_config_builder" where
  "set_idle_timeout t b = b\<lparr>b_idle_timeout := Some (unwrap_or t 0)\<rparr>"

definition set_reject_when_full :: "bool \<Rightarrow> server_config_builder \<Rightarrow> server_config_builder" where
  "set_reject_when_full r b = b\<lparr>b_reject_when_full := Some r\<rparr>"

definition set_tcp_keepalive :: "duration option \<Rightarrow> server_config_builder \<Rightarrow> server_config_builder" where
  "set_tcp_keepalive k b = b\<lparr>b_tcp_keepalive := Some (unwrap_or k 0)\<rparr>"

definition build :: "server_config_builder \<Rightarrow> server_config" where
  "build b =
     \<lparr>max_connections = unwrap_or (b_max_connections b) (max_connections server_config_default),
      handshake_timeout = unwrap_or (b_handshake_timeout b) (handshake_timeout server_config_default),
      idle_timeout = or_opt (b_idle_timeout b) (idle_timeout server_config_default),
      reject_when_full = unwrap_or (b_reject_when_full b) (reject_when_full server_config_default),
      tcp_keepalive = or_opt (b_tcp_keepalive b) (tcp_keepalive server_config_default)\<rparr>"

record server_args =
  arg_port :: u16
  arg_base_dir :: path
  arg_identity_key :: path
  arg_max_connections :: usize
  arg_handshake_timeout :: u64
  arg_idle_timeout :: u64
  arg_log_level :: string

text \<open>What is taken for an argument that is not given; the identity key has to be.\<close>

definition server_args_default :: "path \<Rightarrow> server_args" where
  "server_args_default key =
     \<lparr>arg_port = 5555, arg_base_dir = ''/tmp'', arg_identity_key = key, arg_max_connections = 1024,
      arg_handshake_timeout = 10, arg_idle_timeout = 300, arg_log_level = ''info''\<rparr>"

definition main_config :: "server_args \<Rightarrow> server_config" where
  "main_config args =
     build (set_idle_timeout (if 0 < arg_idle_timeout args then Some (arg_idle_timeout args) else None)
       (set_handshake_timeout (arg_handshake_timeout args)
         (set_max_connections (arg_max_connections args) builder)))"

lemmas builder_defs = build_def builder_def set_max_connections_def set_handshake_timeout_def
  set_idle_timeout_def set_reject_when_full_def set_tcp_keepalive_def unwrap_or_def or_opt_def
  server_config_default_def

lemma main_config_eq:
  "main_config args =
     \<lparr>max_connections = arg_max_connections args, handshake_timeout = arg_handshake_timeout args,
      idle_timeout = Some (arg_idle_timeout args), reject_when_full = True, tcp_keepalive = Some 60\<rparr>"
  by (simp add: main_config_def builder_defs word_neq_0_conv [symmetric])

text \<open>No call of the builder leaves the idle timeout off.\<close>

lemma builder_idle_timeout: "idle_timeout (build b) \<noteq> None"
  by (auto simp: builder_defs split: option.splits)

end
