(* ===== verification/Connection.thy ===== *)
theory Connection
  imports Request_Handler Secure_Channel Server_Config
begin

section \<open>A connection of the server (server/src/connection.rs)\<close>

text \<open>
  A connection owns a channel, a current directory and at most one active write transfer;
  it shares the storage.  Its code only sends outputs and receives commands, so the
  channel is a record of these two operations over a state \<open>'c\<close>; the secure channel is
  one instance.  What the environment decides in an iteration of \<open>run\<close> (a shutdown, an
  expired idle timer, or an arriving message) is an event of a schedule.  The loop that
  streams an object may run as long as the backend keeps returning chunks that are not
  the last, so it is a partial function; that it ends is a theorem.
\<close>

record 'c server_channel =
  sv_send :: "fenris_output \<Rightarrow> ('c, unit) action"
  sv_recv :: "('c, fenris_command) action"

definition secure_server_channel :: "prost \<Rightarrow> link server_channel" where
  "secure_server_channel Q =
     \<lparr>sv_send = send_msg (output_codec Q),
      sv_recv = (\<lambda>(ch, r). let (x, ch') = recv_msg (command_codec Q) ch in (x, (ch', r)))\<rparr>"

record ('c, 's) connection =
  cn_id :: u64
  cn_channel :: 'c
  cn_current_dir :: path
  cn_storage :: 's
  cn_config :: server_config
  cn_active_write :: "active_write_transfer option"

definition accept_with_identity ::
  "identity_primitives \<Rightarrow> crypto_primitives \<Rightarrow> u64 \<Rightarrow> 's \<Rightarrow> server_config \<Rightarrow> server_identity_key option \<Rightarrow>
   bool \<Rightarrow> wire \<Rightarrow> (link, 's) connection res" where
  "accept_with_identity I P cid storage config identity_key timer_expired w =
     (if timer_expired then Err (NetworkError (IoError TimedOut ''Handshake timeout''))
      else
        (case (case identity_key of
                 Some k \<Rightarrow> server_handshake_authenticated I (Config P) k w
               | None \<Rightarrow> server_handshake (Config P) w) of
           (Ok ch, (s, r)) \<Rightarrow>
             Ok \<lparr>cn_id = cid, cn_channel = (ch, r), cn_current_dir = ''/'', cn_storage = storage,
                 cn_config = config, cn_active_write = None\<rparr>
         | (Err e, _) \<Rightarrow> Err e
         | (Panic, _) \<Rightarrow> Panic))"

definition accept_plain ::
  "identity_primitives \<Rightarrow> crypto_primitives \<Rightarrow> u64 \<Rightarrow> 's \<Rightarrow> server_config \<Rightarrow> bool \<Rightarrow> wire \<Rightarrow>
   (link, 's) connection res" where
  "accept_plain I P cid storage config timer_expired w =
     accept_with_identity I P cid storage config None timer_expired w"

definition accept_authenticated ::
  "identity_primitives \<Rightarrow> crypto_primitives \<Rightarrow> u64 \<Rightarrow> 's \<Rightarrow> server_config \<Rightarrow> server_identity_key \<Rightarrow>
   bool \<Rightarrow> wire \<Rightarrow> (link, 's) connection res" where
  "accept_authenticated I P cid storage config k timer_expired w =
     accept_with_identity I P cid storage config (Some k) timer_expired w"

subsection \<open>Handling one command\<close>

definition conn_send ::
  "'c server_channel \<Rightarrow> fenris_output \<Rightarrow> (('c, 's) connection, unit) action" where
  "conn_send V out cn = (let (x, c') = sv_send V out (cn_channel cn) in (x, cn\<lparr>cn_channel := c'\<rparr>))"

definition is_terminate :: "fenris_command \<Rightarrow> bool" where
  "is_terminate c \<longleftrightarrow> c = Terminate"

definition conn_begin_object_write ::
  "'c server_channel \<Rightarrow> 's storage_backend \<Rightarrow> path \<Rightarrow> object_write_mode \<Rightarrow> u64 \<Rightarrow>
   (('c, 's) connection, unit) action" where
  "conn_begin_object_write V B p mode total_size cn =
     (if cn_active_write cn \<noteq> None then conn_send V (ErrorOutput ''Transfer already active'') cn
      else
        (case begin_object_write B p mode total_size (cn_current_dir cn) (cn_storage cn) of
           (Ok t, s') \<Rightarrow>
             conn_send V (TransferReady DEFAULT_TRANSFER_CHUNK_SIZE)
               (cn\<lparr>cn_storage := s', cn_active_write := Some t\<rparr>)
         | (Err e, s') \<Rightarrow> conn_send V (ErrorOutput (error_to_string e)) (cn\<lparr>cn_storage := s'\<rparr>)
         | (Panic, s') \<Rightarrow> (Panic, cn\<lparr>cn_storage := s'\<rparr>)))"

definition is_success :: "fenris_output \<Rightarrow> bool" where
  "is_success out = (case out of Success m \<Rightarrow> True | _ \<Rightarrow> False)"

definition conn_write_object_chunk ::
  "'c server_channel \<Rightarrow> 's storage_backend \<Rightarrow> transfer_chunk \<Rightarrow> (('c, 's) connection, unit) action" where
  "conn_write_object_chunk V B chunk cn =
     (case cn_active_write cn of
        None \<Rightarrow> conn_send V (ErrorOutput ''No active transfer'') cn
      | Some t \<Rightarrow>
          (case handler_write_object_chunk B t chunk DEFAULT_TRANSFER_CHUNK_SIZE (cn_storage cn) of
             (Ok out, t', s') \<Rightarrow>
               conn_send V out
                 (cn\<lparr>cn_storage := s', cn_active_write := (if is_success out then None else Some t')\<rparr>)
           | (Err e, t', s') \<Rightarrow>
               conn_send V (ErrorOutput (error_to_string e)) (cn\<lparr>cn_storage := s', cn_active_write := None\<rparr>)
           | (Panic, t', s') \<Rightarrow> (Panic, cn\<lparr>cn_storage := s', cn_active_write := None\<rparr>)))"

partial_function (option) send_chunks_from ::
  "'c server_channel \<Rightarrow> 's storage_backend \<Rightarrow> path \<Rightarrow> u64 \<Rightarrow> ('c, 's) connection \<Rightarrow>
   (unit res \<times> ('c, 's) connection) option" where
  "send_chunks_from V B p offset cn =
     (case read_object_chunk B p (cn_current_dir cn) offset (cn_storage cn) of
        (Ok chunk, s') \<Rightarrow>
          (case conn_send V (ObjectContentChunk chunk) (cn\<lparr>cn_storage := s'\<rparr>) of
             (Ok _, cn') \<Rightarrow>
               (if tc_is_last chunk then Some (Ok (), cn')
                else send_chunks_from V B p (tc_offset chunk + len_u64 (tc_data chunk)) cn')
           | (Err e, cn') \<Rightarrow> Some (Err e, cn')
           | (Panic, cn') \<Rightarrow> Some (Panic, cn'))
      | (Err e, s') \<Rightarrow> Some (conn_send V (ErrorOutput (error_to_string e)) (cn\<lparr>cn_storage := s'\<rparr>))
      | (Panic, s') \<Rightarrow> Some (Panic, cn\<lparr>cn_storage := s'\<rparr>))"

definition send_object_content_chunks ::
  "'c server_channel \<Rightarrow> 's storage_backend \<Rightarrow> path \<Rightarrow> ('c, 's) connection \<Rightarrow>
   (unit res \<times> ('c, 's) connection) option" where
  "send_object_content_chunks V B p cn = send_chunks_from V B p 0 cn"

definition conn_process ::
  "'c server_channel \<Rightarrow> 's storage_backend \<Rightarrow> fenris_command \<Rightarrow> (('c, 's) connection, unit) action" where
  "conn_process V B command cn =
     (case process_command B command (cn_storage cn, cn_current_dir cn) of
        (Ok response, (s', dir')) \<Rightarrow> conn_send V response (cn\<lparr>cn_storage := s', cn_current_dir := dir'\<rparr>)
      | (Err e, (s', dir')) \<Rightarrow> (Err e, cn\<lparr>cn_storage := s', cn_current_dir := dir'\<rparr>)
      | (Panic, (s', dir')) \<Rightarrow> (Panic, cn\<lparr>cn_storage := s', cn_current_dir := dir'\<rparr>))"

fun conn_handle_command ::
  "'c server_channel \<Rightarrow> 's storage_backend \<Rightarrow> fenris_command \<Rightarrow> ('c, 's) connection \<Rightarrow>
   (unit res \<times> ('c, 's) connection) option" where
  "conn_handle_command V B (ReadObject p) cn = send_object_content_chunks V B p cn"
| "conn_handle_command V B (BeginObjectWrite p mode n) cn = Some (conn_begin_object_write V B p mode n cn)"
| "conn_handle_command V B (WriteObjectChunk chunk) cn = Some (conn_write_object_chunk V B chunk cn)"
| "conn_handle_command V B command cn = Some (conn_process V B command cn)"

definition send_terminate_response :: "'c server_channel \<Rightarrow> (('c, 's) connection, unit) action" where
  "send_terminate_response V = conn_send V Terminated"

subsection \<open>The loop\<close>

datatype event = Cancelled | IdleExpired | Arrived

datatype run_state = Running | Closed "unit res"

text \<open>An expired idle timer is an event only when the configuration has one; without a
  timer the wait goes on.\<close>

definition receive_command ::
  "'c server_channel \<Rightarrow> bool \<Rightarrow> (('c, 's) connection, fenris_command) action" where
  "receive_command V expired cn =
     (if expired \<and> idle_timeout (cn_config cn) \<noteq> None
      then (Err (NetworkError (IoError TimedOut ''Idle timeout'')), cn)
      else (let (x, c') = sv_recv V (cn_channel cn) in (x, cn\<lparr>cn_channel := c'\<rparr>)))"

fun conn_run ::
  "'c server_channel \<Rightarrow> 's storage_backend \<Rightarrow> event list \<Rightarrow> ('c, 's) connection \<Rightarrow>
   (run_state \<times> ('c, 's) connection) option" where
  "conn_run V B [] cn = Some (Running, cn)"
| "conn_run V B (Cancelled # evs) cn = Some (Closed (Ok ()), cn)"
| "conn_run V B (ev # evs) cn =
     (case receive_command V (ev = IdleExpired) cn of
        (Ok command, cn') \<Rightarrow>
          (if is_terminate command then
             (case send_terminate_response V cn' of
                (Ok _, cn'') \<Rightarrow> Some (Closed (Ok ()), cn'')
              | (Err e, cn'') \<Rightarrow> Some (Closed (Err e), cn'')
              | (Panic, cn'') \<Rightarrow> Some (Closed Panic, cn''))
           else
             (case conn_handle_command V B command cn' of
                None \<Rightarrow> None
              | Some (Ok _, cn'') \<Rightarrow> conn_run V B evs cn''
              | Some (Err e, cn'') \<Rightarrow> Some (Closed (Ok ()), cn'')
              | Some (Panic, cn'') \<Rightarrow> Some (Closed Panic, cn'')))
      | (Err e, cn') \<Rightarrow> Some (Closed (Ok ()), cn')
      | (Panic, cn') \<Rightarrow> Some (Closed Panic, cn'))"

subsection \<open>Replies\<close>

text \<open>What a connection relies on in its channel: while the channel is live, an output
  that fits is sent and recorded, as far as the wire keeps it.\<close>

locale reply_channel =
  fixes V :: "'c server_channel"
    and live :: "'c \<Rightarrow> bool"
    and fits :: "fenris_output \<Rightarrow> bool"
    and canon :: "fenris_output \<Rightarrow> fenris_output"
    and sent :: "'c \<Rightarrow> fenris_output list"
  assumes send_live: "live c \<Longrightarrow> fits out \<Longrightarrow>
      \<exists>c'. sv_send V out c = (Ok (), c') \<and> live c' \<and> sent c' = sent c @ [canon out]"
begin

lemma conn_send_live:
  assumes "live (cn_channel cn)" "fits out"
  obtains c' where "conn_send V out cn = (Ok (), cn\<lparr>cn_channel := c'\<rparr>)" "live c'"
    "sent c' = sent (cn_channel cn) @ [canon out]"
  using send_live [OF assms] by (auto simp: conn_send_def)

end

subsection \<open>Streaming an object\<close>

text \<open>Chunks that follow each other from an offset, the last one marked.\<close>

fun chunk_seq :: "u64 \<Rightarrow> u64 \<Rightarrow> transfer_chunk list \<Rightarrow> bool" where
  "chunk_seq off n [] = False"
| "chunk_seq off n (c # cs) =
     (tc_offset c = off \<and> tc_total_size c = n \<and> length (tc_data c) \<le> DEFAULT_TRANSFER_CHUNK_SIZE \<and>
      (if cs = [] then tc_is_last c
       else \<not> tc_is_last c \<and> chunk_seq (off + len_u64 (tc_data c)) n cs))"

fun conn_write_chunks ::
  "'c server_channel \<Rightarrow> 's storage_backend \<Rightarrow> transfer_chunk list \<Rightarrow> (('c, 's) connection, unit) action" where
  "conn_write_chunks V B [] = state_return ()"
| "conn_write_chunks V B (ch # cs) =
     state_bind (conn_write_object_chunk V B ch) (\<lambda>_. conn_write_chunks V B cs)"

text \<open>The replies to the chunks of a complete transfer.\<close>

fun write_replies :: "active_write_transfer \<Rightarrow> transfer_chunk list \<Rightarrow> fenris_output list" where
  "write_replies t [] = []"
| "write_replies t (ch # cs) =
     (if cs = [] then [Success (''Transfer complete: '' @ show_u64 (aw_total_size t) @ '' bytes'')]
      else TransferProgress (aw_expected_offset (advance t ch)) # write_replies (advance t ch) cs)"

text \<open>Streaming an object ends, whatever the channel does with the chunks.\<close>

context storage_contract
begin

lemma stream_ends:
  assumes "inv (cn_storage cn)" "\<And>d. content (cn_storage cn) (resolve_path p (cn_current_dir cn)) = Some d \<Longrightarrow> vec_ok d"
  shows "send_chunks_from V B p off cn \<noteq> None"
proof (cases "content (cn_storage cn) (resolve_path p (cn_current_dir cn))")
  case None
  have "0 < DEFAULT_TRANSFER_CHUNK_SIZE" by (simp add: DEFAULT_TRANSFER_CHUNK_SIZE_def)
  from chunk_None [OF assms(1) None this, of off] show ?thesis
    by (subst send_chunks_from.simps)
      (auto simp: read_object_chunk_def state_bind_def split: res.splits prod.splits)
next
  case (Some d)
  with assms(2) have "vec_ok d" by simp
  from assms(1) Some show ?thesis
  proof (induction "length d - unat off" arbitrary: off cn rule: less_induct)
    case less
    from less.prems \<open>vec_ok d\<close> show ?case
    proof (cases rule: read_next [where off = off])
      case (final ch)
      then show ?thesis
        by (subst send_chunks_from.simps) (auto split: prod.split res.split)
    next
      case (more ch)
      let ?off = "off + len_u64 (tc_data ch)"
      obtain r c' where sent: "conn_send V (ObjectContentChunk ch) cn = (r, cn\<lparr>cn_channel := c'\<rparr>)"
        by (cases "sv_send V (ObjectContentChunk ch) (cn_channel cn)") (simp add: conn_send_def)
      have "send_chunks_from V B p ?off (cn\<lparr>cn_channel := c'\<rparr>) \<noteq> None"
        using less.hyps [of ?off "cn\<lparr>cn_channel := c'\<rparr>"] less.prems more(6,7) by (simp add: diff_less_mono2)
      with more sent show ?thesis
        by (subst send_chunks_from.simps) (simp split: res.split)
    qed
  qed
qed

lemma command_ends:
  assumes "inv (cn_storage cn)" "\<And>p d. content (cn_storage cn) p = Some d \<Longrightarrow> vec_ok d"
  shows "conn_handle_command V B c cn \<noteq> None"
  using stream_ends [OF assms] by (cases c) (simp_all add: send_object_content_chunks_def)

end

locale served_connection =
  storage_contract B inv content same + reply_channel V live fits canon sent
  for B :: "'s storage_backend" and inv content same and V :: "'c server_channel" and live fits canon sent
begin

lemma stream_from:
  assumes "inv (cn_storage cn)" "content (cn_storage cn) (resolve_path p (cn_current_dir cn)) = Some d" "vec_ok d"
    and "live (cn_channel cn)" "\<And>ch. length (tc_data ch) \<le> DEFAULT_TRANSFER_CHUNK_SIZE \<Longrightarrow> fits (ObjectContentChunk ch)"
    and "unat off \<le> length d"
  shows "\<exists>c' cs. send_chunks_from V B p off cn = Some (Ok (), cn\<lparr>cn_channel := c'\<rparr>) \<and>
    sent c' = sent (cn_channel cn) @ map (canon \<circ> ObjectContentChunk) cs \<and> live c' \<and>
    chunk_seq off (len_u64 d) cs \<and> concat (map tc_data cs) = drop (unat off) d"
  using assms(1,2,4,6)
proof (induction "length d - unat off" arbitrary: off cn rule: less_induct)
  case less
  from less.prems(1,2) assms(3) show ?case
  proof (cases rule: read_next [where off = off])
    case (final ch)
    obtain c' where "conn_send V (ObjectContentChunk ch) cn = (Ok (), cn\<lparr>cn_channel := c'\<rparr>)" "live c'"
      "sent c' = sent (cn_channel cn) @ [canon (ObjectContentChunk ch)]"
      by (rule conn_send_live [OF less.prems(3) assms(5) [OF final(5)]])
    with final show ?thesis
      by (subst send_chunks_from.simps) (auto intro!: exI [of _ c'] exI [of _ "[ch]"])
  next
    case (more ch)
    let ?off = "off + len_u64 (tc_data ch)"
    obtain c' where c': "conn_send V (ObjectContentChunk ch) cn = (Ok (), cn\<lparr>cn_channel := c'\<rparr>)" "live c'"
      "sent c' = sent (cn_channel cn) @ [canon (ObjectContentChunk ch)]"
      by (rule conn_send_live [OF less.prems(3) assms(5) [OF more(5)]])
    have "length d - unat ?off < length d - unat off" using more(6,7) by linarith
    then have "\<exists>c2 cs. send_chunks_from V B p ?off (cn\<lparr>cn_channel := c'\<rparr>) =
          Some (Ok (), (cn\<lparr>cn_channel := c'\<rparr>)\<lparr>cn_channel := c2\<rparr>) \<and>
        sent c2 = sent c' @ map (canon \<circ> ObjectContentChunk) cs \<and> live c2 \<and>
        chunk_seq ?off (len_u64 d) cs \<and> concat (map tc_data cs) = drop (unat ?off) d"
      using less.hyps [of ?off "cn\<lparr>cn_channel := c'\<rparr>"] less.prems c' more(7) by simp
    then obtain c2 cs where IH: "send_chunks_from V B p ?off (cn\<lparr>cn_channel := c'\<rparr>) = Some (Ok (), cn\<lparr>cn_channel := c2\<rparr>)"
      "sent c2 = sent c' @ map (canon \<circ> ObjectContentChunk) cs" "live c2"
      "chunk_seq ?off (len_u64 d) cs" "concat (map tc_data cs) = drop (unat ?off) d"
      by auto
    have "send_chunks_from V B p off cn = Some (Ok (), cn\<lparr>cn_channel := c2\<rparr>)"
      using more(1-3) c'(1) IH(1) by (subst send_chunks_from.simps) simp
    moreover have "cs \<noteq> []" using IH(4) by auto
    ultimately show ?thesis
      using IH c' more by (intro exI [of _ c2] exI [of _ "ch # cs"]) auto
  qed
qed

subsection \<open>A chunked write\<close>

lemma write_one:
  assumes "inv (cn_storage cn)" "cn_active_write cn = Some t" "content (cn_storage cn) (aw_path t) = Some c"
    and "chunk_fits t ch DEFAULT_TRANSFER_CHUNK_SIZE" "live (cn_channel cn)"
    and "chunk_outcome t ch = Ok out" "fits out"
    and keep: "keep = (if is_success out then None else Some (advance t ch))"
  shows "\<exists>s' c'. conn_write_object_chunk V B ch cn =
      (Ok (), cn\<lparr>cn_storage := s', cn_active_write := keep, cn_channel := c'\<rparr>) \<and>
    inv s' \<and> content s' (aw_path t) = Some (c @ tc_data ch) \<and> live c' \<and>
    sent c' = sent (cn_channel cn) @ [canon out] \<and>
    (\<forall>q. \<not> same (aw_path t) q \<longrightarrow> content s' q = content (cn_storage cn) q)"
proof -
  obtain s' where s': "handler_write_object_chunk B t ch DEFAULT_TRANSFER_CHUNK_SIZE (cn_storage cn) =
      (Ok out, advance t ch, s')" "inv s'" "content s' (aw_path t) = Some (c @ tc_data ch)"
    "\<And>q. \<not> same (aw_path t) q \<Longrightarrow> content s' q = content (cn_storage cn) q"
    using write_chunk_content [OF assms(1,3,4)] assms(6) by metis
  let ?cn = "cn\<lparr>cn_storage := s', cn_active_write := keep\<rparr>"
  obtain c' where "conn_send V out ?cn = (Ok (), ?cn\<lparr>cn_channel := c'\<rparr>)" "live c'"
    "sent c' = sent (cn_channel cn) @ [canon out]"
    using conn_send_live [of ?cn out] assms(5,7) by auto
  with s' assms(2) keep show ?thesis
    by (auto simp: conn_write_object_chunk_def)
qed

text \<open>One chunk of a complete transfer: it is stored and answered, and the chunks that are left
  are those of the transfer that is left.\<close>

lemma write_next:
  assumes "inv (cn_storage cn)" "cn_active_write cn = Some t" "content (cn_storage cn) (aw_path t) = Some c"
    and "chunk_seq (aw_expected_offset t) (aw_total_size t) (ch # cs)" "live (cn_channel cn)"
    and "unat (aw_expected_offset t) + length (concat (map tc_data (ch # cs))) = unat (aw_total_size t)"
    and "\<And>n. fits (TransferProgress n)"
    "\<And>n. fits (Success (''Transfer complete: '' @ show_u64 n @ '' bytes''))"
  shows "\<exists>s' c'. conn_write_object_chunk V B ch cn =
      (Ok (), cn\<lparr>cn_storage := s', cn_active_write := (if cs = [] then None else Some (advance t ch)), cn_channel := c'\<rparr>) \<and>
    inv s' \<and> content s' (aw_path t) = Some (c @ tc_data ch) \<and> live c' \<and>
    sent c' = sent (cn_channel cn) @ [canon (hd (write_replies t (ch # cs)))] \<and>
    (\<forall>q. \<not> same (aw_path t) q \<longrightarrow> content s' q = content (cn_storage cn) q)"
    and "cs \<noteq> [] \<Longrightarrow> chunk_seq (aw_expected_offset (advance t ch)) (aw_total_size (advance t ch)) cs"
    and "cs \<noteq> [] \<Longrightarrow>
      unat (aw_expected_offset (advance t ch)) + length (concat (map tc_data cs)) = unat (aw_total_size (advance t ch))"
proof -
  let ?k = "length (tc_data ch)"
  have fit: "chunk_fits t ch DEFAULT_TRANSFER_CHUNK_SIZE"
    using assms(4) by (simp add: chunk_fits_def)
  then have klen: "unat (len_u64 (tc_data ch)) = ?k"
    by (intro unat_len_u64) (simp add: chunk_fits_def DEFAULT_TRANSFER_CHUNK_SIZE_def)
  have "unat (aw_expected_offset t) + ?k \<le> unat (aw_total_size t)" using assms(6) by simp
  then have "unat (aw_expected_offset t) + ?k < 2 ^ 64"
    by (rule le_less_trans) simp
  then have adv: "unat (aw_expected_offset (advance t ch)) = unat (aw_expected_offset t) + ?k"
    using klen by (simp add: advance_def unat_word_ariths)
  show "chunk_seq (aw_expected_offset (advance t ch)) (aw_total_size (advance t ch)) cs" if "cs \<noteq> []"
    using assms(4) that by (simp add: advance_def)
  show "unat (aw_expected_offset (advance t ch)) + length (concat (map tc_data cs)) = unat (aw_total_size (advance t ch))"
    using assms(6) adv by (simp add: advance_def)
  let ?out = "hd (write_replies t (ch # cs))"
  have "chunk_outcome t ch = Ok ?out"
  proof (cases "cs = []")
    case True
    with assms(6) adv have "aw_expected_offset (advance t ch) = aw_total_size t"
      by (intro word_unat_eq_iff [THEN iffD2]) simp
    with True assms(4) show ?thesis by (simp add: chunk_outcome_def)
  qed (use assms(4) in \<open>simp add: chunk_outcome_def\<close>)
  moreover have "fits ?out" using assms(7,8) by simp
  moreover have "(if cs = [] then None else Some (advance t ch)) = (if is_success ?out then None else Some (advance t ch))"
    by (simp add: is_success_def)
  ultimately show "\<exists>s' c'. conn_write_object_chunk V B ch cn =
      (Ok (), cn\<lparr>cn_storage := s', cn_active_write := (if cs = [] then None else Some (advance t ch)), cn_channel := c'\<rparr>) \<and>
    inv s' \<and> content s' (aw_path t) = Some (c @ tc_data ch) \<and> live c' \<and>
    sent c' = sent (cn_channel cn) @ [canon ?out] \<and>
    (\<forall>q. \<not> same (aw_path t) q \<longrightarrow> content s' q = content (cn_storage cn) q)"
    by (rule write_one [OF assms(1,2,3) fit assms(5)])
qed

lemma write_all_chunks:
  assumes "inv (cn_storage cn)" "cn_active_write cn = Some t" "content (cn_storage cn) (aw_path t) = Some c"
    and "chunk_seq (aw_expected_offset t) (aw_total_size t) cs" "live (cn_channel cn)"
    and "unat (aw_expected_offset t) + length (concat (map tc_data cs)) = unat (aw_total_size t)"
    and "\<And>n. fits (TransferProgress n)"
    "\<And>n. fits (Success (''Transfer complete: '' @ show_u64 n @ '' bytes''))"
  shows "\<exists>s' c'. conn_write_chunks V B cs cn =
      (Ok (), cn\<lparr>cn_storage := s', cn_active_write := None, cn_channel := c'\<rparr>) \<and> inv s' \<and> live c' \<and>
    content s' (aw_path t) = Some (c @ concat (map tc_data cs)) \<and>
    sent c' = sent (cn_channel cn) @ map canon (write_replies t cs) \<and>
    (\<forall>q. \<not> same (aw_path t) q \<longrightarrow> content s' q = content (cn_storage cn) q)"
  using assms(1-6)
proof (induction cs arbitrary: t c cn)
  case Nil
  then show ?case by simp
next
  case (Cons ch cs)
  note step = write_next [OF Cons.prems assms(7,8)]
  obtain s1 c1 where one: "conn_write_object_chunk V B ch cn =
      (Ok (), cn\<lparr>cn_storage := s1, cn_active_write := (if cs = [] then None else Some (advance t ch)), cn_channel := c1\<rparr>)"
    "inv s1" "content s1 (aw_path t) = Some (c @ tc_data ch)" "live c1"
    "sent c1 = sent (cn_channel cn) @ [canon (hd (write_replies t (ch # cs)))]"
    "\<And>q. \<not> same (aw_path t) q \<Longrightarrow> content s1 q = content (cn_storage cn) q"
    using step(1) by blast
  have t': "aw_path (advance t ch) = aw_path t" by (simp add: advance_def)
  show ?case
  proof (cases "cs = []")
    case True
    with one show ?thesis by auto
  next
    case False
    let ?t = "advance t ch"
    let ?cn = "cn\<lparr>cn_storage := s1, cn_active_write := Some ?t, cn_channel := c1\<rparr>"
    have "\<exists>s' c'. conn_write_chunks V B cs ?cn =
        (Ok (), ?cn\<lparr>cn_storage := s', cn_active_write := None, cn_channel := c'\<rparr>) \<and> inv s' \<and> live c' \<and>
      content s' (aw_path ?t) = Some ((c @ tc_data ch) @ concat (map tc_data cs)) \<and>
      sent c' = sent (cn_channel ?cn) @ map canon (write_replies ?t cs) \<and>
      (\<forall>q. \<not> same (aw_path ?t) q \<longrightarrow> content s' q = content (cn_storage ?cn) q)"
      using step(2,3) False one by (intro Cons.IH) (simp_all add: t')
    with one False t' show ?thesis by auto
  qed
qed

end

subsection \<open>The secure channel as a reply channel\<close>

abbreviation with_input :: "secure_channel \<Rightarrow> bytes \<Rightarrow> secure_channel" where
  "with_input ch x \<equiv> ch\<lparr>sc_stream := (sc_stream ch)\<lparr>ts_in := x\<rparr>\<rparr>"

text \<open>What a peer that shares the keys reads out of the bytes written since the first \<open>n0\<close>
  (those of the handshake).\<close>

definition reader :: "secure_channel \<Rightarrow> bytes \<Rightarrow> secure_channel" where
  "reader ch x = ch\<lparr>sc_stream := \<lparr>ts_in = x, ts_out = [], ts_room = None\<rparr>\<rparr>"

definition mirror :: "nat \<Rightarrow> secure_channel \<Rightarrow> secure_channel" where
  "mirror n0 ch = reader ch (drop n0 (ts_out (sc_stream ch)))"

fun drain :: "'m codec \<Rightarrow> nat \<Rightarrow> secure_channel \<Rightarrow> 'm list" where
  "drain K 0 ch = []"
| "drain K (Suc n) ch = (case recv_msg K ch of (Ok m, ch') \<Rightarrow> m # drain K n ch' | _ \<Rightarrow> [])"

definition delivered :: "prost \<Rightarrow> nat \<Rightarrow> link \<Rightarrow> fenris_output list" where
  "delivered Q n0 l = drain (output_codec Q) (length (ts_out (sc_stream (fst l)))) (mirror n0 (fst l))"

lemma recv_msg_input:
  assumes "recv_msg K ch = (Ok m, ch')"
  shows "\<exists>x. x \<noteq> [] \<and> ts_in (sc_stream ch) = x @ ts_in (sc_stream ch') \<and>
    ch' = with_input ch (ts_in (sc_stream ch')) \<and>
    (\<forall>y. recv_msg K (with_input ch (x @ y)) = (Ok m, with_input ch y))"
proof -
  obtain packet z buf where p: "ts_in (sc_stream ch) = framed packet @ ts_in (sc_stream ch')"
    "open_sealed (sc_crypto ch) packet (sc_key ch) = Ok z" "decompress (sc_compressor ch) z = Ok buf"
    "cd_decode K buf = Ok m" "length packet \<le> DEFAULT_MAX_FRAME_SIZE"
    by (rule recv_msg_Ok [OF assms])
  have "recv_msg K (with_input ch (framed packet @ y)) = (Ok m, with_input ch y)" for y
    using recv_msg_framed [of "with_input ch (framed packet @ y)" packet y z buf K m] p by simp
  moreover have "length (framed packet) \<noteq> 0" by (simp add: framed_def)
  then have "framed packet \<noteq> []" by auto
  moreover have "ch' = with_input ch (ts_in (sc_stream ch'))"
    using recv_msg_framed [OF p(1,5,2-4)] assms by simp
  ultimately show ?thesis using p(1) by blast
qed

lemma recv_msg_no_input: "ts_in (sc_stream ch) = [] \<Longrightarrow> \<exists>e ch'. recv_msg K ch = (Err e, ch')"
  by (simp add: recv_msg_def on_channel_stream_apply receive_prefixed_def receive_prefixed_with_limits_def
      frame_receive_def read_exact_def state_bind_def)

lemma drain_all:
  "recv_msgs K (length ms) ch = (Ok ms, with_input ch []) \<Longrightarrow> length ms \<le> n \<Longrightarrow> drain K n ch = ms"
proof (induction ms arbitrary: n ch)
  case Nil
  then have "ts_in (sc_stream ch) = []"
    by simp (metis secure_channel.select_convs(1) secure_channel.surjective secure_channel.update_convs(1) tcp_stream.select_convs(1) tcp_stream.surjective tcp_stream.update_convs(1))
  then show ?case using recv_msg_no_input [of ch K] by (cases n) auto
next
  case (Cons m ms)
  then obtain ch1 where r: "recv_msg K ch = (Ok m, ch1)" "recv_msgs K (length ms) ch1 = (Ok ms, with_input ch [])"
    by (auto simp: state_bind_eq_Ok)
  from recv_msg_input [OF r(1)] obtain y where "ch1 = with_input ch y" by blast
  then have "with_input ch1 [] = with_input ch []" by simp
  with Cons r show ?case by (cases n) auto
qed

lemma recv_msgs_snoc:
  "recv_msgs K (length ms) (with_input ch x) = (Ok ms, with_input ch []) \<Longrightarrow>
   recv_msg K (with_input ch y) = (Ok m, with_input ch []) \<Longrightarrow>
   recv_msgs K (length (ms @ [m])) (with_input ch (x @ y)) = (Ok (ms @ [m]), with_input ch [])"
proof (induction ms arbitrary: x)
  case Nil
  then have "x = []"
    by (simp add: secure_channel.equality)
      (metis secure_channel.ext_inject secure_channel.surjective secure_channel.update_convs(1)
        tcp_stream.ext_inject tcp_stream.surjective tcp_stream.update_convs(1))
  with Nil show ?case by simp
next
  case (Cons k ms)
  then obtain ch1 where r: "recv_msg K (with_input ch x) = (Ok k, ch1)" "recv_msgs K (length ms) ch1 = (Ok ms, with_input ch [])"
    by (auto simp: state_bind_eq_Ok)
  from recv_msg_input [OF r(1)] obtain u v where u: "x = u @ v" "ch1 = with_input ch v"
    "\<And>z. recv_msg K (with_input ch (u @ z)) = (Ok k, with_input ch z)"
    by auto
  from Cons.IH [of v] Cons.prems(2) r(2) u(2)
  have "recv_msgs K (length (ms @ [m])) (with_input ch (v @ y)) = (Ok (ms @ [m]), with_input ch [])" by simp
  with u(1,3) show ?case by simp
qed

lemma recv_msgs_count: "recv_msgs K n ch = (Ok ms, ch') \<Longrightarrow> length ms = n \<and> n \<le> length (ts_in (sc_stream ch))"
proof (induction n arbitrary: ch ms)
  case (Suc n)
  then obtain m ch1 ms1 where r: "recv_msg K ch = (Ok m, ch1)" "recv_msgs K n ch1 = (Ok ms1, ch')" "ms = m # ms1"
    by (auto simp: state_bind_eq_Ok)
  from recv_msg_input [OF r(1)] obtain x where "x \<noteq> []" "ts_in (sc_stream ch) = x @ ts_in (sc_stream ch1)" by blast
  then have "length (ts_in (sc_stream ch1)) < length (ts_in (sc_stream ch))" by simp
  with Suc.IH [OF r(2)] r(3) show ?case by simp
qed simp

definition secure_live :: "crypto_primitives \<Rightarrow> prost \<Rightarrow> nat \<Rightarrow> link \<Rightarrow> bool" where
  "secure_live P Q n0 = (\<lambda>(ch, r). aead_ok P \<and> prost_ok Q \<and> ts_room (sc_stream ch) = None \<and>
     cm_encryptor (sc_crypto ch) = AesGcmEncryptor P \<and> mgr_compressor (sc_compressor ch) = NullCompressor \<and>
     length (sc_key ch) = KEY_SIZE \<and> n0 \<le> length (ts_out (sc_stream ch)) \<and>
     (\<exists>ms. recv_msgs (output_codec Q) (length ms) (mirror n0 ch) = (Ok ms, reader ch [])))"

text \<open>A reply fits when its packet fits a frame.\<close>

definition reply_fits :: "prost \<Rightarrow> fenris_output \<Rightarrow> bool" where
  "reply_fits Q out \<longleftrightarrow> output_text_ok out \<and>
     (\<forall>bs. output_encode Q out = Ok bs \<longrightarrow> length bs + IV_SIZE + TAG_SIZE \<le> DEFAULT_MAX_FRAME_SIZE)"

lemma delivered_eq:
  assumes "recv_msgs (output_codec Q) (length ms) (mirror n0 ch) = (Ok ms, reader ch [])"
  shows "delivered Q n0 (ch, r) = ms"
proof -
  have "length ms \<le> length (ts_out (sc_stream ch))"
    using recv_msgs_count [OF assms] by (simp add: mirror_def reader_def)
  moreover have "with_input (mirror n0 ch) [] = reader ch []" by (simp add: mirror_def reader_def)
  ultimately show ?thesis
    using drain_all [of "output_codec Q" ms "mirror n0 ch"] assms by (simp add: delivered_def)
qed

lemma seal_length:
  assumes "aead_ok P" "cm_encryptor cm = AesGcmEncryptor P" "seal cm pt k r = (Ok packet, r')" "length k = KEY_SIZE"
  shows "length packet = length pt + IV_SIZE + TAG_SIZE"
proof -
  define iv where "iv = fst (fill_bytes IV_SIZE r)"
  have iv: "length iv = IV_SIZE" by (simp add: iv_def)
  have "seal cm pt k r = (res_bind (aes_gcm_encrypt P pt k iv) (\<lambda>c. Ok (iv @ c)), snd (fill_bytes IV_SIZE r))"
    using assms(2) by (simp add: seal_def cm_generate_iv_def cm_encrypt_def case_prod_beta iv_def)
  with assms(3) obtain ct where ct: "aes_gcm_encrypt P pt k iv = Ok ct" "packet = iv @ ct"
    by (auto simp: res_bind_eq_Ok)
  then have "length ct = length pt + TAG_SIZE"
    using aead_okD(2) [OF assms(1) assms(4) iv] by (auto simp: aes_gcm_encrypt_Ok)
  with ct(2) iv show ?thesis by simp
qed

lemma send_msg_fits:
  assumes "aead_ok P" "ts_room (sc_stream ch) = None" "cm_encryptor (sc_crypto ch) = AesGcmEncryptor P"
    and "mgr_compressor (sc_compressor ch) = NullCompressor" "length (sc_key ch) = KEY_SIZE"
    and bs: "cd_encode K msg = Ok bs" "length bs + IV_SIZE + TAG_SIZE \<le> DEFAULT_MAX_FRAME_SIZE"
  shows "\<exists>s' r' packet. send_msg K msg (ch, r) = (Ok (), (ch\<lparr>sc_stream := s'\<rparr>, r')) \<and>
    s' = (sc_stream ch)\<lparr>ts_out := ts_out (sc_stream ch) @ framed packet\<rparr>"
proof -
  have cmp: "compress (sc_compressor ch) bs = Ok bs"
    using assms(4) by (simp add: compress_def NullCompressor_def)
  obtain packet r' where sl: "seal (sc_crypto ch) bs (sc_key ch) r = (Ok packet, r')"
    using aes.seal_total [of P "sc_crypto ch" "sc_key ch" bs r] assms
    by (auto simp: DEFAULT_MAX_FRAME_SIZE_def)
  have "length packet \<le> DEFAULT_MAX_FRAME_SIZE"
    using seal_length [of P "sc_crypto ch" bs "sc_key ch" r packet r'] sl assms by simp
  then have "send_prefixed packet (sc_stream ch) =
      (Ok (), (sc_stream ch)\<lparr>ts_out := ts_out (sc_stream ch) @ framed packet\<rparr>)"
    using assms(2) by (intro send_prefixed_room) simp_all
  with bs(1) cmp sl show ?thesis
    by (auto simp: send_msg_Ok)
qed

lemma secure_send_live:
  assumes "secure_live P Q n0 (ch, r)" "reply_fits Q out"
  shows "\<exists>s' r' packet. send_msg (output_codec Q) out (ch, r) = (Ok (), (ch\<lparr>sc_stream := s'\<rparr>, r')) \<and>
    s' = (sc_stream ch)\<lparr>ts_out := ts_out (sc_stream ch) @ framed packet\<rparr>"
proof -
  obtain bs where bs: "cd_encode (output_codec Q) out = Ok bs" "length bs + IV_SIZE + TAG_SIZE \<le> DEFAULT_MAX_FRAME_SIZE"
    using assms output_wire.encode_total [of Q out] by (auto simp: secure_live_def reply_fits_def)
  then show ?thesis
    using assms(1) by (intro send_msg_fits [of P]) (auto simp: secure_live_def)
qed

interpretation secure_replies: reply_channel "secure_server_channel Q" "secure_live P Q n0" "reply_fits Q"
  output_on_wire "delivered Q n0" for P Q n0
proof
  fix c :: link and out
  assume live: "secure_live P Q n0 c" and fits: "reply_fits Q out"
  obtain ch r where c: "c = (ch, r)" by (cases c)
  obtain s' r' packet where snd: "send_msg (output_codec Q) out (ch, r) = (Ok (), (ch\<lparr>sc_stream := s'\<rparr>, r'))"
    and s': "s' = (sc_stream ch)\<lparr>ts_out := ts_out (sc_stream ch) @ framed packet\<rparr>"
    using secure_send_live live fits unfolding c by blast
  let ?ch = "ch\<lparr>sc_stream := s'\<rparr>"
  obtain ms where ms: "recv_msgs (output_codec Q) (length ms) (mirror n0 ch) = (Ok ms, reader ch [])"
    and n0: "n0 \<le> length (ts_out (sc_stream ch))"
    using live by (auto simp: secure_live_def c)
  have same: "reader ?ch x = reader ch x" for x by (simp add: reader_def)
  have "recv_msg (output_codec Q) (reader ch (framed packet)) = (Ok (output_on_wire out), reader ch [])"
    using output_link.send_recv [of P Q ch "reader ch (framed packet)" out r "()" ?ch r' "framed packet" "[]"]
      live fits snd s' by (simp add: secure_live_def c reply_fits_def peers_def reader_def)
  then have all: "recv_msgs (output_codec Q) (length (ms @ [output_on_wire out])) (mirror n0 ?ch) =
      (Ok (ms @ [output_on_wire out]), reader ?ch [])"
    using recv_msgs_snoc [where ch = "reader ch []" and x = "drop n0 (ts_out (sc_stream ch))" and y = "framed packet"
        and ms = ms and m = "output_on_wire out" and K = "output_codec Q"] ms n0 s'
    by (simp add: mirror_def reader_def)
  have "secure_live P Q n0 (?ch, r')"
  proof -
    have "\<exists>ms. recv_msgs (output_codec Q) (length ms) (mirror n0 ?ch) = (Ok ms, reader ?ch [])"
      using all by blast
    moreover have "n0 \<le> length (ts_out s')" using n0 s' by simp
    ultimately show ?thesis using live s' by (simp add: secure_live_def c)
  qed
  moreover have "delivered Q n0 (?ch, r') = delivered Q n0 c @ [output_on_wire out]"
    using delivered_eq [OF ms] delivered_eq [OF all] by (simp add: c)
  ultimately show "\<exists>c'. sv_send (secure_server_channel Q) out c = (Ok (), c') \<and> secure_live P Q n0 c' \<and>
      delivered Q n0 c' = delivered Q n0 c @ [output_on_wire out]"
    using snd by (auto simp: secure_server_channel_def c)
qed

interpretation memory_server: served_connection memory_backend ms_inv memory_content same_place
  "secure_server_channel Q" "secure_live P Q n0" "reply_fits Q" output_on_wire "delivered Q n0" for P Q n0
  by unfold_locales

text \<open>A reply is small when the coder's bound lets its packet fit a frame.\<close>

definition reply_small :: "fenris_output \<Rightarrow> bool" where
  "reply_small out \<longleftrightarrow> output_text_ok out \<and>
     2 * response_size (response_from_output out) + 128 + IV_SIZE + TAG_SIZE \<le> DEFAULT_MAX_FRAME_SIZE"

lemma reply_small_fits: "prost_compact Q \<Longrightarrow> reply_small out \<Longrightarrow> reply_fits Q out"
  using prost_compact_lengths(2) [of Q out] by (force simp: reply_small_def reply_fits_def)

lemmas reply_sizes = reply_small_def response_size_def mk_response_def chunk_to_proto_def key_sizes
  DEFAULT_TRANSFER_CHUNK_SIZE_def DEFAULT_MAX_FRAME_SIZE_def

lemma chunk_reply_small: "length (tc_data ch) \<le> DEFAULT_TRANSFER_CHUNK_SIZE \<Longrightarrow> reply_small (ObjectContentChunk ch)"
  by (simp add: reply_sizes)

lemma ack_reply_small: "reply_small (TransferProgress n)" "reply_small (TransferReady k)"
  by (simp_all add: reply_sizes)

lemma text_reply_small:
  assumes "utf8_valid m" "length m \<le> DEFAULT_TRANSFER_CHUNK_SIZE"
  shows "reply_small (Success m)" "reply_small (ErrorOutput m)"
  using assms by (simp_all add: reply_sizes)

lemmas chunk_reply_fits = reply_small_fits [OF _ chunk_reply_small]
lemmas progress_reply_fits = reply_small_fits [OF _ ack_reply_small(1)]
lemmas success_reply_fits = reply_small_fits [OF _ text_reply_small(1)]

end
