(* ===== verification/Server.thy ===== *)
theory Server
  imports Connection
begin

section \<open>The server (server/src/server.rs)\<close>

text \<open>
  The accept loop, its connection tasks and the shutdown, as a step relation.  A task is
  in its handshake or running; it holds a permit of the connection limiter from its spawn
  to its end, and the permit is returned when the task ends, however it ends.  The loop
  serves accepts until the token is cancelled, then waits for every task.  The steps are
  the ways the three branches of \<open>select!\<close> and the tasks' own progress interleave.
  Identifiers come from an atomic counter that wraps at \<open>2 ^ 64\<close>; \<open>sv_accepted\<close> and
  \<open>sv_rejected\<close> only count for the theorems.
\<close>

datatype task_phase = Handshaking | Serving

datatype server_phase = Accepting | Draining | Stopped

record server_state =
  sv_config :: server_config
  sv_cancelled :: bool
  sv_permits :: nat
  sv_next_id :: u64
  sv_tasks :: "(u64 \<times> task_phase) list"
  sv_finished :: nat
  sv_rejected :: nat
  sv_accepted :: nat
  sv_phase :: server_phase

text \<open>\<open>Semaphore::new\<close> panics above its maximum number of permits.\<close>

definition MAX_PERMITS :: nat where
  "MAX_PERMITS = (2 ^ 64 - 1) div 8"

definition bind_with_identity :: "server_config \<Rightarrow> io_error option \<Rightarrow> server_state res" where
  "bind_with_identity config bind_error =
     (case bind_error of
        Some e \<Rightarrow> Err (NetworkError e)
      | None \<Rightarrow>
          if MAX_PERMITS < max_connections config then Panic
          else Ok \<lparr>sv_config = config, sv_cancelled = False, sv_permits = max_connections config,
                   sv_next_id = 1, sv_tasks = [], sv_finished = 0, sv_rejected = 0,
                   sv_accepted = 0, sv_phase = Accepting\<rparr>)"

definition spawn_connection :: "server_state \<Rightarrow> server_state" where
  "spawn_connection s =
     (if sv_permits s = 0 then s\<lparr>sv_rejected := sv_rejected s + 1\<rparr>
      else s\<lparr>sv_permits := sv_permits s - 1, sv_next_id := sv_next_id s + 1,
             sv_accepted := sv_accepted s + 1, sv_tasks := sv_tasks s @ [(sv_next_id s, Handshaking)]\<rparr>)"

definition shutdown_handle :: "server_state \<Rightarrow> server_state" where
  "shutdown_handle s = s\<lparr>sv_cancelled := True\<rparr>"

text \<open>The end of a task drops its permit and leaves its result to be joined.\<close>

definition end_task :: "nat \<Rightarrow> server_state \<Rightarrow> server_state" where
  "end_task i s =
     s\<lparr>sv_permits := sv_permits s + 1, sv_finished := sv_finished s + 1,
       sv_tasks := take i (sv_tasks s) @ drop (Suc i) (sv_tasks s)\<rparr>"

text \<open>A task may finish its handshake, fail or end at any time; after the token is
  cancelled a serving connection ends at its next turn.\<close>

inductive server_step :: "server_state \<Rightarrow> server_state \<Rightarrow> bool" where
  step_accept: "sv_phase s = Accepting \<Longrightarrow> server_step s (spawn_connection s)"
| step_accept_error: "sv_phase s = Accepting \<Longrightarrow> server_step s s"
| step_signal: "server_step s (shutdown_handle s)"
| step_handshake_done: "i < length (sv_tasks s) \<Longrightarrow> snd (sv_tasks s ! i) = Handshaking \<Longrightarrow>
    server_step s (s\<lparr>sv_tasks := (sv_tasks s)[i := (fst (sv_tasks s ! i), Serving)]\<rparr>)"
| step_task_end: "i < length (sv_tasks s) \<Longrightarrow> server_step s (end_task i s)"
| step_join: "sv_phase s \<noteq> Stopped \<Longrightarrow> 0 < sv_finished s \<Longrightarrow> server_step s (s\<lparr>sv_finished := sv_finished s - 1\<rparr>)"
| step_shutdown: "sv_phase s = Accepting \<Longrightarrow> sv_cancelled s \<Longrightarrow> server_step s (s\<lparr>sv_phase := Draining\<rparr>)"
| step_stop: "sv_phase s = Draining \<Longrightarrow> sv_tasks s = [] \<Longrightarrow> sv_finished s = 0 \<Longrightarrow>
    server_step s (s\<lparr>sv_phase := Stopped\<rparr>)"

inductive_cases server_stepE: "server_step s s'"

inductive server_reach :: "server_state \<Rightarrow> server_state \<Rightarrow> bool" for s0 where
  reach_start: "server_reach s0 s0"
| reach_step: "server_reach s0 s \<Longrightarrow> server_step s s' \<Longrightarrow> server_reach s0 s'"

subsection \<open>The limiter is never exceeded and never leaks\<close>

definition server_inv :: "server_state \<Rightarrow> bool" where
  "server_inv s \<longleftrightarrow>
     sv_permits s + length (sv_tasks s) = max_connections (sv_config s) \<and>
     (sv_phase s \<noteq> Accepting \<longrightarrow> sv_cancelled s) \<and>
     (sv_phase s = Stopped \<longrightarrow> sv_tasks s = [] \<and> sv_finished s = 0)"

lemma bind_inv: "bind_with_identity config e = Ok s \<Longrightarrow> server_inv s \<and> sv_config s = config"
  by (auto simp: bind_with_identity_def server_inv_def split: option.splits if_splits)

lemma server_step_config: "server_step s s' \<Longrightarrow> sv_config s' = sv_config s"
  by (elim server_stepE) (auto simp: spawn_connection_def shutdown_handle_def end_task_def)

lemma server_step_inv: "server_step s s' \<Longrightarrow> server_inv s \<Longrightarrow> server_inv s'"
  by (elim server_stepE)
    (auto simp: server_inv_def spawn_connection_def shutdown_handle_def end_task_def)

lemma server_reach_inv:
  "server_reach s0 s \<Longrightarrow> server_inv s0 \<Longrightarrow> server_inv s \<and> sv_config s = sv_config s0"
  by (induction rule: server_reach.induct) (auto dest: server_step_inv server_step_config)

lemma server_reach_limit:
  assumes "bind_with_identity config e = Ok s0" "server_reach s0 s"
  shows "length (sv_tasks s) \<le> max_connections config \<and>
    sv_permits s = max_connections config - length (sv_tasks s)"
  using server_reach_inv [OF assms(2)] bind_inv [OF assms(1)] by (auto simp: server_inv_def)

subsection \<open>Identifiers\<close>

text \<open>As long as fewer than \<open>2 ^ 64\<close> connections were accepted, the identifiers of live
  connections are distinct.\<close>

definition ids_inv :: "server_state \<Rightarrow> bool" where
  "ids_inv s \<longleftrightarrow> sv_next_id s = of_nat (Suc (sv_accepted s)) \<and>
     (\<exists>ns. map fst (sv_tasks s) = map of_nat ns \<and> distinct ns \<and> (\<forall>n \<in> set ns. n \<le> sv_accepted s))"

lemma ids_inv_cong:
  "sv_next_id s' = sv_next_id s \<Longrightarrow> sv_accepted s' = sv_accepted s \<Longrightarrow>
   map fst (sv_tasks s') = map fst (sv_tasks s) \<Longrightarrow> ids_inv s' = ids_inv s"
  by (simp add: ids_inv_def)

lemma ids_inv_spawn: "ids_inv s \<Longrightarrow> ids_inv (spawn_connection s)"
proof (cases "sv_permits s = 0")
  case False
  assume "ids_inv s"
  then obtain ns where "sv_next_id s = of_nat (Suc (sv_accepted s))" "map fst (sv_tasks s) = map of_nat ns"
    "distinct ns" "\<forall>n \<in> set ns. n \<le> sv_accepted s"
    by (auto simp: ids_inv_def)
  moreover from this(4) have "Suc (sv_accepted s) \<notin> set ns" "\<forall>n \<in> set ns. n \<le> Suc (sv_accepted s)"
    by force+
  ultimately show ?thesis
    using False unfolding ids_inv_def
    by (intro conjI exI [of _ "ns @ [Suc (sv_accepted s)]"]) (simp_all add: spawn_connection_def)
qed (simp add: spawn_connection_def ids_inv_def)

lemma ids_inv_end: "ids_inv s \<Longrightarrow> ids_inv (end_task i s)"
proof -
  assume "ids_inv s"
  then obtain ns where ns: "sv_next_id s = of_nat (Suc (sv_accepted s))" "map fst (sv_tasks s) = map of_nat ns"
    "distinct ns" "\<forall>n \<in> set ns. n \<le> sv_accepted s"
    by (auto simp: ids_inv_def)
  let ?ns = "take i ns @ drop (Suc i) ns"
  have "set (take i ns) \<inter> set (drop (Suc i) ns) = {}"
    using ns(3) by (intro set_take_disj_set_drop_if_distinct) simp_all
  then have "distinct ?ns" using ns(3) by simp
  moreover have "map fst (sv_tasks (end_task i s)) = map of_nat ?ns"
    using ns(2) by (simp add: end_task_def flip: take_map drop_map)
  moreover have "\<forall>n \<in> set ?ns. n \<le> sv_accepted s"
    using ns(4) by (auto dest: in_set_takeD in_set_dropD)
  ultimately show ?thesis
    using ns(1) unfolding ids_inv_def
    by (intro conjI exI [of _ ?ns]) (simp_all add: end_task_def)
qed

lemma map_fst_phase: "i < length ts \<Longrightarrow> map fst (ts[i := (fst (ts ! i), x)]) = map fst ts"
  by (metis fst_conv list_update_id map_update nth_map)

lemma server_step_ids: "server_step s s' \<Longrightarrow> ids_inv s \<Longrightarrow> ids_inv s'"
  by (erule server_stepE)
    (auto simp: ids_inv_spawn ids_inv_end shutdown_handle_def map_fst_phase cong: ids_inv_cong)

lemma server_reach_ids: "server_reach s0 s \<Longrightarrow> ids_inv s0 \<Longrightarrow> ids_inv s"
  by (induction rule: server_reach.induct) (auto intro: server_step_ids)

lemma ids_inv_distinct:
  assumes "ids_inv s" "sv_accepted s < 2 ^ 64"
  shows "distinct (map fst (sv_tasks s))"
proof -
  obtain ns where ns: "map fst (sv_tasks s) = map of_nat ns" "distinct ns" "\<forall>n \<in> set ns. n \<le> sv_accepted s"
    using assms(1) by (auto simp: ids_inv_def)
  have "inj_on (of_nat :: nat \<Rightarrow> u64) (set ns)"
  proof (rule inj_onI)
    fix m n
    assume "m \<in> set ns" "n \<in> set ns" and eq: "(of_nat m :: u64) = of_nat n"
    then have "m < 2 ^ 64" "n < 2 ^ 64" using ns(3) assms(2) by force+
    then show "m = n" using eq by (metis unat_of_nat_64)
  qed
  with ns show ?thesis by (simp add: distinct_map)
qed

subsection \<open>Shutdown\<close>

text \<open>What remains to be done once the loop has left the accepting phase: a handshake is completed or
  fails, a task ends, its result is joined, the loop returns.\<close>

definition task_work :: "task_phase \<Rightarrow> nat" where
  "task_work ph = (case ph of Handshaking \<Rightarrow> 3 | Serving \<Rightarrow> 2)"

definition drain_work :: "server_state \<Rightarrow> nat" where
  "drain_work s = (\<Sum>t \<leftarrow> sv_tasks s. task_work (snd t)) + sv_finished s + (if sv_phase s = Draining then 1 else 0)"

lemma sum_list_split: "i < length xs \<Longrightarrow> sum_list (map f xs) = sum_list (map f (take i xs)) + f (xs ! i) + sum_list (map f (drop (Suc i) xs))"
  for f :: "'a \<Rightarrow> nat"
  by (metis (no_types, lifting) add.assoc id_take_nth_drop list.simps(9) map_append sum_list.Cons sum_list_append)

lemma work_end_task: "i < length (sv_tasks s) \<Longrightarrow> drain_work (end_task i s) < drain_work s"
  by (cases "snd (sv_tasks s ! i)")
    (simp_all add: drain_work_def end_task_def task_work_def sum_list_split [of i "sv_tasks s"])

lemma work_handshake:
  assumes "i < length (sv_tasks s)" "snd (sv_tasks s ! i) = Handshaking"
  shows "drain_work (s\<lparr>sv_tasks := (sv_tasks s)[i := (fst (sv_tasks s ! i), Serving)]\<rparr>) < drain_work s"
  using assms by (simp add: drain_work_def task_work_def sum_list_split [of i "sv_tasks s"] upd_conv_take_nth_drop)

text \<open>After the loop has seen the cancellation nothing is accepted, and every step that changes the
  server brings the end nearer.\<close>

lemma drain_step:
  assumes "server_inv s" "sv_phase s \<noteq> Accepting" "server_step s s'"
  shows "sv_phase s' \<noteq> Accepting \<and> sv_accepted s' = sv_accepted s \<and> (s' = s \<or> drain_work s' < drain_work s)"
  using assms(3)
proof (cases rule: server_step.cases)
  case step_signal
  then have "s' = s" using assms(1,2) by (simp add: server_inv_def shutdown_handle_def)
  with assms(2) show ?thesis by simp
next
  case (step_task_end i)
  with work_end_task [of i s] assms(2) show ?thesis by (simp add: end_task_def)
next
  case (step_handshake_done i)
  with work_handshake [of i s] assms(2) show ?thesis by simp
qed (use assms(2) in \<open>auto simp: drain_work_def\<close>)

lemma drain_enabled:
  assumes "server_inv s" "sv_phase s = Draining"
  shows "\<exists>s'. server_step s s' \<and> s' \<noteq> s"
proof -
  consider "sv_tasks s \<noteq> []" | "sv_tasks s = []" "0 < sv_finished s" | "sv_tasks s = []" "sv_finished s = 0" by auto
  then show ?thesis
  proof cases
    case 1
    then have "0 < length (sv_tasks s)" by simp
    with work_end_task [OF this] step_task_end [OF this] show ?thesis by (metis less_irrefl)
  next
    case 2
    then have "s\<lparr>sv_finished := sv_finished s - 1\<rparr> \<noteq> s"
      by (metis diff_less less_irrefl server_state.select_convs(6) server_state.surjective server_state.update_convs(6) zero_less_one)
    with step_join [of s] 2 assms(2) show ?thesis by auto
  next
    case 3
    have "s\<lparr>sv_phase := Stopped\<rparr> \<noteq> s"
      using assms(2) by (metis server_phase.distinct(5) server_state.select_convs(9) server_state.surjective server_state.update_convs(9))
    with step_stop [of s] 3 assms(2) show ?thesis by auto
  qed
qed

lemma stopped_idle: "server_inv s \<Longrightarrow> sv_phase s = Stopped \<Longrightarrow> server_step s s' \<Longrightarrow> s' = s"
  by (elim server_stepE) (auto simp: server_inv_def shutdown_handle_def)

text \<open>A run of steps that each change the server.\<close>

definition busy_run :: "(nat \<Rightarrow> server_state) \<Rightarrow> nat \<Rightarrow> bool" where
  "busy_run f n \<longleftrightarrow> (\<forall>i < n. server_step (f i) (f (Suc i)) \<and> f (Suc i) \<noteq> f i)"

lemma drain_run:
  assumes "busy_run f n" "server_inv (f 0)" "sv_phase (f 0) \<noteq> Accepting"
  shows "server_inv (f n) \<and> sv_phase (f n) \<noteq> Accepting \<and> sv_accepted (f n) = sv_accepted (f 0) \<and>
    sv_config (f n) = sv_config (f 0) \<and> n + drain_work (f n) \<le> drain_work (f 0)"
  using assms(1)
proof (induction n)
  case (Suc n)
  then have IH: "server_inv (f n)" "sv_phase (f n) \<noteq> Accepting" "sv_accepted (f n) = sv_accepted (f 0)"
    "sv_config (f n) = sv_config (f 0)" "n + drain_work (f n) \<le> drain_work (f 0)"
    by (simp_all add: busy_run_def)
  have "server_step (f n) (f (Suc n))" "f (Suc n) \<noteq> f n" using Suc.prems by (simp_all add: busy_run_def)
  with drain_step [OF IH(1,2)] server_step_inv [OF _ IH(1)] server_step_config [of "f n"] IH(3-5) show ?case by fastforce
qed (use assms in simp)

text \<open>A connection that is told to stop: it finishes the command it is at and closes; whatever would
  come later is not looked at.\<close>

lemma conn_run_cancelled:
  "conn_run V B (evs @ Cancelled # evs') cn =
     (case conn_run V B evs cn of Some (Running, cn1) \<Rightarrow> Some (Closed (Ok ()), cn1) | x \<Rightarrow> x)"
proof (induction evs arbitrary: cn)
  case (Cons ev evs)
  then show ?case
    by (cases ev) (auto split: prod.splits res.splits option.splits)
qed simp

end
