(* ===== verification/Request_Manager.thy ===== *)
theory Request_Manager
  imports Domain
begin

section \<open>From a command line to a plan (client/src/request_manager.rs)\<close>

text \<open>
  A line is split at white space, its first word is lower-cased and selects a builder for
  the rest.  Lower-casing follows Unicode as far as it can make a command name: ASCII
  letters, and the Kelvin sign, the one other character whose lower case is ASCII; any
  other character keeps a word from being a command name either way.  The size of a local
  file comes from the parameter \<open>stat\<close>.
\<close>

datatype client_command_plan =
    Single fenris_command
  | ChunkedRead path
  | ChunkedInlineWrite path object_write_mode bytes
  | ChunkedUpload path path u64

definition kelvin_sign :: string where
  "kelvin_sign = uchar [226, 132, 170]"

definition lower_ascii :: "char \<Rightarrow> char" where
  "lower_ascii c = (if 65 \<le> code_of c \<and> code_of c \<le> 90 then char_of (code_of c + 32) else c)"

definition lower_char :: "string \<Rightarrow> string" where
  "lower_char ch = (if ch = kelvin_sign then ''k'' else map lower_ascii ch)"

definition to_lowercase :: "string \<Rightarrow> string" where
  "to_lowercase s = concat (map lower_char (utf8_chars s))"

definition first_or :: "string list \<Rightarrow> string \<Rightarrow> string" where
  "first_or args d = (case args of [] \<Rightarrow> d | a # _ \<Rightarrow> a)"

definition join_words :: "string list \<Rightarrow> string" where
  "join_words ws = join_with CHR '' '' ws"

definition build_ping :: "client_command_plan res" where
  "build_ping = Ok (Single Ping)"

definition build_list_namespace :: "string list \<Rightarrow> client_command_plan res" where
  "build_list_namespace args = Ok (Single (ListNamespace (first_or args ''.'')))"

definition build_change_namespace :: "string list \<Rightarrow> client_command_plan res" where
  "build_change_namespace args = Ok (Single (ChangeNamespace (first_or args ''~'')))"

definition build_read_object :: "string list \<Rightarrow> client_command_plan res" where
  "build_read_object args =
     (case args of [] \<Rightarrow> Err (MissingField ''read requires a filename'') | a # _ \<Rightarrow> Ok (ChunkedRead a))"

definition build_write_object :: "string list \<Rightarrow> client_command_plan res" where
  "build_write_object args =
     (case args of
        a # b # rest \<Rightarrow> Ok (ChunkedInlineWrite a Write (bytes_of (join_words (b # rest))))
      | _ \<Rightarrow> Err (MissingField ''write requires filename as well as data''))"

definition build_create_object :: "string list \<Rightarrow> client_command_plan res" where
  "build_create_object args =
     (case args of
        [] \<Rightarrow> Err (MissingField ''create requires a filename'')
      | a # _ \<Rightarrow> Ok (Single (CreateObject a)))"

definition build_delete_object :: "string list \<Rightarrow> client_command_plan res" where
  "build_delete_object args =
     (case args of
        [] \<Rightarrow> Err (MissingField ''rm requires a filename'')
      | a # _ \<Rightarrow> Ok (Single (DeleteObject a)))"

definition build_create_namespace :: "string list \<Rightarrow> client_command_plan res" where
  "build_create_namespace args =
     (case args of
        [] \<Rightarrow> Err (MissingField ''mkdir requires a directory name'')
      | a # _ \<Rightarrow> Ok (Single (CreateNamespace a)))"

definition build_delete_namespace :: "string list \<Rightarrow> client_command_plan res" where
  "build_delete_namespace args =
     (case args of
        [] \<Rightarrow> Err (MissingField ''rmdir requires a directory name'')
      | a # _ \<Rightarrow> Ok (Single (DeleteNamespace a)))"

definition build_object_info :: "string list \<Rightarrow> client_command_plan res" where
  "build_object_info args =
     (case args of
        [] \<Rightarrow> Err (MissingField ''info requires a filename'')
      | a # _ \<Rightarrow> Ok (Single (ObjectInfo a)))"

definition build_append_object :: "string list \<Rightarrow> client_command_plan res" where
  "build_append_object args =
     (case args of
        a # b # rest \<Rightarrow> Ok (ChunkedInlineWrite a Append (bytes_of (join_words (b # rest))))
      | _ \<Rightarrow> Err (MissingField ''append requires filename as well as data''))"

definition build_upload_object :: "(path \<Rightarrow> string + u64) \<Rightarrow> string list \<Rightarrow> client_command_plan res" where
  "build_upload_object stat args =
     (case args of
        src # dst # _ \<Rightarrow>
          (case stat src of
             Inr n \<Rightarrow> Ok (ChunkedUpload src dst n)
           | Inl e \<Rightarrow> Err (FileOperationError (''Failed to inspect file '' @ to_string_lossy src @ '': '' @ e)))
      | _ \<Rightarrow> Err (MissingField ''upload requires current location as well as destination path''))"

definition dispatch_command :: "(path \<Rightarrow> string + u64) \<Rightarrow> string \<Rightarrow> string list \<Rightarrow> client_command_plan res" where
  "dispatch_command stat cmd args =
     (if cmd = ''ping'' then build_ping
      else if cmd = ''ls'' then build_list_namespace args
      else if cmd = ''cd'' then build_change_namespace args
      else if cmd = ''read'' then build_read_object args
      else if cmd = ''write'' then build_write_object args
      else if cmd = ''create'' then build_create_object args
      else if cmd = ''rm'' then build_delete_object args
      else if cmd = ''mkdir'' then build_create_namespace args
      else if cmd = ''rmdir'' then build_delete_namespace args
      else if cmd = ''info'' then build_object_info args
      else if cmd = ''append'' then build_append_object args
      else if cmd = ''upload'' then build_upload_object stat args
      else Err InvalidProtocolMessage)"

definition build_request :: "(path \<Rightarrow> string + u64) \<Rightarrow> string \<Rightarrow> client_command_plan res" where
  "build_request stat command =
     (case split_whitespace command of
        [] \<Rightarrow> Err InvalidProtocolMessage
      | w # args \<Rightarrow> dispatch_command stat (to_lowercase w) args)"

subsection \<open>Words\<close>

text \<open>A word: not empty, and none of its characters is white space.\<close>

definition word_ok :: "string \<Rightarrow> bool" where
  "word_ok w \<longleftrightarrow> w \<noteq> [] \<and> utf8_valid w \<and> (\<forall>ch \<in> set (utf8_chars w). \<not> is_whitespace ch)"

lemma blank_whitespace: "is_whitespace '' ''"
  by (simp add: is_whitespace_def code_of_def)

lemma words_of_word: "(\<And>ch. ch \<in> set chs \<Longrightarrow> \<not> is_whitespace ch) \<Longrightarrow> words_of (chs @ rest) acc = words_of rest (acc @ concat chs)"
  by (induction chs arbitrary: acc) auto

lemma words_of_word_blank:
  "(\<And>ch. ch \<in> set chs \<Longrightarrow> \<not> is_whitespace ch) \<Longrightarrow> concat chs \<noteq> [] \<Longrightarrow>
   words_of (chs @ '' '' # rest) [] = concat chs # words_of rest []"
  using words_of_word [of chs "'' '' # rest" "[]"] blank_whitespace by simp

lemma utf8_chars_append: "utf8_valid s \<Longrightarrow> utf8_chars (s @ t) = utf8_chars s @ utf8_chars t"
proof -
  assume "utf8_valid s"
  then have "utf8_chunks (concat (utf8_chars s) @ t) = map (Pair True) (utf8_chars s) @ utf8_chunks t"
    by (intro utf8_chunks_concat) (auto simp: utf8_valid_iff)
  then have "utf8_chunks (s @ t) = map (Pair True) (utf8_chars s) @ utf8_chunks t" by simp
  then show ?thesis by (simp add: utf8_chars_def comp_def)
qed

lemma utf8_chars_blank: "utf8_chars (CHR '' '' # t) = '' '' # utf8_chars t"
proof -
  have "ascii '' ''" by (simp add: ascii_def code_of_def)
  then show ?thesis
    using utf8_chars_append [of "'' ''" t] by (simp add: ascii_valid ascii_chars)
qed

lemma split_join_words:
  "(\<And>w. w \<in> set ws \<Longrightarrow> word_ok w) \<Longrightarrow> split_whitespace (join_words ws) = ws"
  unfolding split_whitespace_def join_words_def
proof (induction "CHR '' ''" ws rule: join_with.induct)
  case 1
  then show ?case by (simp add: utf8_chars_def)
next
  case (2 w)
  then have "word_ok w" by simp
  then show ?case
    using words_of_word [of "utf8_chars w" "[]" "[]"] by (auto simp: word_ok_def)
next
  case (3 v w ws)
  then have "word_ok v" by simp
  then have "utf8_chars (join_with CHR '' '' (v # w # ws)) = utf8_chars v @ '' '' # utf8_chars (join_with CHR '' '' (w # ws))"
    by (simp add: word_ok_def utf8_chars_append utf8_chars_blank)
  with 3 \<open>word_ok v\<close> show ?case
    using words_of_word_blank [of "utf8_chars v"] by (auto simp: word_ok_def)
qed

subsection \<open>Command lines for plans\<close>

text \<open>The words of a line that asks for a plan, for the plans a line can ask for.\<close>

fun command_words :: "fenris_command \<Rightarrow> string list" where
  "command_words Ping = [''ping'']"
| "command_words (ListNamespace p) = [''ls'', p]"
| "command_words (ChangeNamespace p) = [''cd'', p]"
| "command_words (CreateObject p) = [''create'', p]"
| "command_words (DeleteObject p) = [''rm'', p]"
| "command_words (CreateNamespace p) = [''mkdir'', p]"
| "command_words (DeleteNamespace p) = [''rmdir'', p]"
| "command_words (ObjectInfo p) = [''info'', p]"
| "command_words _ = []"

fun plan_words :: "client_command_plan \<Rightarrow> string list" where
  "plan_words (Single c) = command_words c"
| "plan_words (ChunkedRead p) = [''read'', p]"
| "plan_words (ChunkedInlineWrite p Write d) = ''write'' # p # split_whitespace (string_of d)"
| "plan_words (ChunkedInlineWrite p Append d) = ''append'' # p # split_whitespace (string_of d)"
| "plan_words (ChunkedInlineWrite p Upload d) = []"
| "plan_words (ChunkedUpload src dst n) = [''upload'', src, dst]"

text \<open>Data that is words separated by single blanks, and a local file of the stated size.\<close>

fun plan_ok :: "(path \<Rightarrow> string + u64) \<Rightarrow> client_command_plan \<Rightarrow> bool" where
  "plan_ok stat (ChunkedInlineWrite p m d) =
     (d \<noteq> [] \<and> join_words (split_whitespace (string_of d)) = string_of d)"
| "plan_ok stat (ChunkedUpload src dst n) = (stat src = Inr n)"
| "plan_ok stat plan = True"

lemma lower_commands:
  "to_lowercase w = w" if "w \<in> {''ping'', ''ls'', ''cd'', ''read'', ''write'', ''create'', ''rm'', ''mkdir'',
    ''rmdir'', ''info'', ''append'', ''upload''}"
proof -
  have "ascii w" using that by (auto simp: ascii_def code_of_def)
  then show ?thesis
    using that by (auto simp: to_lowercase_def ascii_chars lower_char_def kelvin_sign_def uchar_def lower_ascii_def code_of_def)
qed

lemma build_request_words:
  "(\<And>v. v \<in> set (name # args) \<Longrightarrow> word_ok v) \<Longrightarrow>
   build_request stat (join_words (name # args)) = dispatch_command stat (to_lowercase name) args"
  using split_join_words [of "name # args"] by (simp add: build_request_def)

lemma split_whitespace_cases:
  assumes "join_words (split_whitespace s) = s" "s \<noteq> []"
  obtains w ws where "split_whitespace s = w # ws" "join_words (w # ws) = s"
  using assms by (cases "split_whitespace s") (auto simp: join_words_def)

lemmas builder_simps = build_ping_def build_list_namespace_def build_change_namespace_def first_or_def
  build_read_object_def build_write_object_def build_create_object_def build_delete_object_def
  build_create_namespace_def build_delete_namespace_def build_object_info_def build_append_object_def
  build_upload_object_def

lemma string_of_eq_Nil [simp]: "string_of d = [] \<longleftrightarrow> d = []"
  by (simp add: string_of_def)

lemma plan_words_lower: "plan_words plan = name # args \<Longrightarrow> to_lowercase name = name"
proof (cases plan)
  case (Single c)
  assume "plan_words plan = name # args"
  with Single show ?thesis by (cases c) (auto intro!: lower_commands)
next
  case (ChunkedInlineWrite p m d)
  assume "plan_words plan = name # args"
  with ChunkedInlineWrite show ?thesis by (cases m) (auto intro!: lower_commands)
qed (auto intro!: lower_commands)

lemma dispatch_simps:
  "dispatch_command stat ''ping'' args = build_ping"
  "dispatch_command stat ''ls'' args = build_list_namespace args"
  "dispatch_command stat ''cd'' args = build_change_namespace args"
  "dispatch_command stat ''read'' args = build_read_object args"
  "dispatch_command stat ''write'' args = build_write_object args"
  "dispatch_command stat ''create'' args = build_create_object args"
  "dispatch_command stat ''rm'' args = build_delete_object args"
  "dispatch_command stat ''mkdir'' args = build_create_namespace args"
  "dispatch_command stat ''rmdir'' args = build_delete_namespace args"
  "dispatch_command stat ''info'' args = build_object_info args"
  "dispatch_command stat ''append'' args = build_append_object args"
  "dispatch_command stat ''upload'' args = build_upload_object stat args"
  by (simp_all add: dispatch_command_def)

lemma dispatch_plan:
  assumes "plan_ok stat plan" "plan_words plan = name # args"
  shows "dispatch_command stat name args = Ok plan"
proof (cases plan)
  case (Single c)
  with assms(2) show ?thesis by (cases c) (auto simp: dispatch_simps builder_simps)
next
  case (ChunkedInlineWrite p m d)
  with assms(1) obtain w ws where "split_whitespace (string_of d) = w # ws" "join_words (w # ws) = string_of d"
    by (auto elim: split_whitespace_cases)
  with ChunkedInlineWrite assms(2) show ?thesis
    by (cases m) (auto simp: dispatch_simps builder_simps)
qed (use assms in \<open>auto simp: dispatch_simps builder_simps\<close>)

lemma plan_roundtrip:
  assumes "plan_ok stat plan" "plan_words plan \<noteq> []" "\<And>w. w \<in> set (plan_words plan) \<Longrightarrow> word_ok w"
  shows "build_request stat (join_words (plan_words plan)) = Ok plan"
proof -
  obtain name args where words: "plan_words plan = name # args"
    using assms(2) by (cases "plan_words plan") auto
  with assms(3) have "build_request stat (join_words (name # args)) = dispatch_command stat (to_lowercase name) args"
    by (intro build_request_words) simp
  with dispatch_plan [OF assms(1) words] plan_words_lower [OF words] words show ?thesis by simp
qed

lemma build_request_not_Panic: "build_request stat line \<noteq> Panic"
  by (auto simp: build_request_def dispatch_command_def builder_simps split: list.splits sum.splits)

end
