(* ===== verification/Response_Manager.thy ===== *)
theory Response_Manager
  imports Domain
begin

section \<open>From an output to text (client/src/response_manager.rs)\<close>

text \<open>
  How an output is shown.  Sizes are computed in \<open>f64\<close>: the conversion from \<open>u64\<close> rounds
  to 53 significant bits, ties to even; dividing by 1024 is exact; printing with two
  decimals rounds the exact value, ties to even.  So a size is a natural number over a
  power of 1024.  A time is printed by the calendar library, a parameter that fails
  (\<open>None\<close>) where the library panics; adding a duration to the epoch panics itself from
  \<open>2 ^ 63\<close> seconds on.
\<close>

record formatted_response =
  fr_success :: bool
  fr_message :: string
  fr_details :: "string option"
  fr_current_dir :: "string option"

definition newline :: string where
  "newline = [CHR 0x0A]"

subsection \<open>Sizes\<close>

definition round_half_even :: "nat \<Rightarrow> nat \<Rightarrow> nat" where
  "round_half_even n d =
     (let q = n div d; r = n mod d in
      if 2 * r < d then q else if d < 2 * r then q + 1 else if even q then q else q + 1)"

fun f64_exponent :: "nat \<Rightarrow> nat" where
  "f64_exponent n = (if n < 2 ^ 53 then 0 else Suc (f64_exponent (n div 2)))"

declare f64_exponent.simps [simp del]

definition f64_of_u64 :: "u64 \<Rightarrow> nat" where
  "f64_of_u64 w = round_half_even (unat w) (2 ^ f64_exponent (unat w)) * 2 ^ f64_exponent (unat w)"

definition UNITS :: "string list" where
  "UNITS = [''B'', ''KB'', ''MB'', ''GB'', ''TB'']"

function size_unit :: "nat \<Rightarrow> nat \<Rightarrow> nat" where
  "size_unit b k = (if 1024 * 1024 ^ k \<le> b \<and> k < length UNITS - 1 then size_unit b (Suc k) else k)"
  by pat_completeness auto
termination
  by (relation "measure (\<lambda>(b, k). length UNITS - k)") auto

declare size_unit.simps [simp del]

definition show_hundredths :: "nat \<Rightarrow> string" where
  "show_hundredths h =
     show_nat (h div 100) @ ''.'' @ [digit_char (h mod 100 div 10), digit_char (h mod 10)]"

definition format_size :: "u64 \<Rightarrow> string" where
  "format_size bytes =
     (if bytes = 0 then ''0 B''
      else
        (let size = f64_of_u64 bytes; unit = size_unit size 0 in
         if unit = 0 then show_nat size @ '' '' @ UNITS ! unit
         else show_hundredths (round_half_even (size * 100) (1024 ^ unit)) @ '' '' @ UNITS ! unit))"

subsection \<open>Permissions and times\<close>

unbundle bit_operations_syntax

definition format_triple :: "u32 \<Rightarrow> string" where
  "format_triple bits =
     [if bits AND 4 \<noteq> 0 then CHR ''r'' else CHR ''-'',
      if bits AND 2 \<noteq> 0 then CHR ''w'' else CHR ''-'',
      if bits AND 1 \<noteq> 0 then CHR ''x'' else CHR ''-'']"

definition format_permissions :: "u32 \<Rightarrow> string" where
  "format_permissions perms =
     (let user = drop_bit 6 perms AND 7; group = drop_bit 3 perms AND 7; other = perms AND 7 in
      format_triple user @ format_triple group @ format_triple other @
      '' ('' @ show_radix 8 (unat perms) @ '')'')"

definition format_timestamp :: "(u64 \<Rightarrow> string option) \<Rightarrow> u64 \<Rightarrow> string res" where
  "format_timestamp chrono t =
     (if 2 ^ 63 \<le> unat t then Panic
      else (case chrono t of None \<Rightarrow> Panic | Some s \<Rightarrow> Ok s))"

subsection \<open>Responses\<close>

definition plain_response :: "bool \<Rightarrow> string \<Rightarrow> formatted_response" where
  "plain_response ok m = \<lparr>fr_success = ok, fr_message = m, fr_details = None, fr_current_dir = None\<rparr>"

definition format_pong :: formatted_response where
  "format_pong = plain_response True ''PONG - Server is alive! ''"

definition format_success :: "string \<Rightarrow> formatted_response" where
  "format_success m = plain_response True (if m = [] then ''Operation successful'' else m)"

definition format_namespace_changed :: "string \<Rightarrow> formatted_response" where
  "format_namespace_changed p =
     (let p' = (if p = [] then ''/'' else p) in
      \<lparr>fr_success = True, fr_message = ''Changed directory to '' @ p', fr_details = None,
       fr_current_dir = Some p'\<rparr>)"

definition format_object_content :: "bytes \<Rightarrow> u64 \<Rightarrow> bool \<Rightarrow> formatted_response" where
  "format_object_content d total_size already_truncated =
     (let content = from_utf8_lossy d;
          preview_text = concat (take 500 (utf8_chars content));
          display_truncated = (already_truncated \<or> 500 < length (utf8_chars content));
          preview = (if display_truncated
                     then preview_text @ ''...  ('' @ show_u64 total_size @ '' bytes total)''
                     else content) in
      \<lparr>fr_success = True, fr_message = ''File content ('' @ show_u64 total_size @ '' bytes):'',
       fr_details = Some preview, fr_current_dir = None\<rparr>)"

definition shown_size :: "fenris_metadata \<Rightarrow> string" where
  "shown_size m = (if md_is_namespace m then ''-'' else format_size (md_size m))"

definition format_object_info :: "(u64 \<Rightarrow> string option) \<Rightarrow> fenris_metadata \<Rightarrow> formatted_response res" where
  "format_object_info chrono m =
     res_bind (format_timestamp chrono (md_modified_time m)) (\<lambda>modified.
     Ok \<lparr>fr_success = True, fr_message = ''File information: '',
         fr_details = Some (md_name m @ newline @
           ''Type: '' @ (if md_is_namespace m then ''Directory'' else ''File'') @ newline @
           ''Size: '' @ shown_size m @ newline @
           ''Permissions: '' @ format_permissions (md_permissions m) @ newline @
           ''Modified: '' @ modified),
         fr_current_dir = None\<rparr>)"

definition pad_right :: "nat \<Rightarrow> string \<Rightarrow> string" where
  "pad_right n s = s @ replicate (n - length (utf8_chars s)) CHR '' ''"

definition pad_left :: "nat \<Rightarrow> string \<Rightarrow> string" where
  "pad_left n s = replicate (n - length (utf8_chars s)) CHR '' '' @ s"

definition listing_line :: "(u64 \<Rightarrow> string option) \<Rightarrow> fenris_metadata \<Rightarrow> string res" where
  "listing_line chrono m =
     res_bind (format_timestamp chrono (md_modified_time m)) (\<lambda>modified.
     Ok (pad_right 40 (md_name m) @ '' '' @
         pad_left 10 (if md_is_namespace m then ''DIR'' else ''FILE'') @ '' '' @
         pad_left 12 (shown_size m) @ '' '' @ modified @ newline))"

fun listing_lines :: "(u64 \<Rightarrow> string option) \<Rightarrow> fenris_metadata list \<Rightarrow> string \<Rightarrow> string res" where
  "listing_lines chrono [] out = Ok out"
| "listing_lines chrono (m # ms) out =
     res_bind (listing_line chrono m) (\<lambda>l. listing_lines chrono ms (out @ l))"

definition format_namespace_listing ::
  "(u64 \<Rightarrow> string option) \<Rightarrow> fenris_metadata list \<Rightarrow> formatted_response res" where
  "format_namespace_listing chrono entries =
     (if entries = [] then Ok (plain_response True ''Directory is empty'')
      else
        res_bind
          (listing_lines chrono entries
            (''Found '' @ show_nat (length entries) @ '' entries:'' @ newline @ newline @
             pad_right 40 ''Name'' @ '' '' @ pad_left 10 ''Type'' @ '' '' @ pad_left 12 ''Size'' @ '' '' @
             ''Modified'' @ newline @ replicate 80 CHR ''-'' @ newline))
          (\<lambda>out. Ok \<lparr>fr_success = True, fr_message = ''Directory listing:'', fr_details = Some out,
                     fr_current_dir = None\<rparr>))"

fun format_response :: "(u64 \<Rightarrow> string option) \<Rightarrow> fenris_output \<Rightarrow> formatted_response res" where
  "format_response chrono Pong = Ok format_pong"
| "format_response chrono (Success m) = Ok (format_success m)"
| "format_response chrono (ObjectContent d n tr) = Ok (format_object_content d n tr)"
| "format_response chrono (ObjectContentChunk c) =
     Ok (format_object_content (tc_data c) (tc_total_size c) (\<not> tc_is_last c))"
| "format_response chrono (ObjectInfoOutput m) = format_object_info chrono m"
| "format_response chrono (NamespaceListing es) = format_namespace_listing chrono es"
| "format_response chrono (NamespaceChanged p) = Ok (format_namespace_changed (to_string_lossy p))"
| "format_response chrono (TransferReady n) =
     Ok (plain_response True (''Transfer ready ('' @ show_nat n @ '' byte chunks)''))"
| "format_response chrono (TransferProgress n) =
     Ok (plain_response True (''Transferred '' @ show_u64 n @ '' bytes''))"
| "format_response chrono Terminated = Ok (plain_response True ''Server terminated'')"
| "format_response chrono (ErrorOutput m) = Ok (plain_response False m)"

subsection \<open>What the text says\<close>

lemma round_half_even_bounds:
  assumes "0 < d"
  shows "2 * (round_half_even n d * d) \<le> 2 * n + d" and "2 * n \<le> 2 * (round_half_even n d * d) + d"
proof -
  define q r where "q = n div d" and "r = n mod d"
  have n: "n = q * d + r" "r < d" using assms by (simp_all add: q_def r_def)
  have "round_half_even n d = q \<and> 2 * r \<le> d \<or> round_half_even n d = q + 1 \<and> d \<le> 2 * r"
    by (auto simp: round_half_even_def Let_def q_def r_def)
  then show "2 * (round_half_even n d * d) \<le> 2 * n + d" "2 * n \<le> 2 * (round_half_even n d * d) + d"
    using n by (auto simp: algebra_simps)
qed

lemma f64_small: "unat w < 2 ^ 53 \<Longrightarrow> f64_of_u64 w = unat w"
  by (simp add: f64_of_u64_def f64_exponent.simps [of "unat w"] round_half_even_def)

lemma size_unit_bounds:
  "k \<le> 4 \<Longrightarrow> (0 < k \<longrightarrow> 1024 ^ k \<le> b) \<Longrightarrow>
   k \<le> size_unit b k \<and> size_unit b k \<le> 4 \<and> (0 < size_unit b k \<longrightarrow> 1024 ^ size_unit b k \<le> b) \<and>
   (size_unit b k < 4 \<longrightarrow> b < 1024 * 1024 ^ size_unit b k)"
proof (induction b k rule: size_unit.induct)
  case (1 b k)
  show ?case
  proof (cases "1024 * 1024 ^ k \<le> b \<and> k < length UNITS - 1")
    case True
    then have "size_unit b k = size_unit b (Suc k)" by (simp add: size_unit.simps [of b k])
    with True 1 show ?thesis by (simp add: UNITS_def)
  next
    case False
    then have "size_unit b k = k" by (subst size_unit.simps) (simp only: if_False)
    with False 1 show ?thesis by (auto simp: UNITS_def)
  qed
qed

text \<open>For sizes that \<open>f64\<close> holds exactly, the shown number of hundredths of the chosen unit
  is the nearest one.\<close>

definition size_hundredths :: "u64 \<Rightarrow> nat" where
  "size_hundredths w = round_half_even (f64_of_u64 w * 100) (1024 ^ size_unit (f64_of_u64 w) 0)"

lemma format_size_eq:
  "w \<noteq> 0 \<Longrightarrow> size_unit (f64_of_u64 w) 0 \<noteq> 0 \<Longrightarrow>
   format_size w = show_hundredths (size_hundredths w) @ '' '' @ UNITS ! size_unit (f64_of_u64 w) 0"
  by (simp add: format_size_def size_hundredths_def Let_def)

lemma size_hundredths_exact:
  assumes "unat w < 2 ^ 53"
  shows "2 * (size_hundredths w * 1024 ^ size_unit (unat w) 0) \<le> 200 * unat w + 1024 ^ size_unit (unat w) 0"
    and "200 * unat w \<le> 2 * (size_hundredths w * 1024 ^ size_unit (unat w) 0) + 1024 ^ size_unit (unat w) 0"
  using round_half_even_bounds [of "1024 ^ size_unit (unat w) 0" "unat w * 100"] f64_small [OF assms]
  by (simp_all add: size_hundredths_def)

text \<open>The success flag is lost by nothing but an error.\<close>

lemma format_success_flag:
  "format_response chrono out = Ok r \<Longrightarrow> fr_success r \<longleftrightarrow> (\<forall>m. out \<noteq> ErrorOutput m)"
  by (cases out)
    (auto simp: format_pong_def format_success_def plain_response_def format_object_content_def Let_def
      format_object_info_def format_namespace_listing_def format_namespace_changed_def res_bind_eq_Ok
      split: if_splits)

text \<open>The times an output carries.\<close>

fun output_times :: "fenris_output \<Rightarrow> u64 list" where
  "output_times (ObjectInfoOutput m) = [md_modified_time m]"
| "output_times (NamespaceListing ms) = map md_modified_time ms"
| "output_times out = []"

definition time_ok :: "(u64 \<Rightarrow> string option) \<Rightarrow> u64 \<Rightarrow> bool" where
  "time_ok chrono t \<longleftrightarrow> unat t < 2 ^ 63 \<and> chrono t \<noteq> None"

lemma format_timestamp_cases:
  "format_timestamp chrono t = Panic \<and> \<not> time_ok chrono t \<or>
   (\<exists>s. format_timestamp chrono t = Ok s) \<and> time_ok chrono t"
  by (auto simp: format_timestamp_def time_ok_def split: option.splits)

lemma format_timestamp_Panic: "format_timestamp chrono t = Panic \<longleftrightarrow> \<not> time_ok chrono t"
  using format_timestamp_cases [of chrono t] by auto

lemma listing_lines_Panic:
  "listing_lines chrono ms out = Panic \<longleftrightarrow> (\<exists>m \<in> set ms. \<not> time_ok chrono (md_modified_time m))"
proof (induction ms arbitrary: out)
  case (Cons m ms)
  then show ?case
    using format_timestamp_cases [of chrono "md_modified_time m"] by (auto simp: listing_line_def)
qed simp

lemma format_response_Panic:
  "format_response chrono out = Panic \<longleftrightarrow> (\<exists>t \<in> set (output_times out). \<not> time_ok chrono t)"
proof (cases out)
  case (ObjectInfoOutput m)
  then show ?thesis
    using format_timestamp_cases [of chrono "md_modified_time m"] by (auto simp: format_object_info_def)
next
  case (NamespaceListing ms)
  have "res_bind r (\<lambda>x. Ok (f x)) = Panic \<longleftrightarrow> r = Panic" for r :: "string res" and f :: "string \<Rightarrow> formatted_response"
    by (cases r) auto
  then show ?thesis
    using NamespaceListing by (auto simp: format_namespace_listing_def listing_lines_Panic)
qed auto

text \<open>A size below \<open>2 ^ 53\<close> bytes and of at least one kilobyte is shown in the largest unit up to
  terabytes that does not exceed it, off by at most half a hundredth of the unit.\<close>

lemma size_shown_nearest:
  assumes "1024 \<le> unat w" "unat w < 2 ^ 53"
  shows "\<exists>u h. 0 < u \<and> u \<le> 4 \<and> 1024 ^ u \<le> unat w \<and> (u < 4 \<longrightarrow> unat w < 1024 ^ Suc u) \<and>
    format_size w = show_hundredths h @ '' '' @ UNITS ! u \<and>
    2 * (h * 1024 ^ u) \<le> 200 * unat w + 1024 ^ u \<and> 200 * unat w \<le> 2 * (h * 1024 ^ u) + 1024 ^ u"
proof -
  let ?u = "size_unit (unat w) 0"
  have u: "?u \<le> 4" "0 < ?u \<longrightarrow> 1024 ^ ?u \<le> unat w" "?u < 4 \<longrightarrow> unat w < 1024 * 1024 ^ ?u"
    using size_unit_bounds [of 0 "unat w"] by simp_all
  with assms(1) have "?u \<noteq> 0" by (cases "?u = 0") auto
  moreover from this have "format_size w = show_hundredths (size_hundredths w) @ '' '' @ UNITS ! ?u"
    using format_size_eq [of w] f64_small [OF assms(2)] assms(1) by force
  ultimately show ?thesis
    using u size_hundredths_exact [OF assms(2)] by (intro exI [of _ ?u] exI [of _ "size_hundredths w"]) simp
qed

end
