(* ===== verification/Connection_Manager.thy ===== *)
theory Connection_Manager
  imports Request_Manager Response_Manager Secure_Channel
begin

section \<open>The client's connection (client/src/connection_manager.rs)\<close>

text \<open>
  The manager owns at most one channel and runs a plan over it: a single exchange, a
  chunked read, or a chunked write from memory or from a local file.  The channel is a
  record of a send and a receive over a state \<open>'c\<close>, as on the server's side; the secure
  channel is one instance.  Local files, the network dial and the \<open>Debug\<close> text of an
  unexpected output are parameters.  The loops that follow the peer or a file may run
  without end, so they are partial functions.
\<close>

definition READ_PREVIEW_LIMIT :: usize where
  "READ_PREVIEW_LIMIT = 500"

record server_info =
  si_address :: string
  si_port :: u16

definition to_socket_addr :: "server_info \<Rightarrow> string" where
  "to_socket_addr i = si_address i @ '':'' @ show_nat (unat (si_port i))"

record 'c client_channel =
  cc_send :: "fenris_command \<Rightarrow> ('c, unit) action"
  cc_recv :: "('c, fenris_output) action"

definition secure_client_channel :: "prost \<Rightarrow> link client_channel" where
  "secure_client_channel Q =
     \<lparr>cc_send = send_msg (command_codec Q),
      cc_recv = (\<lambda>(ch, r). let (x, ch') = recv_msg (output_codec Q) ch in (x, (ch', r)))\<rparr>"

record 'c connection_manager =
  mg_server_info :: "server_info option"
  mg_server_identity :: "server_identity_public_key option"
  mg_channel :: "'c option"

record local_files =
  lf_stat :: "path \<Rightarrow> string + u64"
  lf_open :: "path \<Rightarrow> string + unit"
  lf_read :: "path \<Rightarrow> u64 \<Rightarrow> usize \<Rightarrow> string + bytes"

definition connection_manager_new :: "'c connection_manager" where
  "connection_manager_new = \<lparr>mg_server_info = None, mg_server_identity = None, mg_channel = None\<rparr>"

definition is_connected :: "'c connection_manager \<Rightarrow> bool" where
  "is_connected m \<longleftrightarrow> mg_channel m \<noteq> None"

definition set_server_info :: "server_info \<Rightarrow> ('c connection_manager, unit) action" where
  "set_server_info i m =
     (if is_connected m
      then (Err (NetworkError (IoError IoOther ''Cannot change server info while connected'')), m)
      else (Ok (), m\<lparr>mg_server_info := Some i\<rparr>))"

definition set_server_identity :: "server_identity_public_key \<Rightarrow> ('c connection_manager, unit) action" where
  "set_server_identity k m =
     (if is_connected m
      then (Err (NetworkError (IoError IoOther ''Cannot change server identity while connected'')), m)
      else (Ok (), m\<lparr>mg_server_identity := Some k\<rparr>))"

text \<open>The \<open>expect\<close> panics when the identity cannot be set.\<close>

definition with_server_identity :: "server_identity_public_key \<Rightarrow> 'c connection_manager res" where
  "with_server_identity k =
     (case set_server_identity k connection_manager_new of (Ok _, m) \<Rightarrow> Ok m | _ \<Rightarrow> Panic)"

definition connect ::
  "identity_primitives \<Rightarrow> crypto_primitives \<Rightarrow> (string \<Rightarrow> io_error + wire) \<Rightarrow> (link connection_manager, unit) action" where
  "connect I P dial m =
     (case mg_server_info m of
        None \<Rightarrow> (Err (NetworkError (IoError IoOther ''Server info not set'')), m)
      | Some i \<Rightarrow>
          (case mg_server_identity m of
             None \<Rightarrow> (Err (AuthenticationError ''server identity is required before connecting''), m)
           | Some expected \<Rightarrow>
               (case dial (to_socket_addr i) of
                  Inl e \<Rightarrow> (Err (NetworkError e), m)
                | Inr w \<Rightarrow>
                    (case client_handshake_authenticated I (Config P) expected w of
                       (Ok ch, (s, r)) \<Rightarrow> (Ok (), m\<lparr>mg_channel := Some (ch, r)\<rparr>)
                     | (Err e, _) \<Rightarrow> (Err e, m)
                     | (Panic, _) \<Rightarrow> (Panic, m)))))"

definition disconnect :: "'c connection_manager \<Rightarrow> 'c connection_manager" where
  "disconnect m = m\<lparr>mg_channel := None\<rparr>"

definition on_channel :: "('c, 'a) action \<Rightarrow> ('c connection_manager, 'a) action" where
  "on_channel act m =
     (case mg_channel m of
        None \<Rightarrow> (Err ConnectionClosed, m)
      | Some c \<Rightarrow> (let (x, c') = act c in (x, m\<lparr>mg_channel := Some c'\<rparr>)))"

definition exchange :: "'c client_channel \<Rightarrow> fenris_command \<Rightarrow> ('c, fenris_output) action" where
  "exchange K request = state_bind (cc_send K request) (\<lambda>_. cc_recv K)"

definition send_request_receive_response ::
  "'c client_channel \<Rightarrow> fenris_command \<Rightarrow> ('c connection_manager, fenris_output) action" where
  "send_request_receive_response K request = on_channel (exchange K request)"

subsection \<open>Writing\<close>

definition unexpected :: "(fenris_output \<Rightarrow> string) \<Rightarrow> string \<Rightarrow> fenris_output \<Rightarrow> fenris_error" where
  "unexpected dbg what out = InvalidRequest (''unexpected '' @ what @ '' response: '' @ dbg out)"

definition clamp_chunk :: "usize \<Rightarrow> usize" where
  "clamp_chunk n = max 1 (min n DEFAULT_TRANSFER_CHUNK_SIZE)"

definition transfer_answer :: "(fenris_output \<Rightarrow> string) \<Rightarrow> fenris_output \<Rightarrow> usize res" where
  "transfer_answer dbg out =
     (case out of
        TransferReady n \<Rightarrow> Ok (clamp_chunk n)
      | ErrorOutput m \<Rightarrow> Err (InvalidRequest m)
      | _ \<Rightarrow> Err (unexpected dbg ''transfer'' out))"

definition begin_transfer ::
  "(fenris_output \<Rightarrow> string) \<Rightarrow> 'c client_channel \<Rightarrow> path \<Rightarrow> object_write_mode \<Rightarrow> u64 \<Rightarrow>
   ('c connection_manager, usize) action" where
  "begin_transfer dbg K p mode total_size =
     state_bind (on_channel (exchange K (BeginObjectWrite p mode total_size)))
       (\<lambda>out. state_lift (transfer_answer dbg out))"

definition send_transfer_chunk ::
  "'c client_channel \<Rightarrow> u64 \<Rightarrow> bytes \<Rightarrow> bool \<Rightarrow> u64 \<Rightarrow> ('c connection_manager, fenris_output) action" where
  "send_transfer_chunk K offset d is_last total_size =
     on_channel (exchange K (WriteObjectChunk
       \<lparr>tc_offset = offset, tc_data = d, tc_is_last = is_last, tc_total_size = total_size\<rparr>))"

definition expect_transfer_progress :: "(fenris_output \<Rightarrow> string) \<Rightarrow> fenris_output \<Rightarrow> unit res" where
  "expect_transfer_progress dbg out =
     (case out of
        TransferProgress n \<Rightarrow> Ok ()
      | ErrorOutput m \<Rightarrow> Err (InvalidRequest m)
      | _ \<Rightarrow> Err (unexpected dbg ''transfer'' out))"

fun send_chunk_list ::
  "(fenris_output \<Rightarrow> string) \<Rightarrow> 'c client_channel \<Rightarrow> u64 \<Rightarrow> u64 \<Rightarrow> bytes list \<Rightarrow>
   ('c connection_manager, fenris_output) action" where
  "send_chunk_list dbg K total_size offset [] = state_lift (Err ConnectionClosed)"
| "send_chunk_list dbg K total_size offset (chunk # rest) =
     (let is_last = (offset + len_u64 chunk = total_size) in
      state_bind (send_transfer_chunk K offset chunk is_last total_size) (\<lambda>out.
      if is_last then state_return out
      else
        state_bind (state_lift (expect_transfer_progress dbg out)) (\<lambda>_.
        send_chunk_list dbg K total_size (offset + len_u64 chunk) rest)))"

definition send_bytes_as_chunks ::
  "(fenris_output \<Rightarrow> string) \<Rightarrow> 'c client_channel \<Rightarrow> bytes \<Rightarrow> usize \<Rightarrow> ('c connection_manager, fenris_output) action" where
  "send_bytes_as_chunks dbg K d chunk_size =
     (if d = [] then send_transfer_chunk K 0 [] True 0
      else send_chunk_list dbg K (len_u64 d) 0 (chunks chunk_size d))"

definition send_inline_write ::
  "(fenris_output \<Rightarrow> string) \<Rightarrow> 'c client_channel \<Rightarrow> path \<Rightarrow> object_write_mode \<Rightarrow> bytes \<Rightarrow>
   ('c connection_manager, fenris_output) action" where
  "send_inline_write dbg K p mode d =
     state_bind (begin_transfer dbg K p mode (len_u64 d)) (\<lambda>chunk_size.
     send_bytes_as_chunks dbg K d chunk_size)"

partial_function (option) upload_loop ::
  "(fenris_output \<Rightarrow> string) \<Rightarrow> 'c client_channel \<Rightarrow> local_files \<Rightarrow> path \<Rightarrow> usize \<Rightarrow> u64 \<Rightarrow> u64 \<Rightarrow>
   'c connection_manager \<Rightarrow> (fenris_output res \<times> 'c connection_manager) option" where
  "upload_loop dbg K L src chunk_size total_size offset m =
     (case lf_read L src offset chunk_size of
        Inl e \<Rightarrow> Some (Err (FileOperationError (''Failed to read file '' @ to_string_lossy src @ '': '' @ e)), m)
      | Inr d \<Rightarrow>
          (if d = []
           then Some (Err (FileOperationError (''File '' @ to_string_lossy src @ '' ended before '' @
                  show_u64 total_size @ '' bytes were read'')), m)
           else
             (case send_transfer_chunk K offset d (offset + len_u64 d = total_size) total_size m of
                (Ok out, m') \<Rightarrow>
                  (if offset + len_u64 d = total_size then Some (Ok out, m')
                   else
                     (case expect_transfer_progress dbg out of
                        Ok _ \<Rightarrow> upload_loop dbg K L src chunk_size total_size (offset + len_u64 d) m'
                      | Err e \<Rightarrow> Some (Err e, m')
                      | Panic \<Rightarrow> Some (Panic, m')))
              | (Err e, m') \<Rightarrow> Some (Err e, m')
              | (Panic, m') \<Rightarrow> Some (Panic, m'))))"

definition send_upload ::
  "(fenris_output \<Rightarrow> string) \<Rightarrow> 'c client_channel \<Rightarrow> local_files \<Rightarrow> path \<Rightarrow> path \<Rightarrow> u64 \<Rightarrow>
   'c connection_manager \<Rightarrow> (fenris_output res \<times> 'c connection_manager) option" where
  "send_upload dbg K L src dst total_size m =
     (case begin_transfer dbg K dst Upload total_size m of
        (Ok chunk_size, m') \<Rightarrow>
          (case lf_open L src of
             Inl e \<Rightarrow> Some (Err (FileOperationError (''Failed to open file '' @ to_string_lossy src @ '': '' @ e)), m')
           | Inr _ \<Rightarrow>
               (if total_size = 0 then Some (send_transfer_chunk K 0 [] True 0 m')
                else upload_loop dbg K L src chunk_size total_size 0 m'))
      | (Err e, m') \<Rightarrow> Some (Err e, m')
      | (Panic, m') \<Rightarrow> Some (Panic, m'))"

subsection \<open>Reading\<close>

partial_function (option) read_loop ::
  "(fenris_output \<Rightarrow> string) \<Rightarrow> 'c client_channel \<Rightarrow> bytes \<Rightarrow> 'c \<Rightarrow> (fenris_output res \<times> 'c) option" where
  "read_loop dbg K preview c =
     (case cc_recv K c of
        (Ok (ObjectContentChunk chunk), c') \<Rightarrow>
          (let preview' =
                 (if length preview < READ_PREVIEW_LIMIT
                  then preview @ take (READ_PREVIEW_LIMIT - length preview) (tc_data chunk)
                  else preview) in
           if tc_is_last chunk
           then Some (Ok (ObjectContent preview' (tc_total_size chunk)
                  (len_u64 preview' \<noteq> tc_total_size chunk)), c')
           else read_loop dbg K preview' c')
      | (Ok (ObjectContent d n tr), c') \<Rightarrow> Some (Ok (ObjectContent d n tr), c')
      | (Ok (ErrorOutput e), c') \<Rightarrow> Some (Ok (ErrorOutput e), c')
      | (Ok out, c') \<Rightarrow> Some (Err (unexpected dbg ''read'' out), c')
      | (Err e, c') \<Rightarrow> Some (Err e, c')
      | (Panic, c') \<Rightarrow> Some (Panic, c'))"

definition receive_chunked_read ::
  "(fenris_output \<Rightarrow> string) \<Rightarrow> 'c client_channel \<Rightarrow> path \<Rightarrow> 'c connection_manager \<Rightarrow>
   (fenris_output res \<times> 'c connection_manager) option" where
  "receive_chunked_read dbg K p m =
     (case mg_channel m of
        None \<Rightarrow> Some (Err ConnectionClosed, m)
      | Some c \<Rightarrow>
          (case cc_send K (ReadObject p) c of
             (Ok _, c') \<Rightarrow>
               map_option (\<lambda>(x, c''). (x, m\<lparr>mg_channel := Some c''\<rparr>)) (read_loop dbg K [] c')
           | (Err e, c') \<Rightarrow> Some (Err e, m\<lparr>mg_channel := Some c'\<rparr>)
           | (Panic, c') \<Rightarrow> Some (Panic, m\<lparr>mg_channel := Some c'\<rparr>)))"

subsection \<open>A command\<close>

fun execute_plan ::
  "(fenris_output \<Rightarrow> string) \<Rightarrow> 'c client_channel \<Rightarrow> local_files \<Rightarrow> client_command_plan \<Rightarrow>
   'c connection_manager \<Rightarrow> (fenris_output res \<times> 'c connection_manager) option" where
  "execute_plan dbg K L (Single request) m = Some (send_request_receive_response K request m)"
| "execute_plan dbg K L (ChunkedRead p) m = receive_chunked_read dbg K p m"
| "execute_plan dbg K L (ChunkedInlineWrite p mode d) m = Some (send_inline_write dbg K p mode d m)"
| "execute_plan dbg K L (ChunkedUpload src dst n) m = send_upload dbg K L src dst n m"

definition send_command ::
  "(fenris_output \<Rightarrow> string) \<Rightarrow> (u64 \<Rightarrow> string option) \<Rightarrow> 'c client_channel \<Rightarrow> local_files \<Rightarrow> string \<Rightarrow>
   'c connection_manager \<Rightarrow> (formatted_response res \<times> 'c connection_manager) option" where
  "send_command dbg chrono K L command m =
     (if \<not> is_connected m then Some (Err ConnectionClosed, m)
      else
        (case build_request (lf_stat L) command of
           Err e \<Rightarrow> Some (Err e, m)
         | Panic \<Rightarrow> Some (Panic, m)
         | Ok plan \<Rightarrow>
             map_option (\<lambda>(x, m'). (res_bind x (format_response chrono), m'))
               (execute_plan dbg K L plan m)))"

subsection \<open>What a command keeps\<close>

text \<open>No command opens or drops the channel, or touches the peer the manager is set up for.\<close>

definition same_peer :: "'c connection_manager \<Rightarrow> 'c connection_manager \<Rightarrow> bool" where
  "same_peer m m' \<longleftrightarrow> is_connected m' = is_connected m \<and>
     mg_server_info m' = mg_server_info m \<and> mg_server_identity m' = mg_server_identity m"

definition keeps_peer :: "('c connection_manager, 'a) action \<Rightarrow> bool" where
  "keeps_peer act \<longleftrightarrow> (\<forall>m. same_peer m (snd (act m)))"

lemma same_peer_refl [simp]: "same_peer m m"
  and same_peer_trans: "same_peer m m' \<Longrightarrow> same_peer m' m'' \<Longrightarrow> same_peer m m''"
  by (simp_all add: same_peer_def)

lemma keeps_peerD: "keeps_peer act \<Longrightarrow> act m = (x, m') \<Longrightarrow> same_peer m m'"
  by (metis keeps_peer_def snd_conv)

lemma keeps_peer_bind: "keeps_peer act \<Longrightarrow> (\<And>x. keeps_peer (f x)) \<Longrightarrow> keeps_peer (state_bind act f)"
  unfolding keeps_peer_def state_bind_def
  by (auto split: prod.splits res.splits) (metis same_peer_trans snd_conv)+

lemma keeps_peer_lift [simp]: "keeps_peer (state_lift r)" "keeps_peer (state_return x)"
  "keeps_peer (Pair r)"
  by (simp_all add: keeps_peer_def)

lemma keeps_peer_on_channel: "keeps_peer (on_channel act)"
  by (auto simp: keeps_peer_def on_channel_def same_peer_def is_connected_def split: option.splits prod.splits)

lemma keeps_peer_chunk: "keeps_peer (send_transfer_chunk K off d l n)"
  by (simp add: send_transfer_chunk_def keeps_peer_on_channel)

lemma keeps_peer_begin: "keeps_peer (begin_transfer dbg K p mode n)"
  unfolding begin_transfer_def by (intro keeps_peer_bind keeps_peer_on_channel keeps_peer_lift)

lemma keeps_peer_chunk_list: "keeps_peer (send_chunk_list dbg K n off cs)"
  by (induction dbg K n off cs rule: send_chunk_list.induct)
    (auto simp: Let_def intro!: keeps_peer_bind keeps_peer_chunk)

lemma keeps_peer_inline: "keeps_peer (send_inline_write dbg K p mode d)"
  unfolding send_inline_write_def send_bytes_as_chunks_def
  by (auto intro!: keeps_peer_bind keeps_peer_begin keeps_peer_chunk keeps_peer_chunk_list)

lemma upload_loop_peer: "upload_loop dbg K L src c n off m = Some y \<Longrightarrow> same_peer m (snd y)"
proof (erule upload_loop.raw_induct [rotated, where P = "\<lambda>_ _ _ _ _ _ _ m y. same_peer m (snd y)"])
  fix loop dbg K L src c n off m y
  assume IH: "\<And>K L src c n off m b y. loop K L src c n off m b = Some y \<Longrightarrow> same_peer b (snd y)"
    and body: "(case lf_read L src off c of
        Inl e \<Rightarrow> Some (Err (FileOperationError (''Failed to read file '' @ to_string_lossy src @ '': '' @ e)), m)
      | Inr d \<Rightarrow>
          if d = []
          then Some (Err (FileOperationError (''File '' @ to_string_lossy src @ '' ended before '' @
                 show_u64 n @ '' bytes were read'')), m)
          else case send_transfer_chunk K off d (off + len_u64 d = n) n m of
                 (Ok out, m') \<Rightarrow>
                   if off + len_u64 d = n then Some (Ok out, m')
                   else case expect_transfer_progress dbg out of
                          Ok x \<Rightarrow> loop dbg K L src c n (off + len_u64 d) m'
                        | Err e \<Rightarrow> Some (Err e, m')
                        | Panic \<Rightarrow> Some (Panic, m')
               | (Err e, m') \<Rightarrow> Some (Err e, m')
               | (Panic, m') \<Rightarrow> Some (Panic, m')) = Some y"
  show "same_peer m (snd y)"
  proof (cases "lf_read L src off c")
    case (Inl e)
    then show ?thesis using body by auto
  next
    case (Inr d)
    obtain x m1 where send: "send_transfer_chunk K off d (off + len_u64 d = n) n m = (x, m1)"
      by fastforce
    then have "same_peer m m1" by (rule keeps_peerD [OF keeps_peer_chunk])
    moreover have "same_peer m1 (snd y) \<or> d = [] \<and> snd y = m"
      using body [unfolded Inr sum.case send prod.case] IH by (auto split: if_splits res.splits)
    ultimately show ?thesis using same_peer_trans by auto
  qed
qed

lemma send_upload_peer: "send_upload dbg K L src dst n m = Some (x, m') \<Longrightarrow> same_peer m m'"
  using keeps_peerD [OF keeps_peer_begin] keeps_peerD [OF keeps_peer_chunk] upload_loop_peer same_peer_trans
  by (fastforce simp: send_upload_def split: prod.splits res.splits sum.splits if_splits)

lemma receive_chunked_read_peer: "receive_chunked_read dbg K p m = Some (x, m') \<Longrightarrow> same_peer m m'"
  by (auto simp: receive_chunked_read_def same_peer_def is_connected_def
      split: option.splits prod.splits res.splits)

lemma execute_plan_peer: "execute_plan dbg K L plan m = Some (x, m') \<Longrightarrow> same_peer m m'"
  using keeps_peerD [OF keeps_peer_on_channel] keeps_peerD [OF keeps_peer_inline] send_upload_peer
    receive_chunked_read_peer
  by (cases plan) (auto simp: send_request_receive_response_def)

lemma send_command_peer: "send_command dbg chrono K L line m = Some (x, m') \<Longrightarrow> same_peer m m'"
  using execute_plan_peer
  by (fastforce simp: send_command_def split: if_splits res.splits)

end
