(* ===== verification/Batch.thy ===== *)
theory Batch
  imports Connection_Manager
begin

section \<open>Batch mode (client/src/batch.rs, client/src/main.rs)\<close>

text \<open>
  Batch mode runs a list of command lines over one connection and writes a result for
  each.  The writer is a parameter (an operation over a state \<open>'w\<close> that may fail), and so
  is the JSON encoder.
\<close>

datatype batch_output_format = Human | Jsonl

record batch_summary =
  bs_total :: usize
  bs_failed :: usize
  bs_aborted :: bool

definition batch_is_success :: "batch_summary \<Rightarrow> bool" where
  "batch_is_success s \<longleftrightarrow> bs_failed s = 0 \<and> \<not> bs_aborted s"

record batch_command_result =
  br_command :: string
  br_response :: formatted_response

record batch_command_record =
  bc_command :: string
  bc_success :: bool
  bc_message :: string
  bc_details :: "string option"
  bc_current_dir :: "string option"

type_synonym 'w writer = "string \<Rightarrow> 'w \<Rightarrow> (string + unit) \<times> 'w"

fun should_abort :: "fenris_error \<Rightarrow> bool" where
  "should_abort ConnectionClosed = True"
| "should_abort (NetworkError e) = True"
| "should_abort e = False"

text \<open>A \<open>writeln!\<close> hands its pieces to the writer one by one and stops at the first failure.\<close>

fun write_pieces :: "'w writer \<Rightarrow> string list \<Rightarrow> 'w \<Rightarrow> unit anyhow \<times> 'w" where
  "write_pieces wr [] w = (Done (), w)"
| "write_pieces wr (l # ls) w =
     (case wr l w of (Inr _, w') \<Rightarrow> write_pieces wr ls w' | (Inl e, w') \<Rightarrow> (Failed e, w'))"

definition write_human_result :: "'w writer \<Rightarrow> batch_command_result \<Rightarrow> 'w \<Rightarrow> unit anyhow \<times> 'w" where
  "write_human_result wr r =
     write_pieces wr
       ([''> '', br_command r, newline] @ [fr_message (br_response r), newline] @
        (case fr_details (br_response r) of None \<Rightarrow> [] | Some d \<Rightarrow> [d, newline]))"

text \<open>\<open>json\<close> gives the pieces the encoder writes for a record.\<close>

definition write_json_result ::
  "(batch_command_record \<Rightarrow> string list) \<Rightarrow> 'w writer \<Rightarrow> batch_command_result \<Rightarrow> 'w \<Rightarrow> unit anyhow \<times> 'w" where
  "write_json_result json wr r =
     write_pieces wr
       (json \<lparr>bc_command = br_command r, bc_success = fr_success (br_response r),
              bc_message = fr_message (br_response r), bc_details = fr_details (br_response r),
              bc_current_dir = fr_current_dir (br_response r)\<rparr> @ [newline])"

definition write_result ::
  "(batch_command_record \<Rightarrow> string list) \<Rightarrow> 'w writer \<Rightarrow> batch_output_format \<Rightarrow> batch_command_result \<Rightarrow> 'w \<Rightarrow>
   unit anyhow \<times> 'w" where
  "write_result json wr fmt r =
     (case fmt of Human \<Rightarrow> write_human_result wr r | Jsonl \<Rightarrow> write_json_result json wr r)"

definition error_response :: "fenris_error \<Rightarrow> formatted_response" where
  "error_response e =
     \<lparr>fr_success = False, fr_message = error_to_string e, fr_details = None, fr_current_dir = None\<rparr>"

text \<open>The loop of \<open>run_commands\<close>; \<open>send\<close> is the manager's \<open>send_command\<close>, \<open>out\<close> writes one result.\<close>

fun run_loop ::
  "(string \<Rightarrow> 'm \<Rightarrow> (formatted_response res \<times> 'm) option) \<Rightarrow>
   (batch_command_result \<Rightarrow> 'w \<Rightarrow> unit anyhow \<times> 'w) \<Rightarrow> string list \<Rightarrow> usize \<Rightarrow> 'm \<Rightarrow> 'w \<Rightarrow>
   ((usize \<times> bool) anyhow \<times> 'm \<times> 'w) option" where
  "run_loop send out [] failed m w = Some (Done (failed, False), m, w)"
| "run_loop send out (c # cs) failed m w =
     (case send c m of
        None \<Rightarrow> None
      | Some (Panic, m') \<Rightarrow> Some (Crashed, m', w)
      | Some (Ok r, m') \<Rightarrow>
          (let failed' = (if fr_success r then failed else failed + 1) in
           case out \<lparr>br_command = c, br_response = r\<rparr> w of
             (Done _, w') \<Rightarrow> run_loop send out cs failed' m' w'
           | (Failed e, w') \<Rightarrow> Some (Failed e, m', w')
           | (Crashed, w') \<Rightarrow> Some (Crashed, m', w'))
      | Some (Err e, m') \<Rightarrow>
          (case out \<lparr>br_command = c, br_response = error_response e\<rparr> w of
             (Done _, w') \<Rightarrow>
               (if should_abort e then Some (Done (failed + 1, True), m', w')
                else run_loop send out cs (failed + 1) m' w')
           | (Failed e', w') \<Rightarrow> Some (Failed e', m', w')
           | (Crashed, w') \<Rightarrow> Some (Crashed, m', w')))"

definition run_commands ::
  "(string \<Rightarrow> 'm \<Rightarrow> (formatted_response res \<times> 'm) option) \<Rightarrow>
   (batch_command_result \<Rightarrow> 'w \<Rightarrow> unit anyhow \<times> 'w) \<Rightarrow> string list \<Rightarrow> 'm \<Rightarrow> 'w \<Rightarrow>
   (batch_summary anyhow \<times> 'm \<times> 'w) option" where
  "run_commands send out cs m w =
     map_option (\<lambda>(r, m', w').
       (case r of
          Done (failed, aborted) \<Rightarrow> Done \<lparr>bs_total = length cs, bs_failed = failed, bs_aborted = aborted\<rparr>
        | Failed e \<Rightarrow> Failed e
        | Crashed \<Rightarrow> Crashed, m', w'))
     (run_loop send out cs 0 m w)"

record batch_config =
  bg_address :: string
  bg_port :: u16
  bg_commands :: "string list"
  bg_output :: batch_output_format

record batch_env =
  be_identity :: identity_primitives
  be_crypto :: crypto_primitives
  be_prost :: prost
  be_dial :: "string \<Rightarrow> io_error + wire"
  be_debug :: "fenris_output \<Rightarrow> string"
  be_chrono :: "u64 \<Rightarrow> string option"
  be_files :: local_files
  be_json :: "batch_command_record \<Rightarrow> string list"

definition run_batch ::
  "batch_env \<Rightarrow> 'w writer \<Rightarrow> batch_config \<Rightarrow> server_identity_public_key \<Rightarrow> 'w \<Rightarrow>
   (batch_summary anyhow \<times> link connection_manager option \<times> 'w) option" where
  "run_batch E wr cfg identity w =
     (case with_server_identity identity of
        Ok m0 \<Rightarrow>
          (case state_bind (set_server_info \<lparr>si_address = bg_address cfg, si_port = bg_port cfg\<rparr>)
                  (\<lambda>_. connect (be_identity E) (be_crypto E) (be_dial E)) m0 of
             (Ok _, m) \<Rightarrow>
               map_option (\<lambda>(r, m', w'). (r, Some (disconnect m'), w'))
                 (run_commands
                   (send_command (be_debug E) (be_chrono E) (secure_client_channel (be_prost E)) (be_files E))
                   (write_result (be_json E) wr (bg_output cfg)) (bg_commands cfg) m w)
           | (Err e, m) \<Rightarrow> Some (Failed (error_to_string e), Some m, w)
           | (Panic, m) \<Rightarrow> Some (Crashed, Some m, w))
      | _ \<Rightarrow> Some (Crashed, None, w))"

fun read_commands :: "(string + string) list \<Rightarrow> string list \<Rightarrow> string list anyhow" where
  "read_commands [] acc = Done acc"
| "read_commands (Inl e # ls) acc = Failed e"
| "read_commands (Inr l # ls) acc =
     (if trim l = [] then read_commands ls acc else read_commands ls (acc @ [trim l]))"

text \<open>\<open>opened\<close> is what opening a named file gives: the lines its reader yields.\<close>

definition read_commands_from_source ::
  "(string + string) list \<Rightarrow> (string \<Rightarrow> string + (string + string) list) \<Rightarrow> string \<Rightarrow> string list anyhow" where
  "read_commands_from_source stdin opened source =
     (if source = ''-'' then read_commands stdin []
      else (case opened source of Inl e \<Rightarrow> Failed e | Inr ls \<Rightarrow> read_commands ls []))"

datatype exit_code = ExitSuccess | ExitFailure

text \<open>The batch arm of \<open>main\<close>.\<close>

definition batch_exit :: "batch_summary \<Rightarrow> exit_code" where
  "batch_exit s = (if \<not> batch_is_success s then ExitFailure else ExitSuccess)"

subsection \<open>The summary is right\<close>

text \<open>The results of the commands in order, as the manager answers them, up to the first
  error that ends the batch.\<close>

fun answers :: "(string \<Rightarrow> 'm \<Rightarrow> (formatted_response res \<times> 'm) option) \<Rightarrow> string list \<Rightarrow> 'm \<Rightarrow> formatted_response list" where
  "answers send [] m = []"
| "answers send (c # cs) m =
     (case send c m of
        Some (Ok r, m') \<Rightarrow> r # answers send cs m'
      | Some (Err e, m') \<Rightarrow> error_response e # (if should_abort e then [] else answers send cs m')
      | _ \<Rightarrow> [])"

lemma run_loop_summary:
  "run_loop send out cs failed m w = Some (Done (f, ab), m', w') \<Longrightarrow>
   f = failed + length (filter (\<lambda>r. \<not> fr_success r) (answers send cs m)) \<and>
   (if ab then answers send cs m \<noteq> [] \<and> \<not> fr_success (last (answers send cs m))
    else length (answers send cs m) = length cs)"
proof (induction cs arbitrary: failed m w)
  case Nil
  then show ?case by simp
next
  case (Cons c cs)
  obtain r m1 where send: "send c m = Some (r, m1)" using Cons.prems by (cases "send c m") auto
  show ?case
  proof (cases r)
    case (Ok x)
    obtain w1 where "out \<lparr>br_command = c, br_response = x\<rparr> w = (Done (), w1)"
      "run_loop send out cs (if fr_success x then failed else failed + 1) m1 w1 = Some (Done (f, ab), m', w')"
      using Cons.prems send Ok by (auto simp: Let_def split: prod.splits anyhow.splits)
    from Cons.IH [OF this(2)] show ?thesis using send Ok by auto
  next
    case (Err e)
    obtain w1 where out: "out \<lparr>br_command = c, br_response = error_response e\<rparr> w = (Done (), w1)"
      using Cons.prems send Err by (auto split: prod.splits anyhow.splits)
    show ?thesis
    proof (cases "should_abort e")
      case True
      then show ?thesis using Cons.prems send Err out by (auto simp: error_response_def)
    next
      case False
      then have "run_loop send out cs (failed + 1) m1 w1 = Some (Done (f, ab), m', w')"
        using Cons.prems send Err out by auto
      from Cons.IH [OF this] show ?thesis using send Err False by (auto simp: error_response_def)
    qed
  next
    case Panic
    then show ?thesis using Cons.prems send by simp
  qed
qed

lemma run_commands_success:
  assumes "run_commands send out cs m w = Some (Done s, m', w')"
  shows "bs_total s = length cs \<and> bs_failed s \<le> bs_total s \<and>
    (batch_is_success s \<longleftrightarrow> length (answers send cs m) = length cs \<and> list_all fr_success (answers send cs m))"
proof -
  obtain f ab where run: "run_loop send out cs 0 m w = Some (Done (f, ab), m', w')"
    and s: "s = \<lparr>bs_total = length cs, bs_failed = f, bs_aborted = ab\<rparr>"
  proof -
    obtain r m1 w1 where run: "run_loop send out cs 0 m w = Some (r, m1, w1)"
      using assms by (cases "run_loop send out cs 0 m w") (auto simp: run_commands_def)
    show thesis
      by (cases r) (use assms run that in \<open>auto simp: run_commands_def split: prod.splits\<close>)
  qed
  note sum = run_loop_summary [OF run]
  have len: "length (answers send cs m) \<le> length cs"
    by (induction cs arbitrary: m) (auto split: option.splits prod.splits res.splits)
  have none: "f = 0 \<longleftrightarrow> list_all fr_success (answers send cs m)"
    using sum by (auto simp: list_all_iff filter_empty_conv)
  have "f \<le> length cs"
    using sum order_trans [OF length_filter_le len, of "\<lambda>r. \<not> fr_success r"] by simp
  moreover have "f = 0 \<Longrightarrow> \<not> ab"
    using sum none by (auto simp: list_all_iff split: if_splits)
  ultimately show ?thesis
    using s sum none by (auto simp: batch_is_success_def)
qed

lemma read_commands_lines:
  "read_commands ls acc = Done cs \<Longrightarrow>
   cs = acc @ filter (\<lambda>c. c \<noteq> []) (map (trim \<circ> projr) ls) \<and> (\<forall>l \<in> set ls. \<not> isl l)"
  by (induction ls acc rule: read_commands.induct) (auto split: if_splits)

end
