(* ===== verification/App.thy ===== *)
theory App
  imports Fenris_Error Utf8
begin

section \<open>The state of the terminal client (client/src/app.rs, client/src/ui/mod.rs)\<close>

text \<open>
  The application state behind the screens, its editing operations, and the handlers that
  turn a key into one of them.  A text is its UTF-8 bytes and a typed character is the
  byte sequence of one character, so the cursor is a byte offset as in the code.
  \<open>Instant::now()\<close> is an argument.  Operations that can panic give a \<open>res\<close>.

  Shown here: the invariant of the state (the history index is in range, the message list
  is bounded, the cursor is inside the line while the line is ASCII), that every key keeps
  it and none panics as long as only ASCII is typed, that editing is what an editor does
  at the cursor, and what a character outside ASCII leads to.
\<close>

type_synonym instant = nat

datatype screen = ConnectionScreen | CommandScreen | HelpScreen

datatype connection_focus = Address | Port

datatype message_kind = InfoMsg | ErrorMsg | SuccessMsg

record message =
  msg_timestamp :: instant
  msg_kind :: message_kind
  msg_content :: string

record app =
  ap_screen :: screen
  should_quit :: bool
  server_addr :: string
  server_port :: string
  focus :: connection_focus
  connected :: bool
  shown_dir :: string
  command_input :: string
  command_history :: "string list"
  history_index :: "usize option"
  messages :: "message list"
  cursor_position :: usize
  last_tick :: instant

definition app_new :: "instant \<Rightarrow> app" where
  "app_new now =
     \<lparr>ap_screen = ConnectionScreen, should_quit = False, server_addr = ''127.0.0.1'',
      server_port = ''5555'', focus = Address, connected = False, shown_dir = ''/'',
      command_input = [], command_history = [], history_index = None, messages = [],
      cursor_position = 0, last_tick = now\<rparr>"

subsection \<open>Messages\<close>

definition add_message :: "instant \<Rightarrow> message_kind \<Rightarrow> string \<Rightarrow> app \<Rightarrow> app" where
  "add_message now k content a =
     (let ms = messages a @ [\<lparr>msg_timestamp = now, msg_kind = k, msg_content = content\<rparr>] in
      a\<lparr>messages := (if length ms > 1000 then drop 100 ms else ms)\<rparr>)"

definition app_info :: "instant \<Rightarrow> string \<Rightarrow> app \<Rightarrow> app" where
  "app_info now = add_message now InfoMsg"

definition app_error :: "instant \<Rightarrow> string \<Rightarrow> app \<Rightarrow> app" where
  "app_error now = add_message now ErrorMsg"

definition app_success :: "instant \<Rightarrow> string \<Rightarrow> app \<Rightarrow> app" where
  "app_success now = add_message now SuccessMsg"

subsection \<open>History and editing\<close>

definition add_to_history :: "string \<Rightarrow> app \<Rightarrow> app" where
  "add_to_history command a =
     (if command \<noteq> [] then a\<lparr>command_history := command_history a @ [command], history_index := None\<rparr> else a)"

definition recall :: "usize \<Rightarrow> app \<Rightarrow> app res" where
  "recall i a =
     (if i < length (command_history a)
      then Ok (a\<lparr>history_index := Some i, command_input := command_history a ! i,
                 cursor_position := length (command_history a ! i)\<rparr>)
      else Panic)"

definition history_previous :: "app \<Rightarrow> app res" where
  "history_previous a =
     (if command_history a = [] then Ok a
      else
        recall (case history_index a of
                  None \<Rightarrow> length (command_history a) - 1
                | Some i \<Rightarrow> if i = 0 then length (command_history a) - 1 else i - 1) a)"

text \<open>With an empty history the subtraction of the guard overflows.\<close>

definition history_next :: "app \<Rightarrow> app res" where
  "history_next a =
     (case history_index a of
        None \<Rightarrow> Ok a
      | Some i \<Rightarrow>
          (if command_history a = [] then Panic
           else if i < length (command_history a) - 1 then recall (i + 1) a
           else Ok a))"

text \<open>\<open>String::insert\<close> and \<open>String::remove\<close> panic off a character boundary.\<close>

definition insert_char :: "string \<Rightarrow> app \<Rightarrow> app res" where
  "insert_char c a =
     (if is_char_boundary (command_input a) (cursor_position a)
      then Ok (a\<lparr>command_input := take (cursor_position a) (command_input a) @ c @
                   drop (cursor_position a) (command_input a),
                 cursor_position := cursor_position a + 1,
                 history_index := None\<rparr>)
      else Panic)"

definition remove_at :: "nat \<Rightarrow> string \<Rightarrow> string res" where
  "remove_at i s =
     (if i < length s \<and> is_char_boundary s i
      then Ok (take i s @ drop (i + snd (utf8_step (drop i s))) s)
      else Panic)"

definition delete_char :: "app \<Rightarrow> app res" where
  "delete_char a =
     (if 0 < cursor_position a
      then res_map (\<lambda>s. a\<lparr>command_input := s, cursor_position := cursor_position a - 1\<rparr>)
             (remove_at (cursor_position a - 1) (command_input a))
      else Ok a)"

definition move_cursor_left :: "app \<Rightarrow> app" where
  "move_cursor_left a =
     (if 0 < cursor_position a then a\<lparr>cursor_position := cursor_position a - 1\<rparr> else a)"

definition move_cursor_right :: "app \<Rightarrow> app" where
  "move_cursor_right a =
     (if cursor_position a < length (command_input a)
      then a\<lparr>cursor_position := cursor_position a + 1\<rparr> else a)"

definition move_cursor_start :: "app \<Rightarrow> app" where
  "move_cursor_start a = a\<lparr>cursor_position := 0\<rparr>"

definition move_cursor_end :: "app \<Rightarrow> app" where
  "move_cursor_end a = a\<lparr>cursor_position := length (command_input a)\<rparr>"

definition take_command :: "app \<Rightarrow> string \<times> app" where
  "take_command a =
     (command_input a, a\<lparr>command_input := [], cursor_position := 0, history_index := None\<rparr>)"

definition tick :: "instant \<Rightarrow> app \<Rightarrow> app" where
  "tick now a = a\<lparr>last_tick := now\<rparr>"

subsection \<open>Keys\<close>

datatype key_code =
  CharKey string | Backspace | Tab | Enter | Esc | Up | Down | LeftKey | RightKey | Home | EndKey | F nat | OtherKey

record key_event =
  key_code :: key_code
  key_control :: bool

definition pop_char :: "string \<Rightarrow> string" where
  "pop_char s = concat (butlast (utf8_chars s))"

definition ascii_digit :: "string \<Rightarrow> bool" where
  "ascii_digit c \<longleftrightarrow> (case c of [d] \<Rightarrow> 48 \<le> code_of d \<and> code_of d \<le> 57 | _ \<Rightarrow> False)"

definition handle_connection_input :: "key_event \<Rightarrow> app \<Rightarrow> app" where
  "handle_connection_input key a =
     (case key_code key of
        CharKey c \<Rightarrow>
          (case focus a of
             Address \<Rightarrow> a\<lparr>server_addr := server_addr a @ c\<rparr>
           | Port \<Rightarrow>
               (if ascii_digit c \<and> length (server_port a) < 5
                then a\<lparr>server_port := server_port a @ c\<rparr> else a))
      | Backspace \<Rightarrow>
          (case focus a of
             Address \<Rightarrow> a\<lparr>server_addr := pop_char (server_addr a)\<rparr>
           | Port \<Rightarrow> a\<lparr>server_port := pop_char (server_port a)\<rparr>)
      | Tab \<Rightarrow> a\<lparr>focus := (case focus a of Address \<Rightarrow> Port | Port \<Rightarrow> Address)\<rparr>
      | _ \<Rightarrow> a)"

definition handle_command_input :: "key_event \<Rightarrow> app \<Rightarrow> app res" where
  "handle_command_input key a =
     (case key_code key of
        F n \<Rightarrow> Ok (if n = 1 then a\<lparr>ap_screen := HelpScreen\<rparr> else a)
      | Up \<Rightarrow> history_previous a
      | Down \<Rightarrow> history_next a
      | LeftKey \<Rightarrow> Ok (move_cursor_left a)
      | RightKey \<Rightarrow> Ok (move_cursor_right a)
      | Home \<Rightarrow> Ok (move_cursor_start a)
      | EndKey \<Rightarrow> Ok (move_cursor_end a)
      | CharKey c \<Rightarrow> insert_char c a
      | Backspace \<Rightarrow> delete_char a
      | _ \<Rightarrow> Ok a)"

definition handle_help_input :: "key_event \<Rightarrow> app \<Rightarrow> app" where
  "handle_help_input key a =
     (if key_code key = F 1 \<or> key_code key = Esc then a\<lparr>ap_screen := CommandScreen\<rparr> else a)"

definition ui_handle_key_event :: "key_event \<Rightarrow> app \<Rightarrow> app res" where
  "ui_handle_key_event key a =
     (if key_control key \<and> key_code key = CharKey ''c'' then Ok (a\<lparr>should_quit := True\<rparr>)
      else
        (case ap_screen a of
           ConnectionScreen \<Rightarrow> Ok (handle_connection_input key a)
         | CommandScreen \<Rightarrow> handle_command_input key a
         | HelpScreen \<Rightarrow> Ok (handle_help_input key a)))"

subsection \<open>The invariant\<close>

fun index_ok :: "usize option \<Rightarrow> nat \<Rightarrow> bool" where
  "index_ok None n \<longleftrightarrow> True"
| "index_ok (Some i) n \<longleftrightarrow> i < n"

definition app_inv :: "app \<Rightarrow> bool" where
  "app_inv a \<longleftrightarrow>
     index_ok (history_index a) (length (command_history a)) \<and>
     length (messages a) \<le> 1000 \<and>
     list_all ascii (command_history a) \<and> ascii (command_input a) \<and>
     cursor_position a \<le> length (command_input a)"

text \<open>The keys an ASCII keyboard sends.\<close>

definition ascii_key :: "key_event \<Rightarrow> bool" where
  "ascii_key key \<longleftrightarrow> (case key_code key of CharKey c \<Rightarrow> length c = 1 \<and> ascii c | _ \<Rightarrow> True)"

lemma app_inv_new: "app_inv (app_new now)"
  by (simp add: app_inv_def app_new_def ascii_def)

lemma add_message_inv: "app_inv a \<Longrightarrow> app_inv (add_message now k c a)"
  by (auto simp: app_inv_def add_message_def Let_def)

lemma add_message_last: "\<exists>ms. messages (add_message now k c a) =
    ms @ [\<lparr>msg_timestamp = now, msg_kind = k, msg_content = c\<rparr>]"
  by (auto simp: add_message_def Let_def)

lemma recall_inv: "app_inv a \<Longrightarrow> i < length (command_history a) \<Longrightarrow> \<exists>b. recall i a = Ok b \<and> app_inv b"
  by (auto simp: app_inv_def recall_def list_all_length)

lemma history_previous_inv: "app_inv a \<Longrightarrow> \<exists>b. history_previous a = Ok b \<and> app_inv b"
  by (cases "history_index a")
    (auto simp: history_previous_def app_inv_def intro!: recall_inv [unfolded app_inv_def])

lemma history_next_inv: "app_inv a \<Longrightarrow> \<exists>b. history_next a = Ok b \<and> app_inv b"
  by (cases "history_index a")
    (auto simp: history_next_def app_inv_def intro!: recall_inv [unfolded app_inv_def])

lemma ascii_append [simp]: "ascii (s @ t) \<longleftrightarrow> ascii s \<and> ascii t"
  by (auto simp: ascii_def)

lemma ascii_take_drop [simp]: "ascii s \<Longrightarrow> ascii (take n s)" "ascii s \<Longrightarrow> ascii (drop n s)"
  by (auto simp: ascii_def dest: in_set_takeD in_set_dropD)

lemma insert_char_ascii:
  "app_inv a \<Longrightarrow> length c = 1 \<Longrightarrow> ascii c \<Longrightarrow>
   \<exists>b. insert_char c a = Ok b \<and> app_inv b"
  by (auto simp: insert_char_def app_inv_def ascii_char_boundary)

lemma utf8_step_ascii: "ascii s \<Longrightarrow> s \<noteq> [] \<Longrightarrow> utf8_step s = (True, 1)"
  by (cases s) (auto simp: ascii_def)

lemma remove_at_ascii: "ascii s \<Longrightarrow> i < length s \<Longrightarrow> remove_at i s = Ok (take i s @ drop (i + 1) s)"
  using utf8_step_ascii [of "drop i s"] by (simp add: remove_at_def ascii_char_boundary)

lemma delete_char_ascii: "app_inv a \<Longrightarrow> \<exists>b. delete_char a = Ok b \<and> app_inv b"
  by (cases "cursor_position a")
    (auto simp: delete_char_def app_inv_def remove_at_ascii)

lemmas app_moves = move_cursor_left_def move_cursor_right_def move_cursor_start_def move_cursor_end_def

lemma handle_command_input_inv:
  "app_inv a \<Longrightarrow> ascii_key key \<Longrightarrow> \<exists>b. handle_command_input key a = Ok b \<and> app_inv b"
  by (cases "key_code key")
    (auto simp: handle_command_input_def ascii_key_def app_moves app_inv_def
      intro!: history_previous_inv [unfolded app_inv_def] history_next_inv [unfolded app_inv_def]
        insert_char_ascii [unfolded app_inv_def] delete_char_ascii [unfolded app_inv_def])

lemma handle_connection_input_inv: "app_inv a \<Longrightarrow> app_inv (handle_connection_input key a)"
  by (auto simp: handle_connection_input_def app_inv_def split: key_code.splits connection_focus.splits)

lemma ui_handle_key_event_inv:
  assumes "app_inv a" "ascii_key key"
  shows "\<exists>b. ui_handle_key_event key a = Ok b \<and> app_inv b"
  using assms handle_command_input_inv handle_connection_input_inv
  by (cases "ap_screen a") (auto simp: ui_handle_key_event_def handle_help_input_def app_inv_def)

lemma take_command_inv: "app_inv a \<Longrightarrow> app_inv (snd (take_command a))"
  by (simp add: take_command_def app_inv_def ascii_def)

subsection \<open>What editing does\<close>

definition before_cursor :: "app \<Rightarrow> string" where
  "before_cursor a = take (cursor_position a) (command_input a)"

definition after_cursor :: "app \<Rightarrow> string" where
  "after_cursor a = drop (cursor_position a) (command_input a)"

text \<open>Typing a run of characters from the keyboard.\<close>

fun type_text :: "string list \<Rightarrow> app \<Rightarrow> app res" where
  "type_text [] a = Ok a"
| "type_text (c # cs) a = res_bind (insert_char c a) (type_text cs)"

lemma type_text_ascii:
  "app_inv a \<Longrightarrow> list_all (\<lambda>c. length c = 1 \<and> ascii c) cs \<Longrightarrow>
   \<exists>b. type_text cs a = Ok b \<and> app_inv b \<and>
     before_cursor b = before_cursor a @ concat cs \<and> after_cursor b = after_cursor a"
proof (induction cs arbitrary: a)
  case Nil
  then show ?case by simp
next
  case (Cons c cs)
  then obtain b where b: "insert_char c a = Ok b" "app_inv b"
    using insert_char_ascii [of a c] by auto
  then have "before_cursor b = before_cursor a @ c" "after_cursor b = after_cursor a"
    using Cons.prems by (auto simp: insert_char_def before_cursor_def after_cursor_def app_inv_def split: if_splits)
  then show ?case using Cons.IH [of b] b Cons.prems by auto
qed

text \<open>A character of more than one byte puts the cursor inside it; the next one panics.\<close>

lemma insert_wide_then_panic:
  assumes "command_input a = []" "cursor_position a = 0" "utf8_char c" "1 < length c"
  shows "res_bind (insert_char c a) (insert_char d) = Panic"
proof -
  have "cont_at c 1"
    using assms(3,4) unfolding utf8_char_def
    by (cases c) (auto simp: Let_def cont_at_def second_ok_def nth_Cons' split: if_splits)
  then have "\<not> is_char_boundary c 1"
    using assms(4) by (simp add: is_char_boundary_def)
  then show ?thesis
    using assms(1,2) by (simp add: insert_char_def is_char_boundary_def)
qed

end
