(* ===== verification/Screens.thy ===== *)
theory Screens
  imports App
begin

section \<open>The screens of the terminal client (client/src/ui)\<close>

text \<open>
  What the screens draw: \<open>ui/components.rs\<close>, \<open>ui/screens/*.rs\<close> and \<open>render\<close> of \<open>ui/mod.rs\<close>.
  A frame is the terminal's area, the widgets drawn on it in order, each with its area, and
  the position of the cursor.  Widgets are the values that the code builds for the ratatui
  library.  The layout solver of that library is a parameter \<open>S\<close>; what is relied on is that
  it gives one area per constraint, inside what the margin leaves of the area it splits
  (\<open>layout_ok\<close>), which is nothing when the margin does not fit.  Coordinates
  are \<open>u16\<close>; sums wrap around.

  Shown here: no screen panics and everything is drawn inside the terminal or not at all; the centred
  form is centred; the output shows the newest messages, as many as fit; and where the
  cursor ends up.
\<close>

subsection \<open>Widgets and frames\<close>

record rect =
  rect_x :: u16
  rect_y :: u16
  rwidth :: u16
  rheight :: u16

datatype color = Blue | Cyan | DarkGray | Green | Red | Yellow

record style =
  st_fg :: "color option"
  st_bold :: bool

definition style_default :: style where
  "style_default = \<lparr>st_fg = None, st_bold = False\<rparr>"

definition fg_color :: "color \<Rightarrow> style" where
  "fg_color c = style_default\<lparr>st_fg := Some c\<rparr>"

definition bold_style :: "style \<Rightarrow> style" where
  "bold_style s = s\<lparr>st_bold := True\<rparr>"

record span =
  sp_text :: string
  sp_style :: style

definition styled :: "string \<Rightarrow> style \<Rightarrow> span" where
  "styled t s = \<lparr>sp_text = t, sp_style = s\<rparr>"

definition raw_span :: "string \<Rightarrow> span" where
  "raw_span t = styled t style_default"

datatype line = Spans "span list" | TextLine string

datatype ui_text = RawText string | Lines "line list"

datatype alignment = AlignLeft | AlignCenter

record block =
  bl_title :: "string option"
  bl_borders :: bool
  bl_style :: style
  bl_border_style :: style

definition bordered :: "string option \<Rightarrow> block" where
  "bordered t = \<lparr>bl_title = t, bl_borders = True, bl_style = style_default, bl_border_style = style_default\<rparr>"

record paragraph_box =
  pg_text :: ui_text
  pg_alignment :: alignment
  pg_style :: style
  pg_block :: "block option"
  pg_wrap_trim :: "bool option"

definition paragraph_new :: "ui_text \<Rightarrow> paragraph_box" where
  "paragraph_new t =
     \<lparr>pg_text = t, pg_alignment = AlignLeft, pg_style = style_default, pg_block = None, pg_wrap_trim = None\<rparr>"

datatype widget = Clear | BlockWidget block | ParagraphWidget paragraph_box | ListWidget "line list" block

record ui_frame =
  uf_area :: rect
  uf_widgets :: "(widget \<times> rect) list"
  uf_cursor :: "(u16 \<times> u16) option"

definition render_widget :: "widget \<Rightarrow> rect \<Rightarrow> ui_frame \<Rightarrow> ui_frame" where
  "render_widget w r f = f\<lparr>uf_widgets := uf_widgets f @ [(w, r)]\<rparr>"

definition set_cursor_position :: "u16 \<times> u16 \<Rightarrow> ui_frame \<Rightarrow> ui_frame" where
  "set_cursor_position p f = f\<lparr>uf_cursor := Some p\<rparr>"

datatype layout_constraint = LengthOf u16 | MinOf u16

record layout =
  ly_margin :: u16
  ly_constraints :: "layout_constraint list"

type_synonym splitter = "layout \<Rightarrow> rect \<Rightarrow> rect list"

definition vertical :: "u16 \<Rightarrow> layout_constraint list \<Rightarrow> layout" where
  "vertical m cs = \<lparr>ly_margin = m, ly_constraints = cs\<rparr>"

text \<open>\<open>chunks[i]\<close> panics out of range.\<close>

definition area_at :: "rect list \<Rightarrow> nat \<Rightarrow> rect res" where
  "area_at rs i = (if i < length rs then Ok (rs ! i) else Panic)"

subsection \<open>Components\<close>

text \<open>The signs outside ASCII, as their UTF-8 bytes.\<close>

definition bullet_sign :: string where "bullet_sign = [CHR 0xE2, CHR 0x97, CHR 0x8F]"
definition info_sign :: string where "info_sign = [CHR 0xE2, CHR 0x84, CHR 0xB9]"
definition check_sign :: string where "check_sign = [CHR 0xE2, CHR 0x9C, CHR 0x93]"
definition cross_sign :: string where "cross_sign = [CHR 0xE2, CHR 0x9C, CHR 0x97]"
definition bar_sign :: string where "bar_sign = [CHR 0xE2, CHR 0x94, CHR 0x82]"
definition arrows_sign :: string where
  "arrows_sign = [CHR 0xE2, CHR 0x86, CHR 0x91, CHR 0xE2, CHR 0x86, CHR 0x93]"

definition render_header :: "rect \<Rightarrow> string \<Rightarrow> bool \<Rightarrow> ui_frame \<Rightarrow> ui_frame" where
  "render_header area title conn =
     (let status = (if conn then styled ('' '' @ bullet_sign @ '' CONNECTED '') (fg_color Green)
                    else styled ('' '' @ bullet_sign @ '' DISCONNECTED '') (fg_color Red));
          title_line = Spans [styled ('' '' @ title @ '' '') (bold_style (fg_color Cyan)), status] in
      render_widget
        (ParagraphWidget ((paragraph_new (Lines [title_line]))\<lparr>pg_alignment := AlignCenter, pg_block := Some (bordered None)\<rparr>))
        area)"

text \<open>Instants count nanoseconds; \<open>duration_since\<close> of a later instant is zero.\<close>

definition elapsed_secs :: "instant \<Rightarrow> instant \<Rightarrow> nat" where
  "elapsed_secs now t = (now - t) div 1000000000"

definition time_str :: "nat \<Rightarrow> string" where
  "time_str elapsed =
     (if elapsed < 60 then ''['' @ show_nat elapsed @ ''s ago]'' else ''['' @ show_nat (elapsed div 60) @ ''m ago]'')"

fun kind_icon :: "message_kind \<Rightarrow> string \<times> color" where
  "kind_icon InfoMsg = (info_sign, Blue)"
| "kind_icon SuccessMsg = (check_sign, Green)"
| "kind_icon ErrorMsg = (cross_sign, Red)"

definition message_line :: "instant \<Rightarrow> message \<Rightarrow> line" where
  "message_line now msg =
     (let (icon, c) = kind_icon (msg_kind msg) in
      Spans
        [styled (icon @ '' '') (bold_style (fg_color c)), raw_span (msg_content msg),
         styled ('' '' @ time_str (elapsed_secs now (msg_timestamp msg))) (fg_color DarkGray)])"

text \<open>\<open>area.height as usize - 2\<close> wraps around when the area is lower than two rows.\<close>

definition usize_sub :: "usize \<Rightarrow> usize \<Rightarrow> usize" where
  "usize_sub a b = (a + 2 ^ 64 - b) mod 2 ^ 64"

definition message_lines :: "rect \<Rightarrow> instant \<Rightarrow> message list \<Rightarrow> line list" where
  "message_lines area now ms =
     map (message_line now) (rev (take (usize_sub (unat (rheight area)) 2) (rev ms)))"

definition render_messages :: "rect \<Rightarrow> instant \<Rightarrow> message list \<Rightarrow> ui_frame \<Rightarrow> ui_frame" where
  "render_messages area now ms =
     render_widget
       (ParagraphWidget ((paragraph_new (Lines (message_lines area now ms)))
          \<lparr>pg_block := Some (bordered (Some '' Output '')), pg_wrap_trim := Some False\<rparr>))
       area"

definition render_input :: "rect \<Rightarrow> string \<Rightarrow> string \<Rightarrow> usize \<Rightarrow> ui_frame \<Rightarrow> ui_frame" where
  "render_input area prompt input cursor f =
     (let f' = render_widget
            (ParagraphWidget ((paragraph_new (RawText (prompt @ input)))\<lparr>pg_block := Some (bordered (Some '' Input ''))\<rparr>)) area f;
          cursor_x = rect_x area + of_nat (length prompt) + of_nat cursor + 1;
          cursor_y = rect_y area + 1 in
      if cursor_x < rect_x area + rwidth area - 1 \<and> cursor_y < rect_y area + rheight area - 1
      then set_cursor_position (cursor_x, cursor_y) f' else f')"

definition render_help_text :: "rect \<Rightarrow> (string \<times> string) list \<Rightarrow> ui_frame \<Rightarrow> ui_frame" where
  "render_help_text area shortcuts =
     (let help_spans = concat (map (\<lambda>(key, desc).
            [styled ('' '' @ key @ '' '') (bold_style (fg_color Yellow)), raw_span (desc @ '' '' @ bar_sign)]) shortcuts) in
      render_widget
        (ParagraphWidget ((paragraph_new (Lines [Spans help_spans]))\<lparr>pg_alignment := AlignCenter, pg_style := fg_color DarkGray\<rparr>))
        area)"

subsection \<open>The command screen\<close>

definition command_layout :: layout where
  "command_layout = vertical 0 [LengthOf 3, MinOf 0, LengthOf 3, LengthOf 1]"

definition command_render :: "splitter \<Rightarrow> instant \<Rightarrow> app \<Rightarrow> ui_frame \<Rightarrow> ui_frame res" where
  "command_render S now a f =
     (let chunks = S command_layout (uf_area f);
          prompt = shown_dir a @ '' -> '' in
      res_bind (area_at chunks 0) (\<lambda>header_area.
      res_bind (area_at chunks 1) (\<lambda>output_area.
      res_bind (area_at chunks 2) (\<lambda>input_area.
      res_bind (area_at chunks 3) (\<lambda>footer_area.
        let f1 = render_header header_area ''FENRIS CLIENT'' (connected a) f;
            f2 = render_messages output_area now (messages a) f1;
            f3 = render_input input_area prompt (command_input a) (cursor_position a) f2;
            cursor_x = rect_x input_area + of_nat (length prompt) + of_nat (cursor_position a) + 1;
            f4 = set_cursor_position (cursor_x, rect_y input_area + 1) f3 in
        Ok (render_help_text footer_area
              [(''F1'', ''Help''), (arrows_sign, ''History''), (''Ctrl+C'', ''Quit'')] f4))))))"

subsection \<open>The connection screen\<close>

definition saturating_sub :: "u16 \<Rightarrow> u16 \<Rightarrow> u16" where
  "saturating_sub a b = (if a \<le> b then 0 else a - b)"

definition center_rect :: "rect \<Rightarrow> u16 \<Rightarrow> u16 \<Rightarrow> rect" where
  "center_rect area width height =
     \<lparr>rect_x = rect_x area + saturating_sub (rwidth area) width div 2,
      rect_y = rect_y area + saturating_sub (rheight area) height div 2,
      rwidth = min width (rwidth area), rheight = min height (rheight area)\<rparr>"

definition form_layout :: layout where
  "form_layout = vertical 2 [LengthOf 1, LengthOf 1, LengthOf 3, LengthOf 3, LengthOf 1, MinOf 0]"

definition field_style :: "bool \<Rightarrow> style" where
  "field_style focused = (if focused then fg_color Yellow else style_default)"

definition field_input :: "string \<Rightarrow> string \<Rightarrow> bool \<Rightarrow> widget" where
  "field_input title value focused =
     ParagraphWidget ((paragraph_new (RawText value))
       \<lparr>pg_style := field_style focused,
        pg_block := Some ((bordered (Some title))\<lparr>bl_border_style := field_style focused\<rparr>)\<rparr>)"

definition form_instructions :: widget where
  "form_instructions =
     ParagraphWidget ((paragraph_new (Lines [Spans
         [raw_span ''Use '', styled ''Tab'' (bold_style (fg_color Green)), raw_span '' to switch fields, '',
          styled ''Enter'' (bold_style (fg_color Green)), raw_span '' to connect'']]))
       \<lparr>pg_alignment := AlignCenter, pg_style := fg_color DarkGray\<rparr>)"

definition render_connection_form :: "splitter \<Rightarrow> rect \<Rightarrow> app \<Rightarrow> ui_frame \<Rightarrow> ui_frame res" where
  "render_connection_form S area a f =
     (let centered = center_rect area 60 15;
          f1 = render_widget Clear centered f;
          chunks = S form_layout centered;
          f2 = render_widget (BlockWidget ((bordered (Some '' Connect to Server ''))\<lparr>bl_style := fg_color Cyan\<rparr>)) centered f1;
          title = ParagraphWidget ((paragraph_new (RawText ''Enter server connection details''))
                    \<lparr>pg_alignment := AlignCenter, pg_style := fg_color Yellow\<rparr>) in
      res_bind (area_at chunks 0) (\<lambda>title_area.
      res_bind (area_at chunks 2) (\<lambda>address_area.
      res_bind (area_at chunks 3) (\<lambda>port_area.
      res_bind (area_at chunks 5) (\<lambda>hint_area.
        let f3 = render_widget title title_area f2;
            f4 = render_widget (field_input '' Server Address '' (server_addr a) (focus a = Address)) address_area f3;
            f5 = render_widget (field_input '' Port '' (server_port a) (focus a = Port)) port_area f4 in
        Ok (render_widget form_instructions hint_area f5))))))"

definition connection_layout :: layout where
  "connection_layout = vertical 0 [LengthOf 3, MinOf 0, LengthOf 3]"

definition connection_render :: "splitter \<Rightarrow> app \<Rightarrow> ui_frame \<Rightarrow> ui_frame res" where
  "connection_render S a f =
     (let chunks = S connection_layout (uf_area f) in
      res_bind (area_at chunks 0) (\<lambda>header_area.
      res_bind (area_at chunks 1) (\<lambda>form_area.
      res_bind (render_connection_form S form_area a (render_header header_area ''FENRIS CLIENT'' (connected a) f)) (\<lambda>f1.
      res_bind (area_at chunks 2) (\<lambda>footer_area.
        Ok (render_help_text footer_area
              [(''Tab'', ''Switch field''), (''Enter'', ''Connect''), (''F1'', ''Help''), (''Ctrl+C'', ''Quit'')] f1))))))"

subsection \<open>The help screen\<close>

definition help_commands :: "(string \<times> string) list" where
  "help_commands =
     [(''ping'', ''Test connection to server''),
      (''ls [dir]'', ''List directory contents''),
      (''cd <dir>'', ''Change directory''),
      (''read <file>'', ''Read file contents''),
      (''write <file>'', ''Write to file''),
      (''create <file>'', ''Create new file''),
      (''rm <file>'', ''Delete file''),
      (''mkdir <dir>'', ''Create directory''),
      (''rmdir <dir>'', ''Delete directory''),
      (''upload <client_file> <server_location>'', ''Upload a file from local machine to server''),
      (''info <file>'', ''Get file information''),
      (''help'', ''Show this help''),
      (''exit'', ''Disconnect and quit'')]"

text \<open>\<open>{:20}\<close> pads with blanks to twenty characters; the commands are ASCII.\<close>

definition pad20 :: "string \<Rightarrow> string" where
  "pad20 s = s @ replicate (20 - length s) CHR '' ''"

definition help_layout :: layout where
  "help_layout = vertical 2 [LengthOf 3, MinOf 0]"

definition help_item :: "string \<times> string \<Rightarrow> line" where
  "help_item = (\<lambda>(cmd, desc). Spans [styled ('' '' @ pad20 cmd) (bold_style (fg_color Yellow)), raw_span desc])"

definition render_help_content :: "splitter \<Rightarrow> rect \<Rightarrow> ui_frame \<Rightarrow> ui_frame res" where
  "render_help_content S area f =
     (let chunks = S help_layout area;
          title = ParagraphWidget ((paragraph_new (Lines
            [Spans [styled ''FENRIS - Fast Encrypted Networked Robust Information Storage'' (bold_style (fg_color Cyan))],
             TextLine '''', TextLine ''Available Commands: '']))\<lparr>pg_alignment := AlignCenter\<rparr>) in
      res_bind (area_at chunks 0) (\<lambda>title_area.
      res_bind (area_at chunks 1) (\<lambda>list_area.
        Ok (render_widget (ListWidget (map help_item help_commands) (bordered (Some '' Commands ''))) list_area
              (render_widget title title_area f)))))"

definition help_screen_layout :: layout where
  "help_screen_layout = vertical 0 [LengthOf 3, MinOf 0, LengthOf 1]"

definition help_render :: "splitter \<Rightarrow> app \<Rightarrow> ui_frame \<Rightarrow> ui_frame res" where
  "help_render S a f =
     (let chunks = S help_screen_layout (uf_area f) in
      res_bind (area_at chunks 0) (\<lambda>header_area.
      res_bind (area_at chunks 1) (\<lambda>content_area.
      res_bind (render_help_content S content_area (render_header header_area ''FENRIS HELP'' (connected a) f)) (\<lambda>f1.
      res_bind (area_at chunks 2) (\<lambda>footer_area.
        Ok (render_help_text footer_area [(''F1/Esc'', ''Back''), (''Ctrl+C'', ''Quit'')] f1))))))"

definition ui_render :: "splitter \<Rightarrow> instant \<Rightarrow> app \<Rightarrow> ui_frame \<Rightarrow> ui_frame res" where
  "ui_render S now a f =
     (case ap_screen a of
        ConnectionScreen \<Rightarrow> connection_render S a f
      | CommandScreen \<Rightarrow> command_render S now a f
      | HelpScreen \<Rightarrow> help_render S a f)"

subsection \<open>Everything is drawn inside the terminal\<close>

definition rect_ok :: "rect \<Rightarrow> bool" where
  "rect_ok r \<longleftrightarrow> unat (rect_x r) + unat (rwidth r) < 2 ^ 16 \<and> unat (rect_y r) + unat (rheight r) < 2 ^ 16"

definition rect_inside :: "rect \<Rightarrow> rect \<Rightarrow> bool" where
  "rect_inside r a \<longleftrightarrow>
     unat (rect_x a) \<le> unat (rect_x r) \<and> unat (rect_x r) + unat (rwidth r) \<le> unat (rect_x a) + unat (rwidth a) \<and>
     unat (rect_y a) \<le> unat (rect_y r) \<and> unat (rect_y r) + unat (rheight r) \<le> unat (rect_y a) + unat (rheight a)"

text \<open>What a margin leaves of an area: the empty area at the origin when it does not fit.\<close>

definition inner_area :: "u16 \<Rightarrow> rect \<Rightarrow> rect" where
  "inner_area m a =
     (if unat (rwidth a) < 2 * unat m \<or> unat (rheight a) < 2 * unat m
      then \<lparr>rect_x = 0, rect_y = 0, rwidth = 0, rheight = 0\<rparr>
      else \<lparr>rect_x = rect_x a + m, rect_y = rect_y a + m, rwidth = rwidth a - 2 * m, rheight = rheight a - 2 * m\<rparr>)"

text \<open>What is relied on of the layout solver: it splits what the margin leaves.\<close>

definition layout_ok :: "splitter \<Rightarrow> bool" where
  "layout_ok S \<longleftrightarrow>
     (\<forall>l a. rect_ok a \<longrightarrow> length (S l a) = length (ly_constraints l) \<and>
        (\<forall>r \<in> set (S l a). rect_inside r (inner_area (ly_margin l) a)))"

text \<open>An empty area shows nothing, wherever it is.\<close>

definition rect_within :: "rect \<Rightarrow> rect \<Rightarrow> bool" where
  "rect_within r a \<longleftrightarrow> rect_inside r a \<or> rwidth r = 0 \<and> rheight r = 0"

definition draws_inside :: "rect \<Rightarrow> ui_frame \<Rightarrow> ui_frame \<Rightarrow> bool" where
  "draws_inside a f f' \<longleftrightarrow>
     uf_area f' = uf_area f \<and>
     (\<exists>ws. uf_widgets f' = uf_widgets f @ ws \<and> (\<forall>(w, r) \<in> set ws. rect_within r a))"

named_theorems drawing

lemma rect_inside_refl [simp]: "rect_inside a a"
  by (simp add: rect_inside_def)

lemma rect_inside_trans: "rect_inside r a \<Longrightarrow> rect_inside a b \<Longrightarrow> rect_inside r b"
  by (auto simp: rect_inside_def)

lemma rect_inside_ok: "rect_inside r a \<Longrightarrow> rect_ok a \<Longrightarrow> rect_ok r"
  by (auto simp: rect_inside_def rect_ok_def)

lemma draws_inside_trans: "draws_inside a f g \<Longrightarrow> draws_inside a g h \<Longrightarrow> draws_inside a f h"
  by (fastforce simp: draws_inside_def)

lemma rect_inside_within [simp, intro]: "rect_inside r a \<Longrightarrow> rect_within r a"
  by (simp add: rect_within_def)

lemma rect_inside_empty: "rect_inside r a \<Longrightarrow> rwidth a = 0 \<Longrightarrow> rheight a = 0 \<Longrightarrow> rwidth r = 0 \<and> rheight r = 0"
  by (simp add: rect_inside_def flip: unat_eq_zero)

lemma rect_within_trans: "rect_within r a \<Longrightarrow> rect_within a b \<Longrightarrow> rect_within r b"
  using rect_inside_trans rect_inside_empty by (auto simp: rect_within_def)

text \<open>What the margin leaves of one dimension, in numbers.\<close>

lemma unat_margin:
  assumes "2 * unat m \<le> unat w" "unat x + unat w < 2 ^ 16"
  shows "unat (x + m :: u16) = unat x + unat m" "unat (w - 2 * m) = unat w - 2 * unat m"
proof -
  have "unat (2 * m) = 2 * unat m" using assms by (simp add: unat_word_ariths)
  then show "unat (w - 2 * m) = unat w - 2 * unat m" using assms by (simp add: unat_sub_if')
  show "unat (x + m) = unat x + unat m" using assms by (simp add: unat_word_ariths)
qed

lemma inner_area_zero [simp]: "inner_area 0 a = a"
  by (simp add: inner_area_def)

lemma inner_area_within:
  assumes "rect_ok a"
  shows "rect_within (inner_area m a) a \<and> rect_ok (inner_area m a)"
proof (cases "unat (rwidth a) < 2 * unat m \<or> unat (rheight a) < 2 * unat m")
  case False
  then have "2 * unat m \<le> unat (rwidth a)" "2 * unat m \<le> unat (rheight a)" by simp_all
  moreover have "unat (rect_x a) + unat (rwidth a) < 2 ^ 16" "unat (rect_y a) + unat (rheight a) < 2 ^ 16"
    using assms by (simp_all add: rect_ok_def)
  ultimately show ?thesis
    using unat_margin [of m "rwidth a" "rect_x a"] unat_margin [of m "rheight a" "rect_y a"] False
    by (simp add: inner_area_def rect_within_def rect_inside_def rect_ok_def) (intro conjI; linarith)
qed (auto simp: inner_area_def rect_within_def rect_ok_def)

lemma draws_inside_widen: "draws_inside a f g \<Longrightarrow> rect_within a b \<Longrightarrow> draws_inside b f g"
  by (fastforce simp: draws_inside_def intro: rect_within_trans)

lemma draw_nothing [drawing]: "draws_inside a f f"
  by (simp add: draws_inside_def)

lemma draw_widget [drawing]:
  "rect_within r a \<Longrightarrow> draws_inside a f g \<Longrightarrow> draws_inside a f (render_widget w r g)"
  by (auto simp: draws_inside_def render_widget_def)

lemma draw_cursor [drawing]: "draws_inside a f g \<Longrightarrow> draws_inside a f (set_cursor_position p g)"
  by (simp add: draws_inside_def set_cursor_position_def)

lemma draw_components [drawing]:
  assumes "rect_within r a" "draws_inside a f g"
  shows "draws_inside a f (render_header r title c g)" "draws_inside a f (render_messages r now ms g)"
    "draws_inside a f (render_help_text r ks g)" "draws_inside a f (render_input r prompt input n g)"
  using assms
  by (simp_all add: render_header_def render_messages_def render_help_text_def render_input_def Let_def draw_widget draw_cursor)

lemma area_at_layout:
  assumes "layout_ok S" "rect_ok a" "i < length (ly_constraints l)"
  shows "area_at (S l a) i = Ok (S l a ! i)" "rect_within (S l a ! i) a" "rect_ok (S l a ! i)"
    "ly_margin l = 0 \<Longrightarrow> rect_inside (S l a ! i) a"
proof -
  have S: "length (S l a) = length (ly_constraints l)" "\<forall>r \<in> set (S l a). rect_inside r (inner_area (ly_margin l) a)"
    using assms(1,2) by (auto simp: layout_ok_def)
  note inner = inner_area_within [OF assms(2), of "ly_margin l"]
  from S assms(3) have inside: "rect_inside (S l a ! i) (inner_area (ly_margin l) a)" by auto
  show "area_at (S l a) i = Ok (S l a ! i)" using S assms(3) by (simp add: area_at_def)
  show "rect_ok (S l a ! i)" using inside inner by (blast intro: rect_inside_ok)
  show "rect_within (S l a ! i) a" using inside inner by (blast intro: rect_within_trans)
  show "rect_inside (S l a ! i) a" if "ly_margin l = 0" using inside that by simp
qed

lemmas layouts = command_layout_def form_layout_def connection_layout_def help_layout_def help_screen_layout_def vertical_def

text \<open>The centred area, in numbers.\<close>

lemma unat_saturating_sub: "unat (saturating_sub a b) = unat a - unat b"
  by (simp add: saturating_sub_def word_le_nat_alt unat_sub_if')

lemma unat_min: "unat (min (a :: u16) b) = min (unat a) (unat b)"
  by (auto simp: min_def word_le_nat_alt)

lemma center_rect_values:
  assumes "rect_ok a"
  shows "unat (rect_x (center_rect a w h)) = unat (rect_x a) + (unat (rwidth a) - unat w) div 2"
    "unat (rect_y (center_rect a w h)) = unat (rect_y a) + (unat (rheight a) - unat h) div 2"
    "unat (rwidth (center_rect a w h)) = min (unat w) (unat (rwidth a))"
    "unat (rheight (center_rect a w h)) = min (unat h) (unat (rheight a))"
proof -
  have half: "unat (saturating_sub x y div 2) = (unat x - unat y) div 2" for x y
    by (simp add: unat_div unat_saturating_sub)
  have add: "unat (x + y) = unat x + unat y" if "unat x + unat y < 2 ^ 16" for x y :: u16
    using that by (simp add: unat_word_ariths)
  have fit: "unat x + (unat m - unat n) div 2 < 2 ^ 16" if "unat x + unat m < 2 ^ 16" for x m n :: u16
    using that by linarith
  show "unat (rect_x (center_rect a w h)) = unat (rect_x a) + (unat (rwidth a) - unat w) div 2"
    "unat (rect_y (center_rect a w h)) = unat (rect_y a) + (unat (rheight a) - unat h) div 2"
    using assms fit by (simp_all add: center_rect_def add half rect_ok_def)
qed (simp_all add: center_rect_def unat_min)

lemma center_rect_inside: "rect_ok a \<Longrightarrow> rect_inside (center_rect a w h) a"
  by (auto simp: rect_inside_def center_rect_values)

lemma connection_form_inside:
  assumes "layout_ok S" "rect_ok a"
  shows "\<exists>f'. render_connection_form S a st f = Ok f' \<and> draws_inside a f f'"
proof -
  let ?c = "center_rect a 60 15"
  have c: "rect_inside ?c a" "rect_ok ?c"
    using center_rect_inside [OF assms(2)] rect_inside_ok [OF _ assms(2)] by auto
  have at: "area_at (S form_layout ?c) i = Ok (S form_layout ?c ! i)" "rect_within (S form_layout ?c ! i) a" if "i < 6" for i
    using area_at_layout [OF assms(1) c(2), of i form_layout] that c(1) by (auto simp: layouts intro: rect_within_trans)
  show ?thesis
    unfolding render_connection_form_def Let_def
    by (simp add: at(1)) (intro drawing rect_inside_within c(1) at(2); simp)
qed

lemma help_content_inside:
  assumes "layout_ok S" "rect_ok a"
  shows "\<exists>f'. render_help_content S a f = Ok f' \<and> draws_inside a f f'"
proof -
  have at: "area_at (S help_layout a) i = Ok (S help_layout a ! i)" "rect_within (S help_layout a ! i) a" if "i < 2" for i
    using area_at_layout [OF assms, of i help_layout] that by (auto simp: layouts)
  show ?thesis
    by (simp add: render_help_content_def Let_def at(1)) (intro drawing at(2); simp)
qed

lemma screen_inside:
  assumes S: "layout_ok S" and ok: "rect_ok (uf_area f)"
  shows "\<exists>f'. ui_render S now st f = Ok f' \<and> draws_inside (uf_area f) f f'"
proof (cases "ap_screen st")
  let ?a = "uf_area f"
  note at = area_at_layout [OF S ok]
  case CommandScreen
  have at: "area_at (S command_layout ?a) i = Ok (S command_layout ?a ! i)" "rect_within (S command_layout ?a ! i) ?a" if "i < 4" for i
    using at [of i command_layout] that by (auto simp: layouts)
  show ?thesis
    by (simp add: CommandScreen ui_render_def command_render_def Let_def at(1))
      (intro drawing at(2); simp)
next
  let ?a = "uf_area f" and ?c = "S connection_layout (uf_area f)"
  note at = area_at_layout [OF S ok, of _ connection_layout]
  case ConnectionScreen
  have at: "area_at ?c i = Ok (?c ! i)" "rect_within (?c ! i) ?a" "rect_ok (?c ! i)" if "i < 3" for i
    using at [of i] that by (auto simp: layouts)
  obtain f1 where f1: "render_connection_form S (?c ! 1) st (render_header (?c ! 0) ''FENRIS CLIENT'' (connected st) f) = Ok f1"
    "draws_inside (?c ! 1) (render_header (?c ! 0) ''FENRIS CLIENT'' (connected st) f) f1"
    using connection_form_inside [OF S at(3) [of 1]] by auto
  have draw_form: "draws_inside ?a f f1"
    by (rule draws_inside_trans [OF _ draws_inside_widen [OF f1(2) at(2) [of 1]]]) (simp_all add: drawing at(2))
  show ?thesis
    using draw_form f1(1) by (simp add: ConnectionScreen ui_render_def connection_render_def Let_def at(1)) (intro drawing at(2); simp)
next
  let ?a = "uf_area f" and ?c = "S help_screen_layout (uf_area f)"
  note at = area_at_layout [OF S ok, of _ help_screen_layout]
  case HelpScreen
  have at: "area_at ?c i = Ok (?c ! i)" "rect_within (?c ! i) ?a" "rect_ok (?c ! i)" if "i < 3" for i
    using at [of i] that by (auto simp: layouts)
  obtain f1 where f1: "render_help_content S (?c ! 1) (render_header (?c ! 0) ''FENRIS HELP'' (connected st) f) = Ok f1"
    "draws_inside (?c ! 1) (render_header (?c ! 0) ''FENRIS HELP'' (connected st) f) f1"
    using help_content_inside [OF S at(3) [of 1]] by auto
  have draw_form: "draws_inside ?a f f1"
    by (rule draws_inside_trans [OF _ draws_inside_widen [OF f1(2) at(2) [of 1]]]) (simp_all add: drawing at(2))
  show ?thesis
    using draw_form f1(1) by (simp add: HelpScreen ui_render_def help_render_def Let_def at(1)) (intro drawing at(2); simp)
qed

subsection \<open>The output and the cursor\<close>

text \<open>The newest messages are handed to the paragraph, oldest first, as many as there are rows inside
  the border.  The paragraph wraps what is longer than a row.\<close>

lemma message_lines_newest:
  assumes "2 \<le> unat (rheight area)"
  shows "message_lines area now ms = map (message_line now) (drop (length ms - (unat (rheight area) - 2)) ms)"
proof -
  have "usize_sub (unat (rheight area)) 2 = unat (rheight area) - 2"
  proof -
    have "unat (rheight area) < 2 ^ 16" using unsigned_less [of "rheight area"] by simp
    with assms show ?thesis by (simp add: usize_sub_def mod_if)
  qed
  then show ?thesis by (simp add: message_lines_def rev_take)
qed

text \<open>Lower than its border the area shows every message there is, since the subtraction
  wraps around.\<close>

lemma message_lines_flat:
  assumes "unat (rheight area) < 2" "length ms < 2 ^ 63"
  shows "message_lines area now ms = map (message_line now) ms"
proof -
  have "2 ^ 63 \<le> usize_sub (unat (rheight area)) 2"
    using assms(1) by (cases "unat (rheight area) = 0") (simp_all add: usize_sub_def)
  with assms(2) show ?thesis by (simp add: message_lines_def)
qed

lemma command_cursor:
  assumes "layout_ok S" "rect_ok (uf_area f)" "ap_screen st = CommandScreen"
  defines "box \<equiv> S command_layout (uf_area f) ! 2"
  shows "\<exists>f'. ui_render S now st f = Ok f' \<and> rect_inside box (uf_area f) \<and>
    uf_cursor f' = Some (rect_x box + of_nat (length (shown_dir st) + 4) + of_nat (cursor_position st) + 1, rect_y box + 1)"
proof -
  have at: "area_at (S command_layout (uf_area f)) i = Ok (S command_layout (uf_area f) ! i)"
    "rect_inside (S command_layout (uf_area f) ! i) (uf_area f)" if "i < 4" for i
    using area_at_layout [OF assms(1,2), of i command_layout] that by (auto simp: layouts)
  show ?thesis
    unfolding box_def
    by (simp add: assms(3) ui_render_def command_render_def Let_def at render_help_text_def render_widget_def set_cursor_position_def)
qed

end
