(* ===== verification/Tui_Client.thy ===== *)
theory Tui_Client
  imports Screens Connection_Manager
begin

section \<open>The terminal client (client/src/client.rs)\<close>

text \<open>
  The application state and the connection manager together, and what a key does to both:
  enter on the connection screen dials, enter on the command screen runs the line, and
  every other key goes to the handlers of \<open>App\<close>.  What the manager needs from outside
  (network, files, codecs) is the record \<open>client_env\<close>; \<open>t k\<close> is the time at which the
  \<open>k\<close>-th message of the event is added.  The loop draws, polls and handles a key in every
  round; what the terminal answers in each round is given by a list.
\<close>

record 'c client_env =
  ce_connect :: "('c connection_manager, unit) action"
  ce_debug :: "fenris_output \<Rightarrow> string"
  ce_chrono :: "u64 \<Rightarrow> string option"
  ce_channel :: "'c client_channel"
  ce_files :: local_files

record 'c tui_client =
  tc_app :: app
  tc_manager :: "'c connection_manager"

definition tui_client_new :: "instant \<Rightarrow> 'c tui_client" where
  "tui_client_new now = \<lparr>tc_app = app_new now, tc_manager = connection_manager_new\<rparr>"

definition tui_client_with_server_identity :: "instant \<Rightarrow> server_identity_public_key \<Rightarrow> 'c tui_client res" where
  "tui_client_with_server_identity now k =
     res_map (\<lambda>m. \<lparr>tc_app = app_new now, tc_manager = m\<rparr>) (with_server_identity k)"

subsection \<open>Numbers and lines of the standard library\<close>

text \<open>\<open>str::parse::<u16>\<close>: an optional plus sign, then digits, below \<open>2 ^ 16\<close>.\<close>

fun digits_value :: "string \<Rightarrow> nat \<Rightarrow> nat option" where
  "digits_value [] acc = Some acc"
| "digits_value (d # ds) acc =
     (if 48 \<le> code_of d \<and> code_of d \<le> 57 then digits_value ds (acc * 10 + (code_of d - 48)) else None)"

definition parse_u16 :: "string \<Rightarrow> u16 option" where
  "parse_u16 s =
     (let ds = (case s of c # r \<Rightarrow> if c = CHR ''+'' then r else s | [] \<Rightarrow> s) in
      if ds = [] then None
      else (case digits_value ds 0 of
              Some n \<Rightarrow> if n < 2 ^ 16 then Some (of_nat n) else None
            | None \<Rightarrow> None))"

definition strip_cr :: "string \<Rightarrow> string" where
  "strip_cr l = (if l \<noteq> [] \<and> last l = CHR 0x0D then butlast l else l)"

text \<open>\<open>str::lines\<close>: a final newline ends the last line and opens no other; a carriage
  return goes only with the newline after it.\<close>

definition text_lines :: "string \<Rightarrow> string list" where
  "text_lines s =
     (let ps = split_on CHR 0x0A s in
      map strip_cr (butlast ps) @ (if last ps = [] then [] else [last ps]))"

subsection \<open>Connecting\<close>

definition handle_connect ::
  "'c client_env \<Rightarrow> (nat \<Rightarrow> instant) \<Rightarrow> 'c tui_client \<Rightarrow> unit res \<times> 'c tui_client" where
  "handle_connect E t c =
     (let a = tc_app c; address = trim (server_addr a) in
      case parse_u16 (trim (server_port a)) of
        None \<Rightarrow> (Ok (), c\<lparr>tc_app := app_error (t 0) ''Invalid port number'' a\<rparr>)
      | Some port \<Rightarrow>
          (let shown = address @ '':'' @ show_nat (unat port);
               a1 = app_info (t 0) (''Connecting to '' @ shown @ ''...'') a in
           case set_server_info \<lparr>si_address = address, si_port = port\<rparr> (tc_manager c) of
             (Err e, m) \<Rightarrow>
               (Ok (), \<lparr>tc_app = app_error (t 1) (''Failed to set server info: '' @ error_to_string e) a1,
                        tc_manager = m\<rparr>)
           | (Panic, m) \<Rightarrow> (Panic, \<lparr>tc_app = a1, tc_manager = m\<rparr>)
           | (Ok _, m) \<Rightarrow>
               (case ce_connect E m of
                  (Ok _, m') \<Rightarrow>
                    (Ok (), \<lparr>tc_app = (app_success (t 1) (''Connected to '' @ shown)
                                 (a1\<lparr>connected := True\<rparr>))\<lparr>ap_screen := CommandScreen\<rparr>,
                             tc_manager = m'\<rparr>)
                | (Err e, m') \<Rightarrow>
                    (Ok (), \<lparr>tc_app = app_error (t 1) (''Connection failed: '' @ error_to_string e)
                                 (a1\<lparr>connected := False\<rparr>),
                             tc_manager = m'\<rparr>)
                | (Panic, m') \<Rightarrow> (Panic, \<lparr>tc_app = a1, tc_manager = m'\<rparr>))))"

subsection \<open>StillRunning a line\<close>

fun show_lines :: "(nat \<Rightarrow> instant) \<Rightarrow> nat \<Rightarrow> string list \<Rightarrow> app \<Rightarrow> app" where
  "show_lines t k [] a = a"
| "show_lines t k (l # ls) a = show_lines t (k + 1) ls (app_info (t k) l a)"

definition show_response :: "(nat \<Rightarrow> instant) \<Rightarrow> formatted_response \<Rightarrow> app \<Rightarrow> app" where
  "show_response t f a =
     (let a1 = (if fr_success f then app_success (t 1) (fr_message f) a else app_error (t 1) (fr_message f) a);
          a2 = (case fr_details f of None \<Rightarrow> a1 | Some d \<Rightarrow> show_lines t 2 (text_lines d) a1) in
      case fr_current_dir f of None \<Rightarrow> a2 | Some d \<Rightarrow> a2\<lparr>shown_dir := d\<rparr>)"

definition show_failure :: "(nat \<Rightarrow> instant) \<Rightarrow> fenris_error \<Rightarrow> app \<Rightarrow> app" where
  "show_failure t e a =
     (let a1 = app_error (t 1) (''Command failed: '' @ error_to_string e) a in
      if e = ConnectionClosed then a1\<lparr>connected := False, ap_screen := ConnectionScreen\<rparr> else a1)"

definition echo_command :: "(nat \<Rightarrow> instant) \<Rightarrow> string \<Rightarrow> app \<Rightarrow> app" where
  "echo_command t command a = app_info (t 0) (''> '' @ command) (add_to_history command a)"

definition tui_handle_command ::
  "'c client_env \<Rightarrow> (nat \<Rightarrow> instant) \<Rightarrow> 'c tui_client \<Rightarrow> (unit res \<times> 'c tui_client) option" where
  "tui_handle_command E t c =
     (let (command, a0) = take_command (tc_app c);
          a1 = echo_command t command a0 in
      if trim command = ''exit'' \<or> trim command = ''quit''
      then Some (Ok (), \<lparr>tc_app = (app_info (t 1) ''Disconnecting...'' a1)
                            \<lparr>connected := False, ap_screen := ConnectionScreen\<rparr>,
                         tc_manager = disconnect (tc_manager c)\<rparr>)
      else if trim command = ''clear'' then Some (Ok (), c\<lparr>tc_app := a1\<lparr>messages := []\<rparr>\<rparr>)
      else if trim command = ''help'' then Some (Ok (), c\<lparr>tc_app := a1\<lparr>ap_screen := HelpScreen\<rparr>\<rparr>)
      else
        map_option (\<lambda>(r, m').
          (case r of
             Ok f \<Rightarrow> (Ok (), \<lparr>tc_app = show_response t f a1, tc_manager = m'\<rparr>)
           | Err e \<Rightarrow> (Ok (), \<lparr>tc_app = show_failure t e a1, tc_manager = m'\<rparr>)
           | Panic \<Rightarrow> (Panic, \<lparr>tc_app = a1, tc_manager = m'\<rparr>)))
          (send_command (ce_debug E) (ce_chrono E) (ce_channel E) (ce_files E) command (tc_manager c)))"

subsection \<open>Keys and the loop\<close>

definition ui_key :: "key_event \<Rightarrow> 'c tui_client \<Rightarrow> unit res \<times> 'c tui_client" where
  "ui_key key c =
     (case ui_handle_key_event key (tc_app c) of
        Ok a \<Rightarrow> (Ok (), c\<lparr>tc_app := a\<rparr>)
      | Err e \<Rightarrow> (Err e, c)
      | Panic \<Rightarrow> (Panic, c))"

definition tui_handle_key_event ::
  "'c client_env \<Rightarrow> (nat \<Rightarrow> instant) \<Rightarrow> key_event \<Rightarrow> 'c tui_client \<Rightarrow> (unit res \<times> 'c tui_client) option" where
  "tui_handle_key_event E t key c =
     (if key_code key = CharKey ''c'' \<and> key_control key
      then Some (Ok (), c\<lparr>tc_app := (tc_app c)\<lparr>should_quit := True\<rparr>\<rparr>)
      else
        (case ap_screen (tc_app c) of
           ConnectionScreen \<Rightarrow> (if key_code key = Enter then Some (handle_connect E t c) else Some (ui_key key c))
         | CommandScreen \<Rightarrow>
             (if key_code key = Enter \<and> command_input (tc_app c) \<noteq> [] then tui_handle_command E t c
              else Some (ui_key key c))
         | HelpScreen \<Rightarrow> Some (ui_key key c)))"

text \<open>What the terminal and the clock give to one round of the loop of \<open>run\<close>: the area of the
  frame or a failure, the success of the output, the answers of \<open>event::poll\<close> and
  \<open>event::read\<close>, and the times at which things are asked for.\<close>

datatype key_event_kind = Press | Repeat | Release

datatype term_event = KeyInput key_event key_event_kind | OtherInput

record tui_tick =
  tk_size :: "string + rect"
  tk_drawn :: instant
  tk_flush :: "string + unit"
  tk_poll :: "string + bool"
  tk_read :: "string + term_event"
  tk_time :: "nat \<Rightarrow> instant"
  tk_now :: instant

definition poll_events :: "tui_tick \<Rightarrow> term_event option anyhow" where
  "poll_events k =
     any_bind (io_anyhow (tk_poll k)) (\<lambda>ready.
       if ready then any_bind (io_anyhow (tk_read k)) (\<lambda>ev. Done (Some ev)) else Done None)"

text \<open>\<open>Terminal::draw\<close>: the size is asked for, the screen is drawn on an empty frame, and the
  frame is put out.\<close>

definition tui_draw :: "splitter \<Rightarrow> tui_tick \<Rightarrow> app \<Rightarrow> ui_frame anyhow" where
  "tui_draw S k a =
     any_bind (io_anyhow (tk_size k)) (\<lambda>area.
     any_bind (res_anyhow (ui_render S (tk_drawn k) a \<lparr>uf_area = area, uf_widgets = [], uf_cursor = None\<rparr>)) (\<lambda>f.
     any_bind (io_anyhow (tk_flush k)) (\<lambda>_. Done f)))"

fun pressed_key :: "term_event option \<Rightarrow> key_event option" where
  "pressed_key (Some (KeyInput key Press)) = Some key"
| "pressed_key _ = None"

definition tui_round :: "'c client_env \<Rightarrow> tui_tick \<Rightarrow> 'c tui_client \<Rightarrow> (unit anyhow \<times> 'c tui_client) option" where
  "tui_round E k c =
     (case poll_events k of
        Done ev \<Rightarrow>
          map_option (\<lambda>(r, c').
            (case r of Ok _ \<Rightarrow> (Done (), c'\<lparr>tc_app := tick (tk_now k) (tc_app c')\<rparr>) | _ \<Rightarrow> (res_anyhow r, c')))
          (case pressed_key ev of None \<Rightarrow> Some (Ok (), c) | Some key \<Rightarrow> tui_handle_key_event E (tk_time k) key c)
      | Failed e \<Rightarrow> Some (Failed e, c)
      | Crashed \<Rightarrow> Some (Crashed, c))"

text \<open>The loop over the given rounds, with the frames it has shown; after the last of them it is
  still running.\<close>

datatype 'a progress = StillRunning | Ended 'a

fun tui_loop ::
  "splitter \<Rightarrow> 'c client_env \<Rightarrow> tui_tick list \<Rightarrow> 'c tui_client \<Rightarrow> ui_frame list \<Rightarrow>
   (unit anyhow progress \<times> 'c tui_client \<times> ui_frame list) option" where
  "tui_loop S E [] c fs = Some (StillRunning, c, fs)"
| "tui_loop S E (k # ks) c fs =
     (case tui_draw S k (tc_app c) of
        Done f \<Rightarrow>
          (case tui_round E k c of
             None \<Rightarrow> None
           | Some (Done _, c') \<Rightarrow>
               (if should_quit (tc_app c')
                then Some (Ended (Done ()), if is_connected (tc_manager c')
                       then c'\<lparr>tc_manager := disconnect (tc_manager c')\<rparr> else c', fs @ [f])
                else tui_loop S E ks c' (fs @ [f]))
           | Some (r, c') \<Rightarrow> Some (Ended r, c', fs @ [f]))
      | Failed e \<Rightarrow> Some (Ended (Failed e), c, fs)
      | Crashed \<Rightarrow> Some (Ended Crashed, c, fs))"

definition tui_run ::
  "splitter \<Rightarrow> 'c client_env \<Rightarrow> instant \<Rightarrow> instant \<Rightarrow> tui_tick list \<Rightarrow> 'c tui_client \<Rightarrow>
   (unit anyhow progress \<times> 'c tui_client \<times> ui_frame list) option" where
  "tui_run S E t0 t1 ks c =
     tui_loop S E ks
       (c\<lparr>tc_app := app_info t1 ''Press F1 for help, Ctrl+C to quit.''
            (app_info t0 ''Welcome to Fenris Client!'' (tc_app c))\<rparr>) []"

subsection \<open>The invariant of the loop\<close>

text \<open>The state of the screen is that of the connection: it says \<open>connected\<close> only over a
  channel the manager holds.  A lost connection leaves both as they were.\<close>

definition tui_inv :: "'c tui_client \<Rightarrow> bool" where
  "tui_inv c \<longleftrightarrow> app_inv (tc_app c) \<and> (connected (tc_app c) \<longrightarrow> is_connected (tc_manager c))"

definition connect_ok :: "'c client_env \<Rightarrow> bool" where
  "connect_ok E \<longleftrightarrow> (\<forall>m. case ce_connect E m of (Ok _, m') \<Rightarrow> is_connected m' | _ \<Rightarrow> True)"

lemma connected_fields [simp]:
  "connected (add_message now k s a) = connected a"
  "command_history (add_message now k s a) = command_history a"
  "command_input (add_message now k s a) = command_input a"
  "should_quit (add_message now k s a) = should_quit a"
  by (simp_all add: add_message_def Let_def)

lemmas app_says = app_info_def app_error_def app_success_def

lemma show_lines_keeps: "app_inv a \<Longrightarrow> app_inv (show_lines t k ls a) \<and> connected (show_lines t k ls a) = connected a"
  by (induction t k ls a rule: show_lines.induct) (simp_all add: app_says add_message_inv)

lemma app_inv_flags [simp]:
  "app_inv (a\<lparr>connected := x\<rparr>) = app_inv a" "app_inv (a\<lparr>ap_screen := s\<rparr>) = app_inv a"
  "app_inv (a\<lparr>shown_dir := d\<rparr>) = app_inv a" "app_inv (a\<lparr>should_quit := q\<rparr>) = app_inv a"
  "app_inv (a\<lparr>last_tick := n\<rparr>) = app_inv a" "app_inv a \<Longrightarrow> app_inv (a\<lparr>messages := []\<rparr>)"
  by (simp_all add: app_inv_def)

lemma show_response_keeps:
  "app_inv a \<Longrightarrow> app_inv (show_response t f a) \<and> connected (show_response t f a) = connected a"
  using show_lines_keeps
  by (auto simp: show_response_def Let_def app_says add_message_inv split: option.splits)

lemma show_failure_keeps:
  "app_inv a \<Longrightarrow> app_inv (show_failure t e a) \<and> (connected (show_failure t e a) \<longrightarrow> connected a)"
  by (simp add: show_failure_def Let_def app_says add_message_inv)

lemma line_taken_inv:
  assumes "app_inv a" "take_command a = (line, a0)"
  shows "app_inv (add_to_history line a0) \<and> connected (add_to_history line a0) = connected a"
  using assms by (auto simp: take_command_def add_to_history_def app_inv_def ascii_def)

lemma echo_command_keeps:
  assumes "app_inv a" "take_command a = (line, a0)"
  shows "app_inv (echo_command t line a0) \<and> connected (echo_command t line a0) = connected a"
  using line_taken_inv [OF assms] by (simp add: echo_command_def app_says add_message_inv)

lemma tui_handle_command_inv:
  assumes inv: "tui_inv c" and run: "tui_handle_command E t c = Some (r, c')"
  shows "tui_inv c'"
proof -
  obtain line a0 where tk: "take_command (tc_app c) = (line, a0)" by fastforce
  let ?a = "echo_command t line a0"
  have a: "app_inv ?a" "connected ?a = connected (tc_app c)"
    using echo_command_keeps [OF _ tk] inv by (simp_all add: tui_inv_def)
  have conn: "connected (tc_app c) \<Longrightarrow> is_connected (tc_manager c)"
    using inv by (simp add: tui_inv_def)
  show ?thesis
  proof (cases "trim line \<in> {''exit'', ''quit'', ''clear'', ''help''}")
    case True
    then show ?thesis
      using run a conn inv
      by (auto simp: tui_handle_command_def tk Let_def tui_inv_def app_says add_message_inv split: if_splits)
  next
    case False
    then obtain x m' where sent:
        "send_command (ce_debug E) (ce_chrono E) (ce_channel E) (ce_files E) line (tc_manager c) = Some (x, m')"
      using run by (auto simp: tui_handle_command_def tk Let_def)
    then have c': "c' = \<lparr>tc_app = (case x of Ok f \<Rightarrow> show_response t f ?a | Err e \<Rightarrow> show_failure t e ?a | Panic \<Rightarrow> ?a),
                     tc_manager = m'\<rparr>"
      using run False by (cases x) (auto simp: tui_handle_command_def tk Let_def)
    have "is_connected m' = is_connected (tc_manager c)"
      using send_command_peer [OF sent] by (simp add: same_peer_def)
    then show ?thesis
      using c' a conn show_response_keeps [OF a(1)] show_failure_keeps [OF a(1)]
      by (auto simp: tui_inv_def split: res.splits)
  qed
qed

lemma handle_connect_inv:
  assumes "tui_inv c" "connect_ok E"
  shows "tui_inv (snd (handle_connect E t c))"
  using assms
  by (auto simp: handle_connect_def Let_def tui_inv_def connect_ok_def app_says add_message_inv
      set_server_info_def split: option.splits prod.splits res.splits if_splits)

lemma key_keeps_connected: "ui_handle_key_event key a = Ok b \<Longrightarrow> connected b = connected a"
  by (auto simp: ui_handle_key_event_def handle_command_input_def handle_connection_input_def
      handle_help_input_def history_previous_def history_next_def recall_def insert_char_def
      delete_char_def app_moves res_map_eq_Ok
      split: if_splits screen.splits key_code.splits connection_focus.splits option.splits)

lemma ui_key_inv:
  assumes "tui_inv c" "ascii_key key"
  shows "fst (ui_key key c) = Ok () \<and> tui_inv (snd (ui_key key c))"
proof -
  obtain b where "ui_handle_key_event key (tc_app c) = Ok b" "app_inv b"
    using ui_handle_key_event_inv [OF _ assms(2), of "tc_app c"] assms(1) by (auto simp: tui_inv_def)
  then show ?thesis
    using assms(1) key_keeps_connected [of key "tc_app c" b] by (simp add: ui_key_def tui_inv_def)
qed

lemma tui_handle_key_event_inv:
  assumes "tui_inv c" "ascii_key key" "connect_ok E" "tui_handle_key_event E t key c = Some (r, c')"
  shows "tui_inv c'"
proof -
  have "tui_handle_command E t c = Some (r, c') \<or> c' = snd (handle_connect E t c) \<or>
      c' = snd (ui_key key c) \<or> c' = c\<lparr>tc_app := (tc_app c)\<lparr>should_quit := True\<rparr>\<rparr>"
    using assms(4) by (auto simp: tui_handle_key_event_def split: if_splits screen.splits)
  moreover have "tui_inv (c\<lparr>tc_app := (tc_app c)\<lparr>should_quit := True\<rparr>\<rparr>)"
    using assms(1) by (simp add: tui_inv_def)
  ultimately show ?thesis
    using handle_connect_inv [OF assms(1,3)] ui_key_inv [OF assms(1,2)] tui_handle_command_inv [OF assms(1)]
    by auto
qed

text \<open>The keys are ASCII and the terminal's area is within the coordinates.\<close>

definition tick_ok :: "tui_tick \<Rightarrow> bool" where
  "tick_ok k \<longleftrightarrow>
     (case tk_read k of Inr (KeyInput key _) \<Rightarrow> ascii_key key | _ \<Rightarrow> True) \<and>
     (case tk_size k of Inr a \<Rightarrow> rect_ok a | _ \<Rightarrow> True)"

definition frame_inside :: "ui_frame \<Rightarrow> bool" where
  "frame_inside f \<longleftrightarrow> (\<forall>(w, r) \<in> set (uf_widgets f). rect_within r (uf_area f))"

lemma pressed_key_Some: "pressed_key ev = Some key \<longleftrightarrow> ev = Some (KeyInput key Press)"
  by (cases ev rule: pressed_key.cases) auto

lemma poll_events_Done:
  "poll_events k = Done ev \<Longrightarrow> ev = None \<or> (\<exists>e. ev = Some e \<and> tk_read k = Inr e)" "poll_events k \<noteq> Crashed"
  by (cases "tk_poll k"; cases "tk_read k"; auto simp: poll_events_def split: if_splits)+

lemma polled_key_ok:
  assumes "tick_ok k" "poll_events k = Done ev" "pressed_key ev = Some key"
  shows "ascii_key key"
  using assms(1,3) poll_events_Done(1) [OF assms(2)] by (auto simp: tick_ok_def pressed_key_Some)

lemma tui_round_inv:
  assumes "tui_inv c" "tick_ok k" "connect_ok E" "tui_round E k c = Some (r, c')"
  shows "tui_inv c'"
proof (cases "poll_events k")
  case (Done ev)
  show ?thesis
  proof (cases "pressed_key ev")
    case None
    then show ?thesis using assms Done by (auto simp: tui_round_def tui_inv_def tick_def)
  next
    case (Some key)
    then obtain r1 c1 where ev: "tui_handle_key_event E (tk_time k) key c = Some (r1, c1)"
      using assms(4) Done by (auto simp: tui_round_def)
    then have c': "tc_manager c' = tc_manager c1" "tc_app c' = tc_app c1 \<or> tc_app c' = tick (tk_now k) (tc_app c1)"
      using assms(4) Some Done by (cases r1; auto simp: tui_round_def)+
    have "tui_inv c1"
      by (rule tui_handle_key_event_inv [OF assms(1) polled_key_ok [OF assms(2) Done Some] assms(3) ev])
    then show ?thesis using c' by (auto simp: tui_inv_def tick_def)
  qed
qed (use assms in \<open>auto simp: tui_round_def\<close>)

text \<open>Only a command line or a connection attempt can panic: with ASCII keys every other key is
  handled.\<close>

definition enter_pressed :: "tui_tick \<Rightarrow> bool" where
  "enter_pressed k \<longleftrightarrow> (\<exists>key. tk_read k = Inr (KeyInput key Press) \<and> key_code key = Enter)"

lemma tui_round_crash:
  assumes "tui_inv c" "tick_ok k" "tui_round E k c = Some (Crashed, c')"
  shows "enter_pressed k"
proof (cases "poll_events k")
  case (Done ev)
  then obtain key where key: "pressed_key ev = Some key" and
    run: "tui_handle_key_event E (tk_time k) key c = Some (Panic, c')"
    using assms(3) by (auto simp: tui_round_def split: option.splits res.splits) (metis res.exhaust old.unit.exhaust)
  have "fst (ui_key key c) = Ok ()"
    using ui_key_inv [OF assms(1) polled_key_ok [OF assms(2) Done key]] by simp
  with run have "key_code key = Enter"
    by (auto simp: tui_handle_key_event_def split: if_splits screen.splits)
  moreover from key poll_events_Done(1) [OF Done] have "tk_read k = Inr (KeyInput key Press)"
    by (auto simp: pressed_key_Some)
  ultimately show ?thesis by (auto simp: enter_pressed_def)
qed (use assms poll_events_Done(2) in \<open>auto simp: tui_round_def\<close>)

text \<open>Drawing fails only as the terminal fails, and what is shown is inside it.\<close>

lemma tui_draw_inside:
  assumes "layout_ok S" "tick_ok k"
  shows "tui_draw S k a \<noteq> Crashed" "tui_draw S k a = Done f \<Longrightarrow> frame_inside f"
proof -
  have "tui_draw S k a \<noteq> Crashed \<and> (tui_draw S k a = Done f \<longrightarrow> frame_inside f)"
  proof (cases "tk_size k")
    case (Inr area)
    let ?f0 = "\<lparr>uf_area = area, uf_widgets = [], uf_cursor = None\<rparr>"
    obtain f' where f': "ui_render S (tk_drawn k) a ?f0 = Ok f'" "draws_inside area ?f0 f'"
      using screen_inside [OF assms(1), of ?f0 "tk_drawn k" a] assms(2) Inr by (auto simp: tick_ok_def)
    then show ?thesis
      using Inr by (cases "tk_flush k") (auto simp: tui_draw_def draws_inside_def frame_inside_def)
  qed (simp add: tui_draw_def)
  then show "tui_draw S k a \<noteq> Crashed" "tui_draw S k a = Done f \<Longrightarrow> frame_inside f" by auto
qed

lemma tui_loop_inv:
  assumes "tui_inv c" "list_all tick_ok ks" "connect_ok E" "layout_ok S" "list_all frame_inside fs"
    and "tui_loop S E ks c fs = Some (r, c', fs')"
  shows "app_inv (tc_app c') \<and> list_all frame_inside fs' \<and> (r = Ended Crashed \<longrightarrow> list_ex enter_pressed ks) \<and>
    (r = StillRunning \<longrightarrow> tui_inv c')"
  using assms
proof (induction ks arbitrary: c fs)
  case Nil
  then show ?case by (auto simp: tui_inv_def)
next
  case (Cons k ks)
  note drawn = tui_draw_inside [OF \<open>layout_ok S\<close>, of k "tc_app c"]
  show ?case
  proof (cases "tui_draw S k (tc_app c)")
    case (Done f)
    have f: "list_all frame_inside (fs @ [f])" using drawn Done Cons.prems by simp
    obtain r1 c1 where rd: "tui_round E k c = Some (r1, c1)"
      using Cons.prems(6) Done by (cases "tui_round E k c") auto
    have inv: "tui_inv c1" using tui_round_inv [OF Cons.prems(1) _ Cons.prems(3) rd] Cons.prems(2) by simp
    have crash: "r1 = Crashed \<Longrightarrow> enter_pressed k"
      using tui_round_crash [OF Cons.prems(1) _] rd Cons.prems(2) by auto
    show ?thesis
    proof (cases "r1 = Done () \<and> \<not> should_quit (tc_app c1)")
      case True
      then show ?thesis using Cons.IH [OF inv _ Cons.prems(3,4) f] Cons.prems(2,6) Done rd by auto
    next
      case False
      then show ?thesis using Cons.prems(6) Done rd inv f crash by (cases r1) (auto simp: tui_inv_def split: if_splits)
    qed
  qed (use Cons.prems drawn in \<open>auto simp: tui_inv_def\<close>)
qed

text \<open>The client as built: it dials, and talks over the secure channel.\<close>

definition secure_client_env ::
  "identity_primitives \<Rightarrow> crypto_primitives \<Rightarrow> prost \<Rightarrow> (string \<Rightarrow> io_error + wire) \<Rightarrow> (fenris_output \<Rightarrow> string) \<Rightarrow>
   (u64 \<Rightarrow> string option) \<Rightarrow> local_files \<Rightarrow> link client_env" where
  "secure_client_env I P Q dial dbg chrono L =
     \<lparr>ce_connect = connect I P dial, ce_debug = dbg, ce_chrono = chrono,
      ce_channel = secure_client_channel Q, ce_files = L\<rparr>"

lemma connect_connected: "connect I P dial m = (Ok u, m') \<Longrightarrow> is_connected m'"
  by (auto simp: connect_def is_connected_def split: option.splits sum.splits prod.splits res.splits)

lemma secure_client_connect_ok: "connect_ok (secure_client_env I P Q dial dbg chrono L)"
  using connect_connected by (fastforce simp: connect_ok_def secure_client_env_def split: prod.splits res.splits)

end
