(* ===== verification/Session.thy ===== *)
theory Session
  imports Connection Connection_Manager
begin

section \<open>A client and a server together\<close>

text \<open>
  The client's manager run against a connection of the server.  Between the two stands a
  queue: what the client sends is handled at once by \<open>conn_handle_command\<close>, the outputs wait
  in order until the client receives them, and both directions lose what the wire loses
  (\<open>command_on_wire\<close>, \<open>output_on_wire\<close>).  A queue may be bounded: it refuses commands and outputs
  outside given sets, as the frames of the connection refuse long messages.  That the encrypted
  connection refines such a queue is shown in \<open>Secure_Session\<close>.  The locale \<open>file_session\<close> proves, over any storage
  that meets its contract and any queue that carries the messages of a transfer, that a chunked
  write, an upload and a chunked read do what the user asked; \<open>memory_session\<close> is its instance
  for the memory storage.  The last section shows that a command the memory storage refuses leaves the
  connection as it was.
\<close>

type_synonym 's session = "(fenris_output list, 's) connection"

text \<open>The queue carries the outputs that satisfy \<open>rf\<close> and the commands that satisfy \<open>cf\<close>; what it
  does not carry is an error, and so is a command that the server does not finish.\<close>

definition bounded_queue :: "(fenris_output \<Rightarrow> bool) \<Rightarrow> fenris_output list server_channel" where
  "bounded_queue rf =
     \<lparr>sv_send = (\<lambda>out q. if rf out then (Ok (), q @ [output_on_wire out]) else (Err ConnectionClosed, q)),
      sv_recv = (\<lambda>q. (Err ConnectionClosed, q))\<rparr>"

definition bounded_send ::
  "(fenris_command \<Rightarrow> bool) \<Rightarrow> (fenris_output \<Rightarrow> bool) \<Rightarrow> 's storage_backend \<Rightarrow> fenris_command \<Rightarrow>
   ('s session, unit) action" where
  "bounded_send cf rf B cmd cn =
     (if \<not> cf cmd then (Err ConnectionClosed, cn)
      else
        (case conn_handle_command (bounded_queue rf) B (command_on_wire cmd) cn of
           Some (Ok _, cn') \<Rightarrow> (Ok (), cn')
         | _ \<Rightarrow> (Err ConnectionClosed, cn)))"

definition session_recv :: "('s session, fenris_output) action" where
  "session_recv cn =
     (case cn_channel cn of
        out # q \<Rightarrow> (Ok out, cn\<lparr>cn_channel := q\<rparr>)
      | [] \<Rightarrow> (Err (NetworkError (IoError UnexpectedEof ''early eof'')), cn))"

definition bounded_session ::
  "(fenris_command \<Rightarrow> bool) \<Rightarrow> (fenris_output \<Rightarrow> bool) \<Rightarrow> 's storage_backend \<Rightarrow> 's session client_channel" where
  "bounded_session cf rf B = \<lparr>cc_send = bounded_send cf rf B, cc_recv = session_recv\<rparr>"

abbreviation queue_channel :: "fenris_output list server_channel" where
  "queue_channel \<equiv> bounded_queue (\<lambda>_. True)"

abbreviation session_channel :: "'s storage_backend \<Rightarrow> 's session client_channel" where
  "session_channel \<equiv> bounded_session (\<lambda>_. True) (\<lambda>_. True)"

lemma bounded_queue_simps [simp]:
  "rf out \<Longrightarrow> sv_send (bounded_queue rf) out q = (Ok (), q @ [output_on_wire out])"
  "\<not> rf out \<Longrightarrow> sv_send (bounded_queue rf) out q = (Err ConnectionClosed, q)"
  by (simp_all add: bounded_queue_def)

lemma bounded_session_simps [simp]:
  "cc_send (bounded_session cf rf B) = bounded_send cf rf B" "cc_recv (bounded_session cf rf B) = session_recv"
  by (simp_all add: bounded_session_def)

lemma bounded_send_Ok:
  "bounded_send cf rf B cmd cn = (Ok u, cn1) \<longleftrightarrow>
     cf cmd \<and> conn_handle_command (bounded_queue rf) B (command_on_wire cmd) cn = Some (Ok (), cn1)"
  by (auto simp: bounded_send_def split: option.splits res.splits)

interpretation queue_replies: reply_channel "bounded_queue rf" "\<lambda>_. True" rf output_on_wire "\<lambda>q. q" for rf
  by unfold_locales simp

definition over :: "'c connection_manager \<Rightarrow> 'c \<Rightarrow> 'c connection_manager" where
  "over m c = m\<lparr>mg_channel := Some c\<rparr>"

lemma over_over [simp]: "over (over m c) d = over m d"
  by (simp add: over_def)

lemma exchange_reply:
  assumes "conn_handle_command (bounded_queue rf) B (command_on_wire cmd) cn = Some (Ok (), cn1)" "cn_channel cn1 = [out]" "cf cmd"
  shows "on_channel (exchange (bounded_session cf rf B) cmd) (over m cn) = (Ok out, over m (cn1\<lparr>cn_channel := []\<rparr>))"
  using assms
  by (simp add: on_channel_def exchange_def bounded_send_def session_recv_def over_def state_bind_def)

lemma queue_restored:
  "cn_channel cn = [] \<Longrightarrow>
   cn\<lparr>cn_storage := s, cn_active_write := a, cn_channel := []\<rparr> = cn\<lparr>cn_storage := s, cn_active_write := a\<rparr>"
  by (cases cn) simp

lemma active_restored: "cn_active_write cn = a \<Longrightarrow> cn\<lparr>cn_storage := s, cn_active_write := a\<rparr> = cn\<lparr>cn_storage := s\<rparr>"
  by (cases cn) simp

lemma ascii_show_radix: "2 \<le> r \<Longrightarrow> r \<le> 10 \<Longrightarrow> ascii (show_radix r n)"
proof (induction r n rule: show_radix.induct)
  case (1 r n)
  have digit: "code_of (digit_char k) < 128" if "k < 10" for k
    using that by (simp add: digit_char_def code_of_def)
  have "n mod r < 10" if "r \<le> n" using "1.prems" mod_less_divisor [of r n] by linarith
  then show ?case
    using 1 digit by (subst show_radix.simps) (auto simp: ascii_def)
qed

definition transfer_complete :: "u64 \<Rightarrow> fenris_output" where
  "transfer_complete n = Success (''Transfer complete: '' @ show_u64 n @ '' bytes'')"

lemma transfer_complete_ascii: "ascii (''Transfer complete: '' @ show_u64 n @ '' bytes'')"
  using ascii_show_radix [of 10 "unat n"]
  by (auto simp: ascii_def show_u64_def show_nat_def code_of_def)

lemma transfer_complete_wire [simp]: "output_on_wire (transfer_complete n) = transfer_complete n"
  unfolding transfer_complete_def
  by (simp only: output_on_wire.simps utf8_lossy_valid ascii_valid transfer_complete_ascii)

lemma length_show_radix: "n < r ^ Suc k \<Longrightarrow> 2 \<le> r \<Longrightarrow> length (show_radix r n) \<le> Suc k"
proof (induction k arbitrary: n)
  case 0
  then show ?case by (simp add: show_radix.simps)
next
  case (Suc k)
  then have "n div r < r ^ Suc k" by (intro less_mult_imp_div_less) (simp add: mult.commute)
  with Suc show ?case by (subst show_radix.simps) auto
qed

lemma transfer_complete_length: "length (''Transfer complete: '' @ show_u64 n @ '' bytes'') \<le> DEFAULT_TRANSFER_CHUNK_SIZE"
proof -
  have "unat n < 10 ^ Suc 19" using unat_u64_less [of n] by (rule less_trans) simp
  then have "length (show_u64 n) \<le> 20"
    using length_show_radix [of "unat n" 10 19] by (simp add: show_u64_def show_nat_def)
  then show ?thesis by (simp add: DEFAULT_TRANSFER_CHUNK_SIZE_def)
qed

lemma transfer_complete_fits: "prost_compact Q \<Longrightarrow> reply_fits Q (transfer_complete n)"
  unfolding transfer_complete_def
  by (intro success_reply_fits ascii_valid transfer_complete_ascii transfer_complete_length)

lemma take_again: "take n (take n xs @ ys) = take n (xs @ ys)"
  by (cases "length xs \<le> n") simp_all

lemma read_loop_queue:
  "chunk_seq off n cs \<Longrightarrow> cn_channel cn = map ObjectContentChunk cs \<Longrightarrow> length preview \<le> READ_PREVIEW_LIMIT \<Longrightarrow>
   read_loop dbg (bounded_session cf rf B) preview cn =
     (let seen = take READ_PREVIEW_LIMIT (preview @ concat (map tc_data cs)) in
      Some (Ok (ObjectContent seen n (len_u64 seen \<noteq> n)), cn\<lparr>cn_channel := []\<rparr>))"
proof (induction off n cs arbitrary: cn preview rule: chunk_seq.induct)
  case (1 off n)
  then show ?case by simp
next
  case (2 off n c cs)
  let ?seen = "if length preview < READ_PREVIEW_LIMIT
               then preview @ take (READ_PREVIEW_LIMIT - length preview) (tc_data c) else preview"
  have seen: "?seen = take READ_PREVIEW_LIMIT (preview @ tc_data c)"
    using "2.prems"(3) by auto
  have recv: "cc_recv (bounded_session cf rf B) cn = (Ok (ObjectContentChunk c), cn\<lparr>cn_channel := map ObjectContentChunk cs\<rparr>)"
    using "2.prems"(2) by (simp add: session_recv_def)
  show ?case
  proof (cases "cs = []")
    case True
    then show ?thesis
      using "2.prems"(1) recv seen by (subst read_loop.simps) (simp add: Let_def)
  next
    case False
    then have IH: "read_loop dbg (bounded_session cf rf B) ?seen (cn\<lparr>cn_channel := map ObjectContentChunk cs\<rparr>) =
        (let s = take READ_PREVIEW_LIMIT (?seen @ concat (map tc_data cs)) in
         Some (Ok (ObjectContent s n (len_u64 s \<noteq> n)), cn\<lparr>cn_channel := []\<rparr>))"
      using "2.IH" [OF False, of "cn\<lparr>cn_channel := map ObjectContentChunk cs\<rparr>" ?seen] "2.prems" seen
      by (simp add: Let_def)
    have "take READ_PREVIEW_LIMIT (?seen @ concat (map tc_data cs)) =
        take READ_PREVIEW_LIMIT (preview @ concat (map tc_data (c # cs)))"
      using take_again [of READ_PREVIEW_LIMIT "preview @ tc_data c"] unfolding seen by simp
    with IH False "2.prems"(1) recv show ?thesis
      by (subst read_loop.simps) (simp add: Let_def)
  qed
qed

lemma preview_flag: "vec_ok d \<Longrightarrow> len_u64 (take READ_PREVIEW_LIMIT d) \<noteq> len_u64 d \<longleftrightarrow> READ_PREVIEW_LIMIT < length d"
  using vec_ok_take [of d READ_PREVIEW_LIMIT] by (auto simp: word_unat_eq_iff)

subsection \<open>Transfers\<close>

text \<open>A local file with content \<open>d\<close>: a read at an offset inside it returns at least one byte and
  at most as many as were asked for.\<close>

definition local_file :: "local_files \<Rightarrow> path \<Rightarrow> bytes \<Rightarrow> bool" where
  "local_file L src d \<longleftrightarrow> (\<forall>off n. unat off < length d \<longrightarrow> 0 < n \<longrightarrow>
     (\<exists>k. 0 < k \<and> k \<le> n \<and> lf_read L src off n = Inr (take k (drop (unat off) d))))"

lemma over_connected [simp]: "is_connected (over m c)"
  by (simp add: over_def is_connected_def)

lemma word_ok_command: "w \<in> {''write'', ''read''} \<Longrightarrow> word_ok w"
proof -
  assume w: "w \<in> {''write'', ''read''}"
  then have "ascii w" by (auto simp: ascii_def code_of_def)
  with w show ?thesis by (auto simp: word_ok_def ascii_chars ascii_valid is_whitespace_def code_of_def)
qed

text \<open>A transfer needs the queue to carry its acknowledgements and chunks of the agreed size.\<close>

locale transfer_carrier =
  fixes rf :: "fenris_output \<Rightarrow> bool" and cf :: "fenris_command \<Rightarrow> bool"
  assumes ack_carried: "rf (TransferReady DEFAULT_TRANSFER_CHUNK_SIZE)" "\<And>n. rf (TransferProgress n)"
    and end_carried: "\<And>n. rf (transfer_complete n)"
    and busy_carried: "rf (ErrorOutput ''Transfer already active'')"
    and chunk_carried: "\<And>ch. length (tc_data ch) \<le> DEFAULT_TRANSFER_CHUNK_SIZE \<Longrightarrow> rf (ObjectContentChunk ch)"
      "\<And>ch. length (tc_data ch) \<le> DEFAULT_TRANSFER_CHUNK_SIZE \<Longrightarrow> cf (WriteObjectChunk ch)"

locale file_session =
  served_connection B inv content same "bounded_queue rf" "\<lambda>_. True" rf output_on_wire "\<lambda>q. q" + transfer_carrier rf cf
  for B :: "'s storage_backend" and inv content same rf cf
begin

lemma begin_transfer_ok:
  assumes "cn_channel cn = []" "cn_active_write cn = None" "utf8_valid p"
    and "begin_object_write B p mode n (cn_current_dir cn) (cn_storage cn) = (Ok t, s')" "cf (BeginObjectWrite p mode n)"
  shows "begin_transfer dbg (bounded_session cf rf B) p mode n (over m cn) =
    (Ok DEFAULT_TRANSFER_CHUNK_SIZE, over m (cn\<lparr>cn_storage := s', cn_active_write := Some t\<rparr>))"
proof -
  have "conn_handle_command (bounded_queue rf) B (command_on_wire (BeginObjectWrite p mode n)) cn =
     Some (Ok (), cn\<lparr>cn_storage := s', cn_active_write := Some t, cn_channel := [TransferReady DEFAULT_TRANSFER_CHUNK_SIZE]\<rparr>)"
    using assms ack_carried by (simp add: utf8_lossy_valid conn_begin_object_write_def conn_send_def
        U32_MAX_def DEFAULT_TRANSFER_CHUNK_SIZE_def)
  from exchange_reply [OF this, of "TransferReady DEFAULT_TRANSFER_CHUNK_SIZE" cf m] assms(1,5) show ?thesis
    by (simp add: begin_transfer_def transfer_answer_def clamp_chunk_def DEFAULT_TRANSFER_CHUNK_SIZE_def
        queue_restored)
qed

lemma chunk_ok:
  assumes "inv (cn_storage cn)" "cn_channel cn = []" "cn_active_write cn = Some t"
    and "content (cn_storage cn) (aw_path t) = Some c" "length d \<le> DEFAULT_TRANSFER_CHUNK_SIZE"
    and ch: "ch = \<lparr>tc_offset = aw_expected_offset t, tc_data = d, tc_is_last = l, tc_total_size = aw_total_size t\<rparr>"
    and l: "l \<longleftrightarrow> aw_expected_offset t + len_u64 d = aw_total_size t"
    and out: "out = (if l then transfer_complete (aw_total_size t)
           else TransferProgress (aw_expected_offset (advance t ch)))"
  obtains s' where
    "send_transfer_chunk (bounded_session cf rf B) (aw_expected_offset t) d l (aw_total_size t) (over m cn) =
      (Ok (output_on_wire out),
       over m (cn\<lparr>cn_storage := s', cn_active_write := (if l then None else Some (advance t ch))\<rparr>))"
    "inv s'" "content s' (aw_path t) = Some (c @ d)"
    "\<And>q. \<not> same (aw_path t) q \<Longrightarrow> content s' q = content (cn_storage cn) q"
proof -
  let ?keep = "if l then None else Some (advance t ch)"
  have fits: "chunk_fits t ch DEFAULT_TRANSFER_CHUNK_SIZE" and outcome: "chunk_outcome t ch = Ok out"
    and keep: "?keep = (if is_success out then None else Some (advance t ch))"
    using assms by (auto simp: chunk_fits_def chunk_outcome_def advance_def is_success_def transfer_complete_def)
  obtain s' c' where s': "conn_write_object_chunk (bounded_queue rf) B ch cn =
      (Ok (), cn\<lparr>cn_storage := s', cn_active_write := ?keep, cn_channel := c'\<rparr>)"
    "inv s'" "content s' (aw_path t) = Some (c @ tc_data ch)" "c' = cn_channel cn @ [output_on_wire out]"
    "\<And>q. \<not> same (aw_path t) q \<Longrightarrow> content s' q = content (cn_storage cn) q"
    using write_one [OF assms(1,3,4) fits _ outcome _ keep] ack_carried end_carried out by (auto split: if_splits)
  have "conn_handle_command (bounded_queue rf) B (command_on_wire (WriteObjectChunk ch)) cn =
      Some (Ok (), cn\<lparr>cn_storage := s', cn_active_write := ?keep, cn_channel := [output_on_wire out]\<rparr>)"
    using s'(1,4) assms(2) by simp
  from exchange_reply [OF this, of "output_on_wire out" cf m] have
    "send_transfer_chunk (bounded_session cf rf B) (aw_expected_offset t) d l (aw_total_size t) (over m cn) =
      (Ok (output_on_wire out), over m (cn\<lparr>cn_storage := s', cn_active_write := ?keep\<rparr>))"
    using ch assms(2,5) chunk_carried by (simp add: send_transfer_chunk_def queue_restored)
  with s'(2,3,5) ch that show ?thesis by simp
qed

lemma send_chunk_list_ok:
  assumes "inv (cn_storage cn)" "cn_channel cn = []" "cn_active_write cn = Some t"
    and "content (cn_storage cn) (aw_path t) = Some c"
    and "cs \<noteq> []" "\<And>d. d \<in> set cs \<Longrightarrow> d \<noteq> [] \<and> length d \<le> DEFAULT_TRANSFER_CHUNK_SIZE"
    and "unat (aw_expected_offset t) + length (concat cs) = unat (aw_total_size t)"
  shows "\<exists>s'. send_chunk_list dbg (bounded_session cf rf B) (aw_total_size t) (aw_expected_offset t) cs (over m cn) =
      (Ok (transfer_complete (aw_total_size t)),
       over m (cn\<lparr>cn_storage := s', cn_active_write := None\<rparr>)) \<and>
    inv s' \<and> content s' (aw_path t) = Some (c @ concat cs) \<and>
    (\<forall>q. \<not> same (aw_path t) q \<longrightarrow> content s' q = content (cn_storage cn) q)"
  using assms
proof (induction cs arbitrary: cn t c)
  case Nil
  then show ?case by simp
next
  case (Cons d cs)
  let ?off = "aw_expected_offset t" and ?n = "aw_total_size t"
  have len: "length d < 2 ^ 64" "unat ?off + length d < 2 ^ 64"
    using Cons.prems(7) unat_u64_less [of ?n] by (simp_all, linarith+)
  then have unat: "unat (?off + len_u64 d) = unat ?off + length d"
    by (simp add: unat_word_ariths unat_len_u64)
  then have last: "?off + len_u64 d = ?n \<longleftrightarrow> cs = []"
    using Cons.prems(6) [of "hd cs"] Cons.prems(7) by (cases cs) (auto simp: word_unat_eq_iff simp flip: length_greater_0_conv)
  let ?ch = "\<lparr>tc_offset = ?off, tc_data = d, tc_is_last = (cs = []), tc_total_size = ?n\<rparr>"
  obtain s1 where s1: "send_transfer_chunk (bounded_session cf rf B) ?off d (cs = []) ?n (over m cn) =
      (Ok (output_on_wire (if cs = [] then transfer_complete ?n
             else TransferProgress (aw_expected_offset (advance t ?ch)))),
       over m (cn\<lparr>cn_storage := s1, cn_active_write := (if cs = [] then None else Some (advance t ?ch))\<rparr>))"
    "inv s1" "content s1 (aw_path t) = Some (c @ d)"
    "\<And>q. \<not> same (aw_path t) q \<Longrightarrow> content s1 q = content (cn_storage cn) q"
    by (rule chunk_ok [OF _ _ _ _ _ refl _ refl, of cn t c d "cs = []" m]) (use Cons.prems last in auto)
  show ?case
  proof (cases "cs = []")
    case True
    with s1 last show ?thesis by (auto simp: Let_def)
  next
    case False
    let ?t = "advance t ?ch" and ?cn = "cn\<lparr>cn_storage := s1, cn_active_write := Some (advance t ?ch)\<rparr>"
    have t: "aw_path ?t = aw_path t" "aw_total_size ?t = ?n" "aw_expected_offset ?t = ?off + len_u64 d"
      by (simp_all add: advance_def)
    have "\<exists>s'. send_chunk_list dbg (bounded_session cf rf B) (aw_total_size ?t) (aw_expected_offset ?t) cs (over m ?cn) =
        (Ok (transfer_complete (aw_total_size ?t)),
         over m (?cn\<lparr>cn_storage := s', cn_active_write := None\<rparr>)) \<and>
      inv s' \<and> content s' (aw_path ?t) = Some ((c @ d) @ concat cs) \<and>
      (\<forall>q. \<not> same (aw_path ?t) q \<longrightarrow> content s' q = content (cn_storage ?cn) q)"
      using Cons.prems False s1 t unat by (intro Cons.IH) auto
    then show ?thesis
      using s1 False last t by (auto simp: Let_def expect_transfer_progress_def)
  qed
qed

lemma inline_write_ok:
  assumes "inv (cn_storage cn)" "cn_channel cn = []" "cn_active_write cn = None" "utf8_valid p" "vec_ok d"
    and "begin_object_write B p mode (len_u64 d) (cn_current_dir cn) (cn_storage cn) = (Ok t, s0)" "cf (BeginObjectWrite p mode (len_u64 d))"
  shows "\<exists>s'. send_inline_write dbg (bounded_session cf rf B) p mode d (over m cn) =
      (Ok (transfer_complete (len_u64 d)), over m (cn\<lparr>cn_storage := s'\<rparr>)) \<and>
    inv s' \<and> content s' (resolve_path p (cn_current_dir cn)) =
      Some ((if mode = Append
             then case content (cn_storage cn) (resolve_path p (cn_current_dir cn)) of None \<Rightarrow> [] | Some c \<Rightarrow> c
             else []) @ d)"
proof -
  let ?q = "resolve_path p (cn_current_dir cn)"
  let ?old = "if mode = Append then case content (cn_storage cn) ?q of None \<Rightarrow> [] | Some c \<Rightarrow> c else []"
  have t: "t = \<lparr>aw_path = ?q, aw_expected_offset = 0, aw_total_size = len_u64 d\<rparr>" "inv s0"
    "content s0 (aw_path t) = Some ?old"
    using begin_write_content [OF assms(1,6)] by auto
  let ?cn = "cn\<lparr>cn_storage := s0, cn_active_write := Some t\<rparr>"
  have done_cn: "?cn\<lparr>cn_storage := s', cn_active_write := None\<rparr> = cn\<lparr>cn_storage := s'\<rparr>" for s'
    using assms(3) by (cases cn) simp
  have started: "begin_transfer dbg (bounded_session cf rf B) p mode (len_u64 d) (over m cn) =
      (Ok DEFAULT_TRANSFER_CHUNK_SIZE, over m ?cn)"
    using assms by (intro begin_transfer_ok)
  show ?thesis
  proof (cases "d = []")
    case True
    obtain s1 where "send_transfer_chunk (bounded_session cf rf B) 0 [] True 0 (over m ?cn) =
        (Ok (output_on_wire (transfer_complete 0)),
         over m (?cn\<lparr>cn_storage := s1, cn_active_write := None\<rparr>))" "inv s1"
      "content s1 ?q = Some ?old"
      by (rule chunk_ok [OF _ _ _ _ _ refl _ refl, of ?cn t ?old "[]" True m]) (use t True assms(2) in auto)
    with started True done_cn show ?thesis
      by (auto simp: send_inline_write_def send_bytes_as_chunks_def)
  next
    case False
    have pos: "0 < DEFAULT_TRANSFER_CHUNK_SIZE" by (simp add: DEFAULT_TRANSFER_CHUNK_SIZE_def)
    have cc: "concat (chunks DEFAULT_TRANSFER_CHUNK_SIZE d) = d" by (rule concat_chunks [OF pos])
    then have "chunks DEFAULT_TRANSFER_CHUNK_SIZE d \<noteq> []" using False by auto
    then have "\<exists>s'. send_chunk_list dbg (bounded_session cf rf B) (aw_total_size t) (aw_expected_offset t)
        (chunks DEFAULT_TRANSFER_CHUNK_SIZE d) (over m ?cn) =
      (Ok (transfer_complete (aw_total_size t)),
       over m (?cn\<lparr>cn_storage := s', cn_active_write := None\<rparr>)) \<and>
      inv s' \<and> content s' (aw_path t) = Some (?old @ concat (chunks DEFAULT_TRANSFER_CHUNK_SIZE d)) \<and>
      (\<forall>q. \<not> same (aw_path t) q \<longrightarrow> content s' q = content (cn_storage ?cn) q)"
      using t assms(2,5) cc chunks_length by (intro send_chunk_list_ok) auto
    with started False t(1) cc done_cn show ?thesis
      by (auto simp: send_inline_write_def send_bytes_as_chunks_def)
  qed
qed

lemma chunked_read_ok:
  assumes "inv (cn_storage cn)" "cn_channel cn = []" "utf8_valid p" "vec_ok d"
    and "content (cn_storage cn) (resolve_path p (cn_current_dir cn)) = Some d" "cf (ReadObject p)"
  shows "receive_chunked_read dbg (bounded_session cf rf B) p (over m cn) =
    Some (Ok (ObjectContent (take READ_PREVIEW_LIMIT d) (len_u64 d) (READ_PREVIEW_LIMIT < length d)), over m cn)"
proof -
  obtain q cs where stream: "send_chunks_from (bounded_queue rf) B p 0 cn = Some (Ok (), cn\<lparr>cn_channel := q\<rparr>)"
    "q = map ObjectContentChunk cs" "chunk_seq 0 (len_u64 d) cs" "concat (map tc_data cs) = d"
    using stream_from [OF assms(1,5,4), of 0] assms(2) chunk_carried(1) by (auto simp: comp_def)
  have "conn_handle_command (bounded_queue rf) B (command_on_wire (ReadObject p)) cn = Some (Ok (), cn\<lparr>cn_channel := q\<rparr>)"
    using stream(1) assms(3) by (simp add: utf8_lossy_valid send_object_content_chunks_def)
  moreover have "read_loop dbg (bounded_session cf rf B) [] (cn\<lparr>cn_channel := q\<rparr>) =
      Some (Ok (ObjectContent (take READ_PREVIEW_LIMIT d) (len_u64 d) (READ_PREVIEW_LIMIT < length d)), cn\<lparr>cn_channel := []\<rparr>)"
    using read_loop_queue [OF stream(3), where preview = "[]" and cn = "cn\<lparr>cn_channel := q\<rparr>"] stream assms(4)
    by (simp add: preview_flag)
  moreover have "cn\<lparr>cn_channel := []\<rparr> = cn" using assms(2) by (cases cn) simp
  ultimately show ?thesis
    using assms(6) by (simp add: receive_chunked_read_def over_def bounded_send_def)
qed

lemma upload_loop_ok:
  assumes "local_file L src d" "vec_ok d"
    and "inv (cn_storage cn)" "cn_channel cn = []" "cn_active_write cn = Some t"
    and "content (cn_storage cn) (aw_path t) = Some c" "aw_total_size t = len_u64 d"
    and "unat (aw_expected_offset t) < length d"
  shows "\<exists>s'. upload_loop dbg (bounded_session cf rf B) L src DEFAULT_TRANSFER_CHUNK_SIZE (len_u64 d) (aw_expected_offset t) (over m cn) =
      Some (Ok (transfer_complete (len_u64 d)), over m (cn\<lparr>cn_storage := s', cn_active_write := None\<rparr>)) \<and>
    inv s' \<and> content s' (aw_path t) = Some (c @ drop (unat (aw_expected_offset t)) d)"
  using assms(3-8)
proof (induction "length d - unat (aw_expected_offset t)" arbitrary: cn t c rule: less_induct)
  case less
  let ?off = "aw_expected_offset t"
  have "0 < DEFAULT_TRANSFER_CHUNK_SIZE" by (simp add: DEFAULT_TRANSFER_CHUNK_SIZE_def)
  then obtain k where k: "0 < k" "k \<le> DEFAULT_TRANSFER_CHUNK_SIZE"
    "lf_read L src ?off DEFAULT_TRANSFER_CHUNK_SIZE = Inr (take k (drop (unat ?off) d))"
    using assms(1) less.prems(6) unfolding local_file_def by blast
  define x where "x = take k (drop (unat ?off) d)"
  have x: "x \<noteq> []" "length x \<le> DEFAULT_TRANSFER_CHUNK_SIZE" "unat ?off + length x \<le> length d"
    using k less.prems(6) by (auto simp: x_def min_def)
  have rd: "lf_read L src ?off DEFAULT_TRANSFER_CHUNK_SIZE = Inr x"
    using k(3) by (simp add: x_def)
  have "take (length x) (drop (unat ?off) d) = x" by (simp add: x_def min_def)
  then have split: "drop (unat ?off) d = x @ drop (unat ?off + length x) d"
    by (metis append_take_drop_id drop_drop_add)
  have unat: "unat (?off + len_u64 x) = unat ?off + length x"
    using x(3) assms(2) by (simp add: unat_word_ariths unat_len_u64 vec_ok_def)
  then have last: "?off + len_u64 x = len_u64 d \<longleftrightarrow> unat ?off + length x = length d"
    using assms(2) by (simp add: word_unat_eq_iff)
  define l where "l \<longleftrightarrow> ?off + len_u64 x = len_u64 d"
  let ?ch = "\<lparr>tc_offset = ?off, tc_data = x, tc_is_last = l, tc_total_size = aw_total_size t\<rparr>"
  obtain s1 where s1: "send_transfer_chunk (bounded_session cf rf B) ?off x l (aw_total_size t) (over m cn) =
      (Ok (output_on_wire (if l then transfer_complete (aw_total_size t)
             else TransferProgress (aw_expected_offset (advance t ?ch)))),
       over m (cn\<lparr>cn_storage := s1, cn_active_write := (if l then None else Some (advance t ?ch))\<rparr>))"
    "inv s1" "content s1 (aw_path t) = Some (c @ x)"
    by (rule chunk_ok [OF _ _ _ _ _ refl _ refl, of cn t c x l m]) (use less.prems x l_def in auto)
  show ?case
  proof (cases l)
    case True
    then have "c @ x = c @ drop (unat ?off) d" using last l_def x(3) split by simp
    with True rd x(1) s1 less.prems(5) show ?thesis
      by (subst upload_loop.simps) (auto simp: l_def)
  next
    case False
    let ?t = "advance t ?ch" and ?cn = "cn\<lparr>cn_storage := s1, cn_active_write := Some (advance t ?ch)\<rparr>"
    have t: "aw_path ?t = aw_path t" "aw_total_size ?t = len_u64 d" "aw_expected_offset ?t = ?off + len_u64 x"
      using less.prems(5) by (simp_all add: advance_def)
    have "unat ?off + length x < length d" using False last l_def x(3) by simp
    moreover from this have "length d - (unat ?off + length x) < length d - unat ?off"
      using x(1) by (simp add: diff_less_mono2)
    ultimately have "\<exists>s'. upload_loop dbg (bounded_session cf rf B) L src DEFAULT_TRANSFER_CHUNK_SIZE (len_u64 d) (aw_expected_offset ?t) (over m ?cn) =
        Some (Ok (transfer_complete (len_u64 d)), over m (?cn\<lparr>cn_storage := s', cn_active_write := None\<rparr>)) \<and>
      inv s' \<and> content s' (aw_path ?t) = Some ((c @ x) @ drop (unat (aw_expected_offset ?t)) d)"
      using less.prems(1,2) s1 t unat x(1) by (intro less.hyps) auto
    then show ?thesis
      using False rd x(1) split s1 less.prems(5) t unat
      by (subst upload_loop.simps) (auto simp: l_def expect_transfer_progress_def)
  qed
qed

lemma upload_ok:
  assumes "local_file L src d" "vec_ok d" "lf_open L src = Inr ()"
    and "inv (cn_storage cn)" "cn_channel cn = []" "cn_active_write cn = None" "utf8_valid dst"
    and "begin_object_write B dst Upload (len_u64 d) (cn_current_dir cn) (cn_storage cn) = (Ok t, s0)"
    and "cf (BeginObjectWrite dst Upload (len_u64 d))"
  shows "\<exists>s'. send_upload dbg (bounded_session cf rf B) L src dst (len_u64 d) (over m cn) =
      Some (Ok (transfer_complete (len_u64 d)), over m (cn\<lparr>cn_storage := s'\<rparr>)) \<and>
    inv s' \<and> content s' (resolve_path dst (cn_current_dir cn)) = Some d"
proof -
  let ?q = "resolve_path dst (cn_current_dir cn)"
  have t: "t = \<lparr>aw_path = ?q, aw_expected_offset = 0, aw_total_size = len_u64 d\<rparr>" "inv s0"
    "content s0 (aw_path t) = Some []"
    using begin_write_content [OF assms(4,8)] by auto
  let ?cn = "cn\<lparr>cn_storage := s0, cn_active_write := Some t\<rparr>"
  have done_cn: "?cn\<lparr>cn_storage := s', cn_active_write := None\<rparr> = cn\<lparr>cn_storage := s'\<rparr>" for s'
    using assms(6) by (cases cn) simp
  have started: "begin_transfer dbg (bounded_session cf rf B) dst Upload (len_u64 d) (over m cn) =
      (Ok DEFAULT_TRANSFER_CHUNK_SIZE, over m ?cn)"
    using assms by (intro begin_transfer_ok)
  show ?thesis
  proof (cases "d = []")
    case True
    obtain s1 where "send_transfer_chunk (bounded_session cf rf B) 0 [] True 0 (over m ?cn) =
        (Ok (output_on_wire (transfer_complete 0)), over m (?cn\<lparr>cn_storage := s1, cn_active_write := None\<rparr>))" "inv s1"
      "content s1 ?q = Some []"
      by (rule chunk_ok [OF _ _ _ _ _ refl _ refl, of ?cn t "[]" "[]" True m]) (use t True assms(5) in auto)
    with started True done_cn assms(3) show ?thesis by (auto simp: send_upload_def)
  next
    case False
    then have "len_u64 d \<noteq> 0" using assms(2) by (auto simp: word_unat_eq_iff)
    moreover have "\<exists>s'. upload_loop dbg (bounded_session cf rf B) L src DEFAULT_TRANSFER_CHUNK_SIZE (len_u64 d)
        (aw_expected_offset t) (over m ?cn) =
      Some (Ok (transfer_complete (len_u64 d)), over m (?cn\<lparr>cn_storage := s', cn_active_write := None\<rparr>)) \<and>
      inv s' \<and> content s' (aw_path t) = Some ([] @ drop (unat (aw_expected_offset t)) d)"
      using t assms(1,2,5) False by (intro upload_loop_ok) auto
    ultimately show ?thesis
      using started assms(3) done_cn t(1) by (auto simp: send_upload_def)
  qed
qed

lemma upload_open_failure:
  assumes "lf_open L src = Inl e" "inv (cn_storage cn)" "cn_channel cn = []" "cn_active_write cn = None" "utf8_valid dst"
    and "begin_object_write B dst Upload n (cn_current_dir cn) (cn_storage cn) = (Ok t, s0)"
    and "cf (BeginObjectWrite dst Upload n)"
  shows "\<exists>cn'. send_upload dbg (bounded_session cf rf B) L src dst n (over m cn) =
      Some (Err (FileOperationError (''Failed to open file '' @ to_string_lossy src @ '': '' @ e)), over m cn') \<and>
    content (cn_storage cn') (resolve_path dst (cn_current_dir cn)) = Some [] \<and>
    (\<forall>p mode k. cf (BeginObjectWrite p mode k) \<longrightarrow> begin_transfer dbg (bounded_session cf rf B) p mode k (over m cn') =
       (Err (InvalidRequest ''Transfer already active''), over m cn'))"
proof -
  let ?cn = "cn\<lparr>cn_storage := s0, cn_active_write := Some t\<rparr>"
  have "send_upload dbg (bounded_session cf rf B) L src dst n (over m cn) =
      Some (Err (FileOperationError (''Failed to open file '' @ to_string_lossy src @ '': '' @ e)), over m ?cn)"
    using begin_transfer_ok [OF assms(3-7)] assms(1) by (simp add: send_upload_def)
  moreover have "begin_transfer dbg (bounded_session cf rf B) p mode k (over m ?cn) =
      (Err (InvalidRequest ''Transfer already active''), over m ?cn)" if "cf (BeginObjectWrite p mode k)" for p mode k
  proof -
    have "conn_handle_command (bounded_queue rf) B (command_on_wire (BeginObjectWrite p mode k)) ?cn =
        Some (Ok (), ?cn\<lparr>cn_channel := [ErrorOutput ''Transfer already active'']\<rparr>)"
      using assms(3) busy_carried by (simp add: conn_begin_object_write_def conn_send_def)
    from exchange_reply [OF this, of _ cf] assms(3) that show ?thesis
      by (simp add: begin_transfer_def transfer_answer_def queue_restored)
  qed
  moreover have "content s0 (resolve_path dst (cn_current_dir cn)) = Some []"
    using begin_write_content [OF assms(2,6)] by auto
  ultimately show ?thesis by (intro exI [of _ ?cn]) simp
qed

lemma write_line_ok:
  assumes "inv (cn_storage cn)" "cn_channel cn = []" "cn_active_write cn = None"
    and "word_ok p" "ws \<noteq> []" "\<And>w. w \<in> set ws \<Longrightarrow> word_ok w" "vec_ok (bytes_of (join_words ws))"
    and "begin_object_write B p Write (len_u64 (bytes_of (join_words ws))) (cn_current_dir cn) (cn_storage cn) = (Ok t, s0)"
    and "cf (BeginObjectWrite p Write (len_u64 (bytes_of (join_words ws))))"
  shows "\<exists>s' r. send_command dbg chrono (bounded_session cf rf B) L (join_words (''write'' # p # ws)) (over m cn) =
      Some (Ok r, over m (cn\<lparr>cn_storage := s'\<rparr>)) \<and> fr_success r \<and> inv s' \<and>
    content s' (resolve_path p (cn_current_dir cn)) = Some (bytes_of (join_words ws))"
proof -
  obtain v vs where ws: "ws = v # vs" using assms(5) by (cases ws) auto
  have plan: "build_request (lf_stat L) (join_words (''write'' # p # ws)) =
      Ok (ChunkedInlineWrite p Write (bytes_of (join_words ws)))"
    using assms(4,6) word_ok_command [of "''write''"] lower_commands [of "''write''"] ws
    by (subst build_request_words) (auto simp: dispatch_simps build_write_object_def)
  have "utf8_valid p" using assms(4) by (simp add: word_ok_def)
  then obtain s' where "send_inline_write dbg (bounded_session cf rf B) p Write (bytes_of (join_words ws)) (over m cn) =
      (Ok (transfer_complete (len_u64 (bytes_of (join_words ws)))), over m (cn\<lparr>cn_storage := s'\<rparr>))" "inv s'"
    "content s' (resolve_path p (cn_current_dir cn)) = Some (bytes_of (join_words ws))"
    using inline_write_ok [OF assms(1-3) _ assms(7-9)] by auto
  with plan show ?thesis
    by (auto simp: send_command_def over_connected transfer_complete_def format_success_def plain_response_def)
qed

lemma read_line_ok:
  assumes "inv (cn_storage cn)" "cn_channel cn = []" "word_ok p" "vec_ok d"
    and "content (cn_storage cn) (resolve_path p (cn_current_dir cn)) = Some d" "cf (ReadObject p)"
  shows "send_command dbg chrono (bounded_session cf rf B) L (join_words [''read'', p]) (over m cn) =
    Some (Ok (format_object_content (take READ_PREVIEW_LIMIT d) (len_u64 d) (READ_PREVIEW_LIMIT < length d)), over m cn)"
proof -
  have "build_request (lf_stat L) (join_words [''read'', p]) = Ok (ChunkedRead p)"
    using assms(3) word_ok_command [of "''read''"] lower_commands [of "''read''"]
    by (subst build_request_words) (auto simp: dispatch_simps build_read_object_def)
  moreover have "utf8_valid p" using assms(3) by (simp add: word_ok_def)
  ultimately show ?thesis
    using chunked_read_ok [OF assms(1,2) _ assms(4-6)] by (simp add: send_command_def over_connected)
qed

end

interpretation free_carrier: transfer_carrier "\<lambda>_. True" "\<lambda>_. True"
  by unfold_locales simp_all

interpretation memory_session: file_session memory_backend ms_inv memory_content same_place "\<lambda>_. True" "\<lambda>_. True"
  by unfold_locales

lemma memory_begin_write:
  assumes "fst (ms_put_object (resolve_path p dir) [] s) = Ok ()"
  shows "\<exists>t s0. begin_object_write memory_backend p Write n dir s = (Ok t, s0)"
    and "\<exists>t s0. begin_object_write memory_backend p Upload n dir s = (Ok t, s0)"
proof -
  obtain s0 where "ms_put_object (resolve_path p dir) [] s = (Ok (), s0)"
    using assms by (metis prod.collapse)
  then show "\<exists>t s0. begin_object_write memory_backend p Write n dir s = (Ok t, s0)"
    "\<exists>t s0. begin_object_write memory_backend p Upload n dir s = (Ok t, s0)"
    by (simp_all add: begin_object_write_def memory_backend_def Let_def)
qed

lemma session_write_read:
  assumes "ms_inv (cn_storage cn)" "cn_channel cn = []" "cn_active_write cn = None"
    and "word_ok p" "ws \<noteq> []" "list_all word_ok ws" "vec_ok (bytes_of (join_words ws))"
    and "fst (ms_put_object (resolve_path p (cn_current_dir cn)) [] (cn_storage cn)) = Ok ()"
  shows "\<exists>s' r. send_command dbg chrono (session_channel memory_backend) L (join_words (''write'' # p # ws)) (over m cn) =
      Some (Ok r, over m (cn\<lparr>cn_storage := s'\<rparr>)) \<and> fr_success r \<and> ms_inv s' \<and>
    memory_content s' (resolve_path p (cn_current_dir cn)) = Some (bytes_of (join_words ws)) \<and>
    send_command dbg chrono (session_channel memory_backend) L (join_words [''read'', p]) (over m (cn\<lparr>cn_storage := s'\<rparr>)) =
      Some (Ok (format_object_content (take READ_PREVIEW_LIMIT (bytes_of (join_words ws)))
              (len_u64 (bytes_of (join_words ws))) (READ_PREVIEW_LIMIT < length (join_words ws))),
            over m (cn\<lparr>cn_storage := s'\<rparr>))"
proof -
  obtain t s0 where "begin_object_write memory_backend p Write (len_u64 (bytes_of (join_words ws)))
      (cn_current_dir cn) (cn_storage cn) = (Ok t, s0)"
    using memory_begin_write(1) [OF assms(8)] by blast
  then obtain s' r where w: "send_command dbg chrono (session_channel memory_backend) L (join_words (''write'' # p # ws)) (over m cn) =
      Some (Ok r, over m (cn\<lparr>cn_storage := s'\<rparr>))" "fr_success r" "ms_inv s'"
    "memory_content s' (resolve_path p (cn_current_dir cn)) = Some (bytes_of (join_words ws))"
    using memory_session.write_line_ok [OF assms(1-5) _ assms(7)] assms(6) by (fastforce simp: list_all_iff)
  then show ?thesis
    using memory_session.read_line_ok [of "cn\<lparr>cn_storage := s'\<rparr>" p "bytes_of (join_words ws)"] assms(2,4,7) by auto
qed

subsection \<open>A refused command changes nothing\<close>

text \<open>The replies that a command adds to the queue; if an error is among them, the connection is as
  before but for the queue.\<close>

definition refusal_clean :: "'s session \<Rightarrow> 's session \<Rightarrow> bool" where
  "refusal_clean cn cn' \<longleftrightarrow>
     (\<exists>replies. cn_channel cn' = cn_channel cn @ replies \<and>
        ((\<exists>m. ErrorOutput m \<in> set replies) \<longrightarrow> cn' = cn\<lparr>cn_channel := cn_channel cn'\<rparr>))"

lemma error_on_wire: "output_on_wire out = ErrorOutput m \<longleftrightarrow> out = ErrorOutput m"
  by (cases out) auto

lemma conn_send_queue: "conn_send queue_channel out cn = (Ok (), cn\<lparr>cn_channel := cn_channel cn @ [output_on_wire out]\<rparr>)"
  by (simp add: conn_send_def Let_def)

lemma refusal_clean_reply:
  assumes "\<And>m. out = ErrorOutput m \<Longrightarrow> cn1 = cn" "cn_channel cn1 = cn_channel cn"
  shows "refusal_clean cn (snd (conn_send queue_channel out cn1))"
proof (cases "\<exists>m. output_on_wire out = ErrorOutput m")
  case True
  with assms(1) have "cn1 = cn" by (auto simp: error_on_wire)
  then show ?thesis by (simp add: refusal_clean_def conn_send_queue)
next
  case False
  then have "ErrorOutput m \<noteq> output_on_wire out" for m by metis
  with assms(2) show ?thesis by (simp add: refusal_clean_def conn_send_queue)
qed

lemma refusal_clean_after:
  assumes "refusal_clean (cn\<lparr>cn_channel := cn_channel cn @ [output_on_wire out]\<rparr>) cn'" "\<And>m. out \<noteq> ErrorOutput m"
  shows "refusal_clean cn cn'"
proof -
  have "ErrorOutput m \<noteq> output_on_wire out" for m using assms(2) [of m] error_on_wire [of out m] by metis
  with assms(1) show ?thesis by (auto simp: refusal_clean_def)
qed

lemma refusal_clean_silent: "cn_channel cn' = cn_channel cn \<Longrightarrow> refusal_clean cn cn'"
  by (simp add: refusal_clean_def)

lemma memory_chunk_kept:
  assumes "ms_inv s" "read_object_chunk memory_backend p dir off s = (r, s')" "r \<noteq> Panic"
  shows "s' = s"
  using assms
  by (auto simp: read_object_chunk_def ms_get_object_chunk_def state_bind_def Let_def lock_state_def
      split: if_splits res.splits option.splits prod.splits)

lemma stream_refusal_clean:
  assumes "send_chunks_from V B p off cn = Some x"
  shows "V = queue_channel \<longrightarrow> B = memory_backend \<longrightarrow> ms_inv (cn_storage cn) \<longrightarrow> refusal_clean cn (snd x)"
  using assms
proof (induction rule: send_chunks_from.raw_induct [rotated, consumes 1])
  case (1 f V B p off cn x)
  show ?case
  proof (intro impI)
    assume VB: "V = queue_channel" "B = memory_backend" and inv: "ms_inv (cn_storage cn)"
    obtain r s' where rd: "read_object_chunk memory_backend p (cn_current_dir cn) off (cn_storage cn) = (r, s')"
      by (cases "read_object_chunk memory_backend p (cn_current_dir cn) off (cn_storage cn)")
    note kept = memory_chunk_kept [OF inv rd] and run = "1.hyps" [unfolded VB rd]
    show "refusal_clean cn (snd x)"
    proof (cases r)
      case (Ok ch)
      let ?cn = "cn\<lparr>cn_channel := cn_channel cn @ [output_on_wire (ObjectContentChunk ch)]\<rparr>"
      have "refusal_clean ?cn (snd x)"
      proof (cases "tc_is_last ch")
        case True
        with run Ok kept show ?thesis by (auto simp: conn_send_queue intro: refusal_clean_silent)
      next
        case False
        with run Ok kept have "f V B p (tc_offset ch + len_u64 (tc_data ch)) ?cn = Some x" by (simp add: conn_send_queue VB)
        from "1.IH" [OF this] VB inv show ?thesis by simp
      qed
      then show ?thesis by (rule refusal_clean_after) simp
    next
      case (Err e)
      with run kept show ?thesis by (auto simp: conn_send_queue error_on_wire refusal_clean_def)
    next
      case Panic
      with run show ?thesis by (auto intro: refusal_clean_silent)
    qed
  qed
qed

lemma begin_refused:
  assumes "ms_inv s" "begin_object_write memory_backend p mode n dir s = (Err e, s')"
  shows "s' = s"
  using assms clean_ops(1,2) [OF assms(1), of "resolve_path p dir" "[]", unfolded clean_def]
  by (cases mode) (auto simp: begin_object_write_def Let_def state_bind_def answered_def split: prod.splits res.splits)

lemma refused_on_connection:
  assumes "ms_inv (cn_storage cn)" "conn_handle_command queue_channel memory_backend c cn = Some (r, cn')"
    and "cn_active_write cn = None \<or> (\<forall>chunk. c \<noteq> WriteObjectChunk chunk)"
  shows "refusal_clean cn cn'"
proof -
  have "conn_process queue_channel memory_backend c cn = (r, cn') \<Longrightarrow> refusal_clean cn cn'"
  proof -
    assume run: "conn_process queue_channel memory_backend c cn = (r, cn')"
    obtain x s' dir' where p: "process_command memory_backend c (cn_storage cn, cn_current_dir cn) = (x, (s', dir'))"
      by (metis prod.exhaust)
    from process_command_memory [OF assms(1) this] obtain out where
      "x = Ok out" "(\<exists>m. out = ErrorOutput m) \<longrightarrow> s' = cn_storage cn \<and> dir' = cn_current_dir cn" by auto
    with run p refusal_clean_reply [of out "cn\<lparr>cn_storage := s', cn_current_dir := dir'\<rparr>" cn] show ?thesis
      by (auto simp: conn_process_def)
  qed
  moreover have "conn_begin_object_write queue_channel memory_backend p mode n cn = (r, cn') \<Longrightarrow> refusal_clean cn cn'" for p mode n
    using begin_refused [OF assms(1)] refusal_clean_reply [of _ _ cn]
    by (auto simp: conn_begin_object_write_def conn_send_queue refusal_clean_def split: if_splits prod.splits res.splits)
  moreover have "conn_write_object_chunk queue_channel memory_backend chunk cn = (r, cn') \<Longrightarrow> cn_active_write cn = None \<Longrightarrow> refusal_clean cn cn'" for chunk
    by (auto simp: conn_write_object_chunk_def conn_send_queue refusal_clean_def)
  moreover have "send_object_content_chunks queue_channel memory_backend p cn = Some (r, cn') \<Longrightarrow> refusal_clean cn cn'" for p
    using stream_refusal_clean [of queue_channel memory_backend p 0 cn "(r, cn')"] assms(1) by (simp add: send_object_content_chunks_def)
  ultimately show ?thesis using assms(2,3) by (cases c) auto
qed

end
