(* ===== verification/Disk_Storage.thy ===== *)
theory Disk_Storage
  imports File_Ops Memory_Storage Session
begin

section \<open>The file-system backend as a tree of objects\<close>

text \<open>
  \<open>TokioFsStorage\<close> over a file system that behaves as a plain tree (\<open>plain_fs\<close>): where a
  request path leads (\<open>disk_place\<close>), what each operation does to the tree below the base
  directory, and that the backend meets the contracts \<open>tree_storage\<close> (so it does what the
  memory storage does) and \<open>storage_contract\<close> (so the transfers of \<open>Session\<close> are right over
  it).  The file system is a parameter; what is required of it is in the first section.
\<close>

subsection \<open>A plain file system\<close>

text \<open>What is relied on of the operating system: its files and directories form a tree, shown
  by \<open>view\<close>, without symbolic links; \<open>nm\<close> says which names it accepts; the disk never fills
  and permissions do not get in the way.  A walk through the tree passes through existing
  directories only, and \<open>..\<close> leads back to the parent.\<close>

fun walk_tree :: "tree \<Rightarrow> string list \<Rightarrow> string list \<Rightarrow> string list option" where
  "walk_tree t [] ns = Some ns"
| "walk_tree t (s # ss) ns =
     (if t ns = Some NamespaceNode then walk_tree t ss (if s = ''..'' then butlast ns else ns @ [s]) else None)"

text \<open>\<open>canonicalize\<close> walks the tree.  It may fail on a file, as it does when a separator
  follows the file's name.\<close>

definition fs_names :: "'f os_fs \<Rightarrow> ('f \<Rightarrow> tree) \<Rightarrow> (string \<Rightarrow> bool) \<Rightarrow> 'f \<Rightarrow> bool" where
  "fs_names F view nm f \<longleftrightarrow>
     tree_ok (view f) \<and>
     (\<forall>ns. view f ns \<noteq> None \<longrightarrow> names_ok ns \<and> list_all nm ns) \<and>
     (\<forall>p q. is_absolute p \<longrightarrow> os_canonicalize F p f = Inr q \<longrightarrow>
        (\<exists>ns. walk_tree (view f) (names_of p) [] = Some ns \<and> view f ns \<noteq> None \<and> q = abs_path ns)) \<and>
     (\<forall>p ns. is_absolute p \<longrightarrow> walk_tree (view f) (names_of p) [] = Some ns \<longrightarrow>
        view f ns = Some NamespaceNode \<longrightarrow> os_canonicalize F p f = Inr (abs_path ns))"

definition stat_shows :: "node option \<Rightarrow> string + os_metadata \<Rightarrow> bool" where
  "stat_shows x r \<longleftrightarrow>
     (case x of
        None \<Rightarrow> \<exists>e. r = Inl e
      | Some y \<Rightarrow> \<exists>m. r = Inr m \<and> om_is_dir m = (y = NamespaceNode) \<and> om_is_file m = (y \<noteq> NamespaceNode))"

text \<open>What is not a file cannot be opened or, like a directory, cannot be read.\<close>

definition reads_anything :: "'f os_fs \<Rightarrow> path \<Rightarrow> 'f \<Rightarrow> bool" where
  "reads_anything F q f \<longleftrightarrow>
     os_open F q f = Inr () \<and> ((\<exists>d. os_read_to_end F q f = Inr d) \<or> (\<exists>off n d. os_read F q off n f = Inr d))"

definition fs_reads :: "'f os_fs \<Rightarrow> ('f \<Rightarrow> tree) \<Rightarrow> 'f \<Rightarrow> bool" where
  "fs_reads F view f \<longleftrightarrow> (\<forall>ns. names_ok ns \<longrightarrow>
     stat_shows (view f ns) (os_stat F (abs_path ns) f) \<and>
     (case view f ns of
        Some (ObjectNode d) \<Rightarrow> reads_file F (abs_path ns) f d \<and> os_read_to_end F (abs_path ns) f = Inr d
      | _ \<Rightarrow> \<not> reads_anything F (abs_path ns) f) \<and>
     (if view f ns = Some NamespaceNode
      then \<exists>es. os_read_dir F (abs_path ns) f = Inr (map Inr es) \<and> distinct es \<and> set es = children (view f) ns
      else \<exists>e. os_read_dir F (abs_path ns) f = Inl e))"

definition os_meets :: "('f \<Rightarrow> bool) \<Rightarrow> ('f \<Rightarrow> tree) \<Rightarrow> (string + unit) \<times> 'f \<Rightarrow> tree option \<Rightarrow> 'f \<Rightarrow> bool" where
  "os_meets ok view r spec f \<longleftrightarrow>
     (case spec of
        Some t \<Rightarrow> \<exists>f'. r = (Inr (), f') \<and> ok f' \<and> view f' = t
      | None \<Rightarrow> \<exists>e. r = (Inl e, f))"

text \<open>\<open>write_all\<close> follows \<open>create\<close>, so it is only used on an empty file; \<open>create_dir_all\<close>
  is only used where at most the last directory is missing.\<close>

definition fs_changes :: "'f os_fs \<Rightarrow> ('f \<Rightarrow> bool) \<Rightarrow> ('f \<Rightarrow> tree) \<Rightarrow> (string \<Rightarrow> bool) \<Rightarrow> 'f \<Rightarrow> bool" where
  "fs_changes F ok view nm f \<longleftrightarrow> (\<forall>ns. names_ok ns \<longrightarrow>
     os_meets ok view (os_create F (abs_path ns) f) (if list_all nm ns then spec_put (view f) ns [] else None) f \<and>
     os_meets ok view (os_open_append F (abs_path ns) f) (if list_all nm ns then spec_append (view f) ns [] else None) f \<and>
     os_meets ok view (os_remove_file F (abs_path ns) f) (spec_delete (view f) ns) f \<and>
     os_meets ok view (os_remove_dir F (abs_path ns) f) (spec_rmdir (view f) ns) f \<and>
     (view f (butlast ns) \<noteq> None \<longrightarrow>
        os_meets ok view (os_create_dir_all F (abs_path ns) f) (if list_all nm ns then spec_mkdir (view f) ns else None) f) \<and>
     (view f ns = Some NamespaceNode \<longrightarrow> os_create_dir_all F (abs_path ns) f = (Inr (), f)) \<and>
     (\<forall>d. view f ns = Some (ObjectNode []) \<longrightarrow>
        os_meets ok view (os_write_all F (abs_path ns) d f) (Some ((view f)(ns \<mapsto> ObjectNode d))) f) \<and>
     (\<forall>c d. view f ns = Some (ObjectNode c) \<longrightarrow>
        os_meets ok view (os_append_all F (abs_path ns) d f) (Some ((view f)(ns \<mapsto> ObjectNode (c @ d)))) f \<and>
        os_meets ok view (os_sync_all F (abs_path ns) f) (Some (view f)) f))"

definition plain_fs :: "'f os_fs \<Rightarrow> ('f \<Rightarrow> bool) \<Rightarrow> ('f \<Rightarrow> tree) \<Rightarrow> (string \<Rightarrow> bool) \<Rightarrow> bool" where
  "plain_fs F ok view nm \<longleftrightarrow> (\<forall>f. ok f \<longrightarrow> fs_names F view nm f \<and> fs_reads F view f \<and> fs_changes F ok view nm f)"

subsection \<open>Where a request path leads\<close>

definition full_path :: "string list \<Rightarrow> path \<Rightarrow> path" where
  "full_path bs p = join (abs_path bs) (case strip_root p of None \<Rightarrow> p | Some q \<Rightarrow> q)"

definition below :: "string list \<Rightarrow> tree \<Rightarrow> tree" where
  "below bs t ns = t (bs @ ns)"

definition disk_place :: "tree \<Rightarrow> string list \<Rightarrow> path \<Rightarrow> string list option" where
  "disk_place t bs p =
     (case walk_tree t (names_of (full_path bs p)) [] of
        None \<Rightarrow> None
      | Some ms \<Rightarrow> if take (length bs) ms = bs then Some (drop (length bs) ms) else None)"

definition disk_ready ::
  "'f os_fs \<Rightarrow> ('f \<Rightarrow> bool) \<Rightarrow> ('f \<Rightarrow> tree) \<Rightarrow> (string \<Rightarrow> bool) \<Rightarrow> tokio_fs_storage \<Rightarrow> string list \<Rightarrow> 'f \<Rightarrow> bool" where
  "disk_ready F ok view nm t bs f \<longleftrightarrow>
     plain_fs F ok view nm \<and> names_ok bs \<and> fo_base_dir (tf_file_ops t) = abs_path bs \<and> ok f \<and>
     view f bs = Some NamespaceNode"

lemma walk_tree_append:
  "walk_tree t (ss @ rs) ns = Option.bind (walk_tree t ss ns) (walk_tree t rs)"
  by (induction ss arbitrary: ns) auto

lemma is_absolute_full [simp]: "is_absolute (full_path bs p)"
  by (simp add: full_path_def join_def push_def is_absolute_def abs_path_def)

lemma names_of_cases: "s \<in> set (names_of p) \<Longrightarrow> s = ''..'' \<or> name_ok s"
  by (auto simp: names_of_def name_ok_def null_seg_def path_body_free)

lemma walk_names_ok_tree:
  "walk_tree t ss ns = Some ms \<Longrightarrow> names_ok ns \<Longrightarrow> \<forall>s \<in> set ss. s = ''..'' \<or> name_ok s \<Longrightarrow> names_ok ms"
  by (induction ss arbitrary: ns) (auto simp: names_ok_butlast split: if_splits)

lemma walk_full_names_ok: "walk_tree t (names_of p) [] = Some ms \<Longrightarrow> names_ok ms"
  by (rule walk_names_ok_tree) (auto dest: names_of_cases)

definition canonicalized :: "'f os_fs \<Rightarrow> path \<Rightarrow> 'f \<Rightarrow> path res" where
  "canonicalized F p f = (case os_canonicalize F p f of Inr q \<Rightarrow> Ok q | Inl e \<Rightarrow> canonicalize_parent F p f)"

lemma canonicalized_Some:
  assumes "fs_names F view nm f" "is_absolute p" "walk_tree (view f) (names_of p) [] = Some ms"
  shows "canonicalized F p f = Ok (abs_path ms)"
proof (cases "os_canonicalize F p f")
  case (Inr q)
  with assms show ?thesis by (auto simp: fs_names_def canonicalized_def)
next
  case (Inl e)
  have ok: "tree_ok (view f)" using assms(1) by (simp add: fs_names_def)
  have no_dir: "view f ms \<noteq> Some NamespaceNode"
    using assms Inl by (auto simp: fs_names_def)
  with ok assms(3) have "names_of p \<noteq> []" by (auto simp: tree_ok_def)
  then obtain ss s where ss: "names_of p = ss @ [s]" by (cases "names_of p" rule: rev_cases) auto
  then obtain ks where ks: "walk_tree (view f) ss [] = Some ks" "view f ks = Some NamespaceNode"
    "ms = (if s = ''..'' then butlast ks else ks @ [s])"
    using assms(3) by (auto simp: walk_tree_append bind_eq_Some_conv split: if_splits)
  with no_dir tree_ok_up [OF ok, of ks] have s: "s \<noteq> ''..''" by auto
  then have "name_ok s" using names_of_cases [of s p] ss by simp
  obtain q where q: "parent p = Some q" "is_absolute q" "names_of q = ss"
    using parent_absolute [OF assms(2) ss] by blast
  have "os_canonicalize F q f = Inr (abs_path ks)"
    using assms(1) q(2,3) ks(1,2) unfolding fs_names_def by blast
  moreover have "names_ok ks" using walk_full_names_ok [of "view f" q ks] q(3) ks(1) by simp
  ultimately show ?thesis
    using Inl q s ks(3) file_name_absolute [OF assms(2) ss] \<open>name_ok s\<close>
    by (simp add: canonicalized_def canonicalize_parent_def join_def)
qed

lemma canonicalized_None:
  assumes "fs_names F view nm f" "is_absolute p" "walk_tree (view f) (names_of p) [] = None"
  obtains "canonicalized F p f = Err (FileOperationError ''Invalid path'')"
    | ks n c where "canonicalized F p f = Ok (abs_path (ks @ [n]))" "names_ok ks" "name_ok n" "view f ks = Some (ObjectNode c)"
proof -
  obtain e where e: "os_canonicalize F p f = Inl e"
    using assms by (cases "os_canonicalize F p f") (auto simp: fs_names_def)
  then have par: "canonicalized F p f = canonicalize_parent F p f" by (simp add: canonicalized_def)
  show ?thesis
  proof (cases "canonicalized F p f")
    case (Ok q)
    with par obtain r cp n where r: "parent p = Some r" "os_canonicalize F r f = Inr cp" "file_name p = Some n" "q = join cp n"
      by (auto simp: canonicalize_parent_def split: option.splits sum.splits)
    have "names_of p \<noteq> []" using parent_absolute_None [OF assms(2)] r(3) by auto
    then obtain ss s where ss: "names_of p = ss @ [s]" by (cases "names_of p" rule: rev_cases) auto
    have s: "s = n" "n \<noteq> ''..''"
      using r(3) file_name_absolute [OF assms(2) ss] by (auto split: if_splits)
    have r': "is_absolute r" "names_of r = ss"
      using parent_absolute [OF assms(2) ss] r(1) by auto
    obtain ks where ks: "walk_tree (view f) ss [] = Some ks" "view f ks \<noteq> None" "cp = abs_path ks"
      using assms(1) r(2) r' unfolding fs_names_def by blast
    with assms(3) ss obtain c where c: "view f ks = Some (ObjectNode c)"
      by (cases "the (view f ks)") (auto simp: walk_tree_append split: if_splits)
    have "names_ok ks" using walk_full_names_ok [of "view f" r ks] r'(2) ks(1) by simp
    moreover have "name_ok n" using r(3) by (rule file_name_name_ok)
    ultimately show ?thesis using Ok r(4) ks(3) c that(2) [of ks n c] by (simp add: join_def)
  qed (use par that(1) in \<open>auto simp: canonicalize_parent_def split: option.splits sum.splits\<close>)
qed

lemma walk_parent_dir:
  assumes "tree_ok t" "walk_tree t ss [] = Some ms"
  shows "t (butlast ms) = Some NamespaceNode"
proof (cases ss rule: rev_cases)
  case Nil
  with assms show ?thesis by (auto simp: tree_ok_def)
next
  case (snoc rs s)
  with assms(2) obtain ks where ks: "t ks = Some NamespaceNode" "ms = (if s = ''..'' then butlast ks else ks @ [s])"
    by (auto simp: walk_tree_append bind_eq_Some_conv split: if_splits)
  have "t (butlast ks) = Some NamespaceNode" using tree_ok_up [OF assms(1)] ks(1) by simp
  with ks tree_ok_up [OF assms(1), of "butlast ks"] show ?thesis by simp
qed

lemma disk_readyD:
  assumes "disk_ready F ok view nm t bs f"
  shows "fs_names F view nm f" "fs_reads F view f" "fs_changes F ok view nm f" "tree_ok (view f)" "ok f"
    "names_ok bs" "view f bs = Some NamespaceNode" "fo_base_dir (tf_file_ops t) = abs_path bs"
proof -
  show "fs_names F view nm f" using assms by (simp add: disk_ready_def plain_fs_def)
  then show "tree_ok (view f)" by (simp add: fs_names_def)
qed (use assms in \<open>simp_all add: disk_ready_def plain_fs_def\<close>)

lemma starts_with_names:
  "names_ok ms \<Longrightarrow> names_ok bs \<Longrightarrow> starts_with (abs_path ms) (abs_path bs) \<longleftrightarrow> take (length bs) ms = bs"
  by (auto simp: append_eq_conv_conj) (metis append_take_drop_id)

lemma fo_resolve_full:
  assumes "disk_ready F ok view nm t bs f"
  shows "fo_resolve_path F (tf_file_ops t) p f =
    (res_bind (canonicalized F (full_path bs p) f) (\<lambda>q.
       if \<not> starts_with q (abs_path bs) then Err (FileOperationError ''Path outside base directory'') else Ok q), f)"
  using disk_readyD(8) [OF assms]
  by (simp add: fo_resolve_path_def full_path_def canonicalized_def Let_def)

lemma resolve_cases:
  assumes "disk_ready F ok view nm t bs f"
  obtains (place) ns where "disk_place (view f) bs p = Some ns" "names_ok ns"
      "view f (butlast (bs @ ns)) = Some NamespaceNode"
      "fo_resolve_path F (tf_file_ops t) p f = (Ok (abs_path (bs @ ns)), f)"
    | (under_file) ks n c where "disk_place (view f) bs p = None" "names_ok ks" "name_ok n"
      "view f ks = Some (ObjectNode c)"
      "fo_resolve_path F (tf_file_ops t) p f = (Ok (abs_path (ks @ [n])), f)"
    | (err) e where "disk_place (view f) bs p = None"
      "fo_resolve_path F (tf_file_ops t) p f = (Err (FileOperationError e), f)"
proof (cases "walk_tree (view f) (names_of (full_path bs p)) []")
  note ready = disk_readyD [OF assms]
  note full = fo_resolve_full [OF assms, of p]
  case None
  then have pl: "disk_place (view f) bs p = None" by (simp add: disk_place_def)
  from None show ?thesis
    by (rule canonicalized_None [OF ready(1) is_absolute_full])
      (use pl full under_file err in \<open>auto split: if_splits\<close>)
next
  note ready = disk_readyD [OF assms]
  note full = fo_resolve_full [OF assms, of p]
  case (Some ms)
  then have ok: "names_ok ms" by (rule walk_full_names_ok)
  have res: "fo_resolve_path F (tf_file_ops t) p f =
      ((if take (length bs) ms = bs then Ok (abs_path ms) else Err (FileOperationError ''Path outside base directory'')), f)"
    using full canonicalized_Some [OF ready(1) is_absolute_full Some] starts_with_names [OF ok ready(6)] by simp
  show ?thesis
  proof (cases "take (length bs) ms = bs")
    case True
    then have ms: "ms = bs @ drop (length bs) ms" by (metis append_take_drop_id)
    with ok have "names_ok (drop (length bs) ms)" by (metis names_ok_simps(3))
    with True Some res ms walk_parent_dir [OF ready(4) Some] show ?thesis
      by (intro place [of "drop (length bs) ms"]) (simp_all add: disk_place_def)
  next
    case False
    with Some res show ?thesis by (intro err) (simp_all add: disk_place_def)
  qed
qed

subsection \<open>The operations on a resolved path\<close>

lemma implements_bind:
  assumes "implements good view m (Some t1) s"
    and "\<And>s1. good s1 \<Longrightarrow> view s1 = t1 \<Longrightarrow> implements good view (k ()) (Some t2) s1"
  shows "implements good view (state_bind m k) (Some t2) s"
proof -
  obtain s1 where s1: "m s = (Ok (), s1)" "good s1" "view s1 = t1"
    using assms(1) by (auto simp: implements_def)
  from assms(2) [OF s1(2,3)] s1(1) show ?thesis by (simp add: implements_def state_bind_def)
qed

lemma implements_bind_None: "implements good view m None s \<Longrightarrow> implements good view (state_bind m k) None s"
  by (auto simp: implements_def state_bind_def)

lemma implements_os_do: "os_meets good view (act f) spec f \<Longrightarrow> implements good view (os_do what act) spec f"
  by (auto simp: os_meets_def implements_def os_do_def file_error_def split: option.splits)

lemma parent_abs_path: "names_ok ms \<Longrightarrow> parent (abs_path ms) = (if ms = [] then None else Some (abs_path (butlast ms)))"
  by (cases ms rule: rev_cases) simp_all

definition write_at :: "'f os_fs \<Rightarrow> path \<Rightarrow> bytes \<Rightarrow> ('f, unit) action" where
  "write_at F q d =
     state_bind (make_parents F q) (\<lambda>_.
     state_bind (os_do ''Failed to create file'' (os_create F q)) (\<lambda>_.
     state_bind (os_do ''Failed to write file'' (os_write_all F q d)) (\<lambda>_.
     os_do ''Failed to sync file'' (os_sync_all F q))))"

definition append_at :: "'f os_fs \<Rightarrow> path \<Rightarrow> bytes \<Rightarrow> ('f, unit) action" where
  "append_at F q d =
     state_bind (os_do ''Failed to open file for append'' (os_open_append F q)) (\<lambda>_.
     state_bind (os_do ''Failed to append to file'' (os_append_all F q d)) (\<lambda>_.
     os_do ''Failed to sync file'' (os_sync_all F q)))"

lemma fs_changesD:
  assumes "plain_fs F ok view nm" "ok f" "names_ok ns"
  shows "os_meets ok view (os_create F (abs_path ns) f) (if list_all nm ns then spec_put (view f) ns [] else None) f"
    "os_meets ok view (os_open_append F (abs_path ns) f) (if list_all nm ns then spec_append (view f) ns [] else None) f"
    "os_meets ok view (os_remove_file F (abs_path ns) f) (spec_delete (view f) ns) f"
    "os_meets ok view (os_remove_dir F (abs_path ns) f) (spec_rmdir (view f) ns) f"
    "view f (butlast ns) \<noteq> None \<Longrightarrow>
      os_meets ok view (os_create_dir_all F (abs_path ns) f) (if list_all nm ns then spec_mkdir (view f) ns else None) f"
    "view f ns = Some NamespaceNode \<Longrightarrow> os_create_dir_all F (abs_path ns) f = (Inr (), f)"
    "view f ns = Some (ObjectNode []) \<Longrightarrow>
      os_meets ok view (os_write_all F (abs_path ns) d f) (Some ((view f)(ns \<mapsto> ObjectNode d))) f"
    "view f ns = Some (ObjectNode c) \<Longrightarrow>
      os_meets ok view (os_append_all F (abs_path ns) d f) (Some ((view f)(ns \<mapsto> ObjectNode (c @ d)))) f"
    "view f ns = Some (ObjectNode c) \<Longrightarrow> os_meets ok view (os_sync_all F (abs_path ns) f) (Some (view f)) f"
proof -
  have "fs_changes F ok view nm f" using assms(1,2) by (simp add: plain_fs_def)
  note law = this [unfolded fs_changes_def, THEN spec, THEN mp, OF assms(3)]
  show "os_meets ok view (os_create F (abs_path ns) f) (if list_all nm ns then spec_put (view f) ns [] else None) f"
    using law by blast
  show "os_meets ok view (os_open_append F (abs_path ns) f) (if list_all nm ns then spec_append (view f) ns [] else None) f"
    using law by blast
  show "os_meets ok view (os_remove_file F (abs_path ns) f) (spec_delete (view f) ns) f"
    using law by blast
  show "os_meets ok view (os_remove_dir F (abs_path ns) f) (spec_rmdir (view f) ns) f"
    using law by blast
  show "os_meets ok view (os_create_dir_all F (abs_path ns) f) (if list_all nm ns then spec_mkdir (view f) ns else None) f" if "view f (butlast ns) \<noteq> None"
    using law that by blast
  show "os_create_dir_all F (abs_path ns) f = (Inr (), f)" if "view f ns = Some NamespaceNode"
    using law that by blast
  show "os_meets ok view (os_write_all F (abs_path ns) d f) (Some ((view f)(ns \<mapsto> ObjectNode d))) f" if "view f ns = Some (ObjectNode [])"
    using law that by blast
  show "os_meets ok view (os_append_all F (abs_path ns) d f) (Some ((view f)(ns \<mapsto> ObjectNode (c @ d)))) f" if "view f ns = Some (ObjectNode c)"
    using law that by blast
  show "os_meets ok view (os_sync_all F (abs_path ns) f) (Some (view f)) f" if "view f ns = Some (ObjectNode c)"
    using law that by blast
qed

lemma put_at:
  assumes "plain_fs F ok view nm" "ok f" "names_ok ms" "view f (butlast ms) \<noteq> None"
  shows "implements ok view (write_at F (abs_path ms) d) (if list_all nm ms then spec_put (view f) ms d else None) f"
proof (cases "view f (butlast ms) = Some NamespaceNode")
  note law = fs_changesD [OF assms(1)]
  case True
  have up: "make_parents F (abs_path ms) f = (Ok (), f)"
    using law(6) [OF assms(2) names_ok_butlast [OF assms(3)] True] assms(3)
    by (simp add: make_parents_def parent_abs_path os_do_def)
  have skip: "implements ok view (state_bind (make_parents F (abs_path ms)) k) spec f = implements ok view (k ()) spec f" for k spec
    using up by (cases spec) (simp_all add: implements_def state_bind_def)
  note create = implements_os_do [where act = "os_create F (abs_path ms)", OF law(1) [OF assms(2,3)]]
  show ?thesis
  proof (cases "list_all nm ms \<and> spec_put (view f) ms d \<noteq> None")
    case True
    then have nm: "list_all nm ms" "spec_put (view f) ms x = Some ((view f)(ms \<mapsto> ObjectNode x))" for x
      by (auto simp: spec_put_def split: if_splits)
    have created: "implements ok view (os_do ''Failed to create file'' (os_create F (abs_path ms)))
        (Some ((view f)(ms \<mapsto> ObjectNode []))) f"
      using create nm by simp
    have "implements ok view (os_do ''Failed to write file'' (os_write_all F (abs_path ms) d))
        (Some ((view f)(ms \<mapsto> ObjectNode d))) f1" if "ok f1" "view f1 = (view f)(ms \<mapsto> ObjectNode [])" for f1
      using that law(7) [OF that(1) assms(3), of d] by (intro implements_os_do) simp
    moreover have "implements ok view (os_do ''Failed to sync file'' (os_sync_all F (abs_path ms)))
        (Some ((view f)(ms \<mapsto> ObjectNode d))) f2" if "ok f2" "view f2 = (view f)(ms \<mapsto> ObjectNode d)" for f2
      using that law(9) [OF that(1) assms(3), of d] by (intro implements_os_do) simp
    ultimately show ?thesis
      unfolding write_at_def skip using nm
      by (simp only: if_True) (intro implements_bind [OF created] implements_bind, blast+)
  next
    case False
    then have "(if list_all nm ms then spec_put (view f) ms d else None) = None"
      "(if list_all nm ms then spec_put (view f) ms [] else None) = None"
      by (auto simp: spec_put_def)
    with create show ?thesis unfolding write_at_def skip by (simp only: implements_bind_None)
  qed
next
  note law = fs_changesD [OF assms(1)]
  case False
  with assms(4) obtain c where c: "view f (butlast ms) = Some (ObjectNode c)"
    by (cases "the (view f (butlast ms))") auto
  have ok: "tree_ok (view f)" using assms(1,2) by (simp add: plain_fs_def fs_names_def)
  have ne: "ms \<noteq> []" using c ok by (auto simp: tree_ok_def)
  have "view f (butlast (butlast ms)) \<noteq> None" using tree_ok_up [OF ok, of "butlast ms"] c by simp
  moreover have "(if list_all nm (butlast ms) then spec_mkdir (view f) (butlast ms) else None) = None"
    using c by (simp add: spec_mkdir_def)
  ultimately have "os_meets ok view (os_create_dir_all F (abs_path (butlast ms)) f) None f"
    using law(5) [OF assms(2) names_ok_butlast [OF assms(3)]] by simp
  then have "implements ok view (make_parents F (abs_path ms)) None f"
    using assms(3) ne by (simp add: make_parents_def parent_abs_path implements_os_do)
  moreover have "(if list_all nm ms then spec_put (view f) ms d else None) = None"
    using False by (simp add: spec_put_def)
  ultimately show ?thesis unfolding write_at_def by (simp only: implements_bind_None)
qed

lemma append_at_implements:
  assumes "plain_fs F ok view nm" "ok f" "names_ok ms"
  shows "implements ok view (append_at F (abs_path ms) d) (if list_all nm ms then spec_append (view f) ms d else None) f"
proof -
  note law = fs_changesD [OF assms(1)]
  let ?c = "node_data (view f ms)"
  note opened = implements_os_do [where act = "os_open_append F (abs_path ms)", OF law(2) [OF assms(2,3)]]
  show ?thesis
  proof (cases "list_all nm ms \<and> spec_append (view f) ms d \<noteq> None")
    case True
    then have nm: "list_all nm ms" "spec_append (view f) ms x = Some ((view f)(ms \<mapsto> ObjectNode (?c @ x)))" for x
      by (auto simp: spec_append_def spec_put_def split: if_splits)
    have open_ok: "implements ok view (os_do ''Failed to open file for append'' (os_open_append F (abs_path ms)))
        (Some ((view f)(ms \<mapsto> ObjectNode ?c))) f"
      using opened nm by simp
    have "implements ok view (os_do ''Failed to append to file'' (os_append_all F (abs_path ms) d))
        (Some ((view f)(ms \<mapsto> ObjectNode (?c @ d)))) f1" if "ok f1" "view f1 = (view f)(ms \<mapsto> ObjectNode ?c)" for f1
      using that law(8) [OF that(1) assms(3), of ?c d] by (intro implements_os_do) simp
    moreover have "implements ok view (os_do ''Failed to sync file'' (os_sync_all F (abs_path ms)))
        (Some ((view f)(ms \<mapsto> ObjectNode (?c @ d)))) f2" if "ok f2" "view f2 = (view f)(ms \<mapsto> ObjectNode (?c @ d))" for f2
      using that law(9) [OF that(1) assms(3), of "?c @ d"] by (intro implements_os_do) simp
    ultimately show ?thesis
      unfolding append_at_def using nm
      by (simp only: if_True) (intro implements_bind [OF open_ok] implements_bind, blast+)
  next
    case False
    then have "(if list_all nm ms then spec_append (view f) ms d else None) = None"
      "(if list_all nm ms then spec_append (view f) ms [] else None) = None"
      by (auto simp: spec_append_def spec_put_def)
    with opened show ?thesis unfolding append_at_def by (simp only: implements_bind_None)
  qed
qed

subsection \<open>The operations of the backend\<close>

text \<open>An operation on a request path does on the tree what its counterpart does at the place
  the path leads to, and fails when the path leads nowhere or out of the base directory.\<close>

lemma implements_after:
  "m f = (Ok x, f) \<Longrightarrow> implements good view (k x) spec f \<Longrightarrow> implements good view (state_bind m k) spec f"
  by (cases spec) (simp_all add: implements_def state_bind_def)

lemma resolved_op:
  assumes ready: "disk_ready F ok view nm t bs f"
    and at: "\<And>ms. names_ok ms \<Longrightarrow> view f (butlast ms) \<noteq> None \<Longrightarrow> implements ok view (op (abs_path ms)) (spec ms) f"
    and inner: "\<And>ms c. view f (butlast ms) = Some (ObjectNode c) \<Longrightarrow> view f ms = None \<Longrightarrow> spec ms = None"
  shows "implements ok view (state_bind (fo_resolve_path F (tf_file_ops t) p) op)
    (Option.bind (disk_place (view f) bs p) (\<lambda>ns. spec (bs @ ns))) f"
  using ready
proof (cases rule: resolve_cases [where p = p])
  note rd = disk_readyD [OF ready]
  case (place ns)
  then have "implements ok view (op (abs_path (bs @ ns))) (spec (bs @ ns)) f"
    using rd(6) by (intro at) simp_all
  with place show ?thesis by (simp add: implements_after)
next
  note rd = disk_readyD [OF ready]
  case (under_file ks n c)
  then have "view f (ks @ [n]) = None" using rd(4) by (force simp: tree_ok_def)
  with under_file have "implements ok view (op (abs_path (ks @ [n]))) None f"
    using at [of "ks @ [n]"] inner [of "ks @ [n]" c] by simp
  with under_file show ?thesis by (simp add: implements_after)
next
  case (err e)
  then show ?thesis by (simp add: implements_def state_bind_Err)
qed

lemma disk_changes:
  assumes ready: "disk_ready F ok view nm t bs f"
  shows "implements ok view (put_object (tokio_backend F t) p d)
      (Option.bind (disk_place (view f) bs p) (\<lambda>ns. if list_all nm (bs @ ns) then spec_put (view f) (bs @ ns) d else None)) f"
    "implements ok view (append_object (tokio_backend F t) p d)
      (Option.bind (disk_place (view f) bs p) (\<lambda>ns. if list_all nm (bs @ ns) then spec_append (view f) (bs @ ns) d else None)) f"
    "implements ok view (delete_object (tokio_backend F t) p)
      (Option.bind (disk_place (view f) bs p) (\<lambda>ns. spec_delete (view f) (bs @ ns))) f"
    "implements ok view (create_namespace (tokio_backend F t) p)
      (Option.bind (disk_place (view f) bs p) (\<lambda>ns. if list_all nm (bs @ ns) then spec_mkdir (view f) (bs @ ns) else None)) f"
    "implements ok view (delete_namespace (tokio_backend F t) p)
      (Option.bind (disk_place (view f) bs p) (\<lambda>ns. spec_rmdir (view f) (bs @ ns))) f"
proof -
  have fs: "plain_fs F ok view nm" "ok f" using ready by (simp_all add: disk_ready_def)
  note law = fs_changesD [OF fs]
  note op = resolved_op [OF ready]
  have "implements ok view (state_bind (fo_resolve_path F (tf_file_ops t) p) (\<lambda>q. write_at F q d))
      (Option.bind (disk_place (view f) bs p) (\<lambda>ns. if list_all nm (bs @ ns) then spec_put (view f) (bs @ ns) d else None)) f"
    by (rule op) (use put_at [OF fs] in \<open>auto simp: spec_put_def\<close>)
  then show "implements ok view (put_object (tokio_backend F t) p d)
      (Option.bind (disk_place (view f) bs p) (\<lambda>ns. if list_all nm (bs @ ns) then spec_put (view f) (bs @ ns) d else None)) f"
    by (simp add: tokio_backend_def write_file_def write_at_def)
  have "implements ok view (state_bind (fo_resolve_path F (tf_file_ops t) p) (\<lambda>q. append_at F q d))
      (Option.bind (disk_place (view f) bs p) (\<lambda>ns. if list_all nm (bs @ ns) then spec_append (view f) (bs @ ns) d else None)) f"
    by (rule op) (use append_at_implements [OF fs] in \<open>auto simp: spec_append_def spec_put_def\<close>)
  then show "implements ok view (append_object (tokio_backend F t) p d)
      (Option.bind (disk_place (view f) bs p) (\<lambda>ns. if list_all nm (bs @ ns) then spec_append (view f) (bs @ ns) d else None)) f"
    by (simp add: tokio_backend_def append_file_def append_at_def)
  show "implements ok view (delete_object (tokio_backend F t) p)
      (Option.bind (disk_place (view f) bs p) (\<lambda>ns. spec_delete (view f) (bs @ ns))) f"
    unfolding tokio_backend_def storage_backend.simps delete_file_def
  proof (rule op)
    show "implements ok view (os_do ''Failed to delete file'' (os_remove_file F (abs_path ms)))
        (spec_delete (view f) ms) f" if "names_ok ms" for ms
      by (rule implements_os_do [where act = "os_remove_file F (abs_path ms)", OF law(3) [OF that]])
  qed (auto simp: spec_delete_def)
  show "implements ok view (create_namespace (tokio_backend F t) p)
      (Option.bind (disk_place (view f) bs p) (\<lambda>ns. if list_all nm (bs @ ns) then spec_mkdir (view f) (bs @ ns) else None)) f"
    unfolding tokio_backend_def storage_backend.simps create_dir_def
  proof (rule op)
    show "implements ok view (os_do ''Failed to create directory'' (os_create_dir_all F (abs_path ms)))
        (if list_all nm ms then spec_mkdir (view f) ms else None) f"
      if "names_ok ms" "view f (butlast ms) \<noteq> None" for ms
      by (rule implements_os_do [where act = "os_create_dir_all F (abs_path ms)", OF law(5) [OF that]])
  qed (auto simp: spec_mkdir_def)
  show "implements ok view (delete_namespace (tokio_backend F t) p)
      (Option.bind (disk_place (view f) bs p) (\<lambda>ns. spec_rmdir (view f) (bs @ ns))) f"
    unfolding tokio_backend_def storage_backend.simps delete_dir_def
  proof (rule op)
    show "implements ok view (os_do ''Failed to delete directory'' (os_remove_dir F (abs_path ms)))
        (spec_rmdir (view f) ms) f" if "names_ok ms" for ms
      by (rule implements_os_do [where act = "os_remove_dir F (abs_path ms)", OF law(4) [OF that]])
  qed (auto simp: spec_rmdir_def)
qed

lemma fs_readsD:
  assumes "disk_ready F ok view nm t bs f" "names_ok ms"
  shows "stat_shows (view f ms) (os_stat F (abs_path ms) f)"
    "view f ms = Some (ObjectNode d) \<Longrightarrow> reads_file F (abs_path ms) f d \<and> os_read_to_end F (abs_path ms) f = Inr d"
    "(\<And>d. view f ms \<noteq> Some (ObjectNode d)) \<Longrightarrow> \<not> reads_anything F (abs_path ms) f"
    "view f ms = Some NamespaceNode \<Longrightarrow>
      \<exists>es. os_read_dir F (abs_path ms) f = Inr (map Inr es) \<and> distinct es \<and> set es = children (view f) ms"
    "view f ms \<noteq> Some NamespaceNode \<Longrightarrow> \<exists>e. os_read_dir F (abs_path ms) f = Inl e"
proof -
  note law = disk_readyD(2) [OF assms(1), unfolded fs_reads_def, THEN spec, THEN mp, OF assms(2)]
  show "stat_shows (view f ms) (os_stat F (abs_path ms) f)" using law by blast
  show "reads_file F (abs_path ms) f d \<and> os_read_to_end F (abs_path ms) f = Inr d" if "view f ms = Some (ObjectNode d)"
    using law that by simp
  show "\<not> reads_anything F (abs_path ms) f"
    if "\<And>d. view f ms \<noteq> Some (ObjectNode d)"
    using law that by (auto split: option.splits node.splits)
  show "\<exists>es. os_read_dir F (abs_path ms) f = Inr (map Inr es) \<and> distinct es \<and> set es = children (view f) ms"
    if "view f ms = Some NamespaceNode"
    using law that by auto
  show "\<exists>e. os_read_dir F (abs_path ms) f = Inl e" if "view f ms \<noteq> Some NamespaceNode"
    using law that by auto
qed

text \<open>Reading: the answer depends on what is at the place; a path that leads nowhere has
  nothing there.\<close>

definition node_at :: "tree \<Rightarrow> string list \<Rightarrow> path \<Rightarrow> node option" where
  "node_at t bs p = Option.bind (disk_place t bs p) (below bs t)"

lemma resolved_read:
  assumes ready: "disk_ready F ok view nm t bs f"
  obtains (at) ms where "names_ok ms" "fo_resolve_path F (tf_file_ops t) p f = (Ok (abs_path ms), f)"
      "view f ms = node_at (view f) bs p" "view f ms \<noteq> None \<longrightarrow> disk_place (view f) bs p = Some (drop (length bs) ms) \<and> ms = bs @ drop (length bs) ms"
    | (none) e where "fo_resolve_path F (tf_file_ops t) p f = (Err (FileOperationError e), f)" "node_at (view f) bs p = None"
  using ready
proof (cases rule: resolve_cases [where p = p])
  case (place ns)
  then show ?thesis using disk_readyD(6) [OF ready] by (intro at [of "bs @ ns"]) (simp_all add: node_at_def below_def)
next
  case (under_file ks n c)
  then have "view f (ks @ [n]) = None" using disk_readyD(4) [OF ready] by (force simp: tree_ok_def)
  with under_file show ?thesis by (intro at [of "ks @ [n]"]) (simp_all add: node_at_def)
next
  case (err e)
  then show ?thesis by (intro none) (simp_all add: node_at_def)
qed

lemma disk_get:
  assumes "disk_ready F ok view nm t bs f"
  shows "node_at (view f) bs p = Some (ObjectNode d) \<Longrightarrow> get_object (tokio_backend F t) p f = (Ok d, f)"
    and "(\<And>d. node_at (view f) bs p \<noteq> Some (ObjectNode d)) \<Longrightarrow> \<exists>e. get_object (tokio_backend F t) p f = (Err (FileOperationError e), f)"
proof -
  show "get_object (tokio_backend F t) p f = (Ok d, f)" if "node_at (view f) bs p = Some (ObjectNode d)"
    using assms
  proof (cases rule: resolved_read [where p = p])
    case (at ms)
    with that fs_readsD(2) [OF assms at(1), of d] show ?thesis
      by (auto simp: tokio_backend_def read_file_def state_bind_Ok os_ask_def reads_file_def)
  qed (use that in simp)
  show "\<exists>e. get_object (tokio_backend F t) p f = (Err (FileOperationError e), f)"
    if no: "\<And>d. node_at (view f) bs p \<noteq> Some (ObjectNode d)"
    using assms
  proof (cases rule: resolved_read [where p = p])
    case (at ms)
    with no fs_readsD(3) [OF assms at(1)] show ?thesis
      by (cases "os_open F (abs_path ms) f"; cases "os_read_to_end F (abs_path ms) f")
        (auto simp: tokio_backend_def read_file_def state_bind_Ok os_ask_def state_bind_def file_error_def reads_anything_def
          split: sum.split)
  next
    case (none e)
    then show ?thesis by (simp add: tokio_backend_def read_file_def state_bind_Err)
  qed
qed

definition stat_info :: "os_metadata \<Rightarrow> node_info" where
  "stat_info m = (om_is_dir m, if om_is_dir m then None else Some (om_len m))"

lemma stat_node:
  assumes "disk_ready F ok view nm t bs f" "names_ok ms" "view f ms = Some x"
  shows "\<exists>m. os_stat F (abs_path ms) f = Inr m \<and> stat_info m = info_of_node x"
proof (cases x)
  case NamespaceNode
  with fs_readsD(1) [OF assms(1,2)] assms(3) show ?thesis by (auto simp: stat_shows_def stat_info_def)
next
  case (ObjectNode d)
  with fs_readsD(1,2) [OF assms(1,2)] assms(3) show ?thesis
    by (auto simp: stat_shows_def stat_info_def reads_file_def)
qed

lemma disk_metadata:
  assumes "disk_ready F ok view nm t bs f"
  shows "node_at (view f) bs p = Some x \<Longrightarrow> \<exists>m. metadata (tokio_backend F t) p f = (Ok m, f) \<and> info_of_metadata m = info_of_node x"
    and "node_at (view f) bs p = None \<Longrightarrow> \<exists>e. metadata (tokio_backend F t) p f = (Err (FileOperationError e), f)"
proof -
  show "\<exists>m. metadata (tokio_backend F t) p f = (Ok m, f) \<and> info_of_metadata m = info_of_node x"
    if x: "node_at (view f) bs p = Some x"
    using assms
  proof (cases rule: resolved_read [where p = p])
    case (at ms)
    with x stat_node [OF assms at(1)] show ?thesis
      by (auto simp: stat_info_def info_of_metadata_def tokio_backend_def file_info_op_def from_path_def os_ask_def
          state_bind_def metadata_from_file_def)
  qed (use x in simp)
  show "\<exists>e. metadata (tokio_backend F t) p f = (Err (FileOperationError e), f)" if no: "node_at (view f) bs p = None"
    using assms
  proof (cases rule: resolved_read [where p = p])
    case (at ms)
    with no fs_readsD(1) [OF assms at(1)] show ?thesis
      by (auto simp: stat_shows_def tokio_backend_def file_info_op_def from_path_def os_ask_def state_bind_def file_error_def)
  next
    case (none e)
    then show ?thesis by (simp add: tokio_backend_def file_info_op_def state_bind_def)
  qed
qed

text \<open>A listing in which every entry has metadata.  A name that is not UTF-8 is shown empty.\<close>

definition shown_name :: "string \<Rightarrow> string" where
  "shown_name n = (if utf8_valid n then n else '''')"

lemma list_loop_all:
  assumes "\<And>n. n \<in> set es \<Longrightarrow> \<exists>m. os_stat F (join dir n) f = Inr m \<and> stat_info m = info n \<and> file_name (join dir n) = Some n"
  shows "\<exists>ms. list_loop F dir (map Inr es) acc f = (Ok (acc @ ms), f) \<and>
    map (\<lambda>m. (fm_name m, info_of_metadata (metadata_from_file m))) ms = map (\<lambda>n. (shown_name n, info n)) es"
  using assms
proof (induction es arbitrary: acc)
  case (Cons n es)
  obtain m where m: "os_stat F (join dir n) f = Inr m" "stat_info m = info n" "file_name (join dir n) = Some n"
    using Cons.prems [of n] by auto
  obtain x where x: "from_path F (join dir n) f = (Ok x, f)" "fm_name x = shown_name n"
    "info_of_metadata (metadata_from_file x) = info n"
    using m(1,3)
    by (simp add: shown_name_def from_path_def os_ask_def state_bind_def info_of_metadata_def metadata_from_file_def
        flip: m(2)) (simp add: stat_info_def)
  from Cons.IH [of "acc @ [x]"] Cons.prems obtain ms where
    "list_loop F dir (map Inr es) ((acc @ [x])) f = (Ok ((acc @ [x]) @ ms), f)"
    "map (\<lambda>m. (fm_name m, info_of_metadata (metadata_from_file m))) ms = map (\<lambda>n. (shown_name n, info n)) es"
    by auto
  with x show ?case by (intro exI [of _ "x # ms"]) simp
qed simp

lemma disk_list:
  assumes ready: "disk_ready F ok view nm t bs f"
  shows "disk_place (view f) bs p = Some ns \<Longrightarrow> below bs (view f) ns = Some NamespaceNode \<Longrightarrow>
      \<exists>es xs. list_namespace (tokio_backend F t) p f = (Ok xs, f) \<and> distinct es \<and> set es = children (below bs (view f)) ns \<and>
        map (\<lambda>m. (md_name m, info_of_metadata m)) xs =
          map (\<lambda>n. (shown_name n, info_of_node (the (below bs (view f) (ns @ [n]))))) es"
    and "node_at (view f) bs p \<noteq> Some NamespaceNode \<Longrightarrow>
      \<exists>e. list_namespace (tokio_backend F t) p f = (Err (FileOperationError e), f)"
proof -
  show "\<exists>e. list_namespace (tokio_backend F t) p f = (Err (FileOperationError e), f)"
    if "node_at (view f) bs p \<noteq> Some NamespaceNode"
    using ready
  proof (cases rule: resolved_read [where p = p])
    case (at ms)
    with that fs_readsD(5) [OF ready at(1)] show ?thesis
      by (auto simp: tokio_backend_def list_dir_def state_bind_def os_ask_def file_error_def)
  next
    case (none e)
    then show ?thesis by (simp add: tokio_backend_def list_dir_def state_bind_def)
  qed
  assume pl: "disk_place (view f) bs p = Some ns" and dir: "below bs (view f) ns = Some NamespaceNode"
  let ?info = "\<lambda>n. info_of_node (the (below bs (view f) (ns @ [n])))"
  from ready pl have res: "fo_resolve_path F (tf_file_ops t) p f = (Ok (abs_path (bs @ ns)), f)" and ns: "names_ok ns"
    by (cases rule: resolve_cases [where p = p], auto)+
  then have ok: "names_ok (bs @ ns)" using disk_readyD(6) [OF ready] by simp
  obtain es where es: "os_read_dir F (abs_path (bs @ ns)) f = Inr (map Inr es)" "distinct es"
    "set es = children (view f) (bs @ ns)"
    using fs_readsD(4) [OF ready ok] dir by (auto simp: below_def)
  have "\<exists>m. os_stat F (join (abs_path (bs @ ns)) n) f = Inr m \<and> stat_info m = ?info n \<and>
      file_name (join (abs_path (bs @ ns)) n) = Some n" if "n \<in> set es" for n
  proof -
    from that es(3) obtain x where x: "view f (bs @ ns @ [n]) = Some x" by (auto simp: children_def)
    then have n: "names_ok (bs @ ns @ [n])" using disk_readyD(1) [OF ready] by (auto simp: fs_names_def)
    have "join (abs_path (bs @ ns)) n = abs_path (bs @ ns @ [n])"
      using ok n by (simp add: join_def)
    with stat_node [OF ready n x] x n show ?thesis by (auto simp: below_def)
  qed
  from list_loop_all [OF this, of es "[]"] obtain ms where
    "list_loop F (abs_path (bs @ ns)) (map Inr es) [] f = (Ok ms, f)"
    "map (\<lambda>m. (fm_name m, info_of_metadata (metadata_from_file m))) ms = map (\<lambda>n. (shown_name n, ?info n)) es"
    by auto
  moreover have "set es = children (below bs (view f)) ns" using es(3) by (simp add: children_def below_def)
  ultimately show "\<exists>es xs. list_namespace (tokio_backend F t) p f = (Ok xs, f) \<and> distinct es \<and>
      set es = children (below bs (view f)) ns \<and>
      map (\<lambda>m. (md_name m, info_of_metadata m)) xs = map (\<lambda>n. (shown_name n, ?info n)) es"
    using es(1,2) res
    by (intro exI [of _ es] exI [of _ "map metadata_from_file ms"])
      (simp add: tokio_backend_def list_dir_def state_bind_def os_ask_def comp_def, simp add: metadata_from_file_def)
qed

subsection \<open>The part of the tree below the base directory\<close>

lemma below_upd: "below bs (t(bs @ ns := x)) = (below bs t)(ns := x)"
  by (auto simp: below_def fun_eq_iff)

lemma butlast_below: "ns \<noteq> [] \<Longrightarrow> below bs t (butlast ns) = t (butlast (bs @ ns))"
  by (simp add: below_def butlast_append)

lemma spec_below:
  assumes "t bs = Some NamespaceNode"
  shows "spec_put (below bs t) ns d = map_option (below bs) (spec_put t (bs @ ns) d)"
    "spec_append (below bs t) ns d = map_option (below bs) (spec_append t (bs @ ns) d)"
    "spec_delete (below bs t) ns = map_option (below bs) (spec_delete t (bs @ ns))"
    "spec_mkdir (below bs t) ns = map_option (below bs) (spec_mkdir t (bs @ ns))"
    "ns \<noteq> [] \<Longrightarrow> spec_rmdir (below bs t) ns = map_option (below bs) (spec_rmdir t (bs @ ns))"
proof -
  show put: "spec_put (below bs t) ns d = map_option (below bs) (spec_put t (bs @ ns) d)" for d
    using assms by (cases "ns = []") (auto simp: spec_put_def butlast_below below_upd, auto simp: below_def)
  then show "spec_append (below bs t) ns d = map_option (below bs) (spec_append t (bs @ ns) d)"
    by (simp add: spec_append_def) (simp add: below_def)
  show "spec_delete (below bs t) ns = map_option (below bs) (spec_delete t (bs @ ns))"
    by (auto simp: spec_delete_def below_upd split: option.split node.split) (auto simp: below_def)
  show "spec_mkdir (below bs t) ns = map_option (below bs) (spec_mkdir t (bs @ ns))"
    using assms
    by (cases "ns = []") (auto simp: spec_mkdir_def butlast_below below_upd below_def [of bs t ns] below_def [of bs t "[]"] split: option.split node.split)
  show "spec_rmdir (below bs t) ns = map_option (below bs) (spec_rmdir t (bs @ ns))" if "ns \<noteq> []"
    using that by (auto simp: spec_rmdir_def below_upd below_def [of bs t ns] below_def [of bs t "ns @ _"])
qed

text \<open>Every operation changes one place at most.\<close>

lemma spec_one_place:
  "spec_put t ns d = Some t' \<Longrightarrow> \<exists>x. t' = t(ns := x)"
  "spec_append t ns d = Some t' \<Longrightarrow> \<exists>x. t' = t(ns := x)"
  "spec_delete t ns = Some t' \<Longrightarrow> \<exists>x. t' = t(ns := x)"
  "spec_mkdir t ns = Some t' \<Longrightarrow> \<exists>x. t' = t(ns := x)"
  "spec_rmdir t ns = Some t' \<Longrightarrow> \<exists>x. t' = t(ns := x)"
proof -
  have triv: "\<exists>x. t = t(ns := x)" for t :: tree and ns by (metis fun_upd_triv)
  then show "spec_mkdir t ns = Some t' \<Longrightarrow> \<exists>x. t' = t(ns := x)"
    by (auto simp: spec_mkdir_def split: if_splits option.splits node.splits)
qed (auto simp: spec_put_def spec_append_def spec_delete_def spec_rmdir_def split: if_splits option.splits node.splits)

definition disk_inv ::
  "'f os_fs \<Rightarrow> ('f \<Rightarrow> bool) \<Rightarrow> ('f \<Rightarrow> tree) \<Rightarrow> (string \<Rightarrow> bool) \<Rightarrow> tokio_fs_storage \<Rightarrow> string list \<Rightarrow> tree \<Rightarrow> 'f \<Rightarrow> bool" where
  "disk_inv F ok view nm t bs out f \<longleftrightarrow>
     disk_ready F ok view nm t bs f \<and> (\<forall>ns. take (length bs) ns \<noteq> bs \<longrightarrow> view f ns = out ns)"

text \<open>A plain call names its place by a canonical path of UTF-8 names that the file system
  accepts, and does not remove the base directory itself.  A listing shows a name that is not
  UTF-8 as empty, so the names in the tree are required to be UTF-8 as well.\<close>

definition utf8_tree :: "tree \<Rightarrow> bool" where
  "utf8_tree t \<longleftrightarrow> (\<forall>ns. t ns \<noteq> None \<longrightarrow> list_all utf8_valid ns)"

definition disk_tree_inv ::
  "'f os_fs \<Rightarrow> ('f \<Rightarrow> bool) \<Rightarrow> ('f \<Rightarrow> tree) \<Rightarrow> (string \<Rightarrow> bool) \<Rightarrow> tokio_fs_storage \<Rightarrow> string list \<Rightarrow> tree \<Rightarrow> 'f \<Rightarrow> bool" where
  "disk_tree_inv F ok view nm t bs out f \<longleftrightarrow> disk_inv F ok view nm t bs out f \<and> utf8_tree (below bs (view f))"

definition disk_call :: "(string \<Rightarrow> bool) \<Rightarrow> storage_call \<Rightarrow> bool" where
  "disk_call nm c \<longleftrightarrow>
     canonical (call_path c) \<and> list_all nm (names_of (call_path c)) \<and>
     list_all utf8_valid (names_of (call_path c)) \<and> c \<noteq> RmdirCall ''/''"

lemma implements_below:
  assumes inv: "disk_inv F ok view nm t bs out f" and imp: "implements ok view op spec f"
    and local: "\<And>t'. spec = Some t' \<Longrightarrow> \<exists>ns x. t' = (view f)(bs @ ns := x) \<and> (ns = [] \<longrightarrow> x = Some NamespaceNode)"
  shows "implements (disk_inv F ok view nm t bs out) (\<lambda>f. below bs (view f)) op (map_option (below bs) spec) f"
  using imp
proof (cases rule: implements_cases)
  case (ok f' t')
  obtain ns x where t': "t' = (view f)(bs @ ns := x)" "ns = [] \<longrightarrow> x = Some NamespaceNode"
    using local [OF ok(2)] by blast
  have "disk_inv F ok view nm t bs out f'"
    using inv ok(3,4) t' by (auto simp: disk_inv_def disk_ready_def)
  with ok show ?thesis by (simp add: implements_def)
next
  case (err e)
  then show ?thesis by (simp add: implements_def)
qed

lemma spec_local:
  assumes "t bs = Some NamespaceNode"
  shows "spec_put t (bs @ ns) d = Some t' \<Longrightarrow> \<exists>x. t' = t(bs @ ns := x) \<and> (ns = [] \<longrightarrow> x = Some NamespaceNode)"
    "spec_append t (bs @ ns) d = Some t' \<Longrightarrow> \<exists>x. t' = t(bs @ ns := x) \<and> (ns = [] \<longrightarrow> x = Some NamespaceNode)"
    "spec_delete t (bs @ ns) = Some t' \<Longrightarrow> \<exists>x. t' = t(bs @ ns := x) \<and> (ns = [] \<longrightarrow> x = Some NamespaceNode)"
    "spec_mkdir t (bs @ ns) = Some t' \<Longrightarrow> \<exists>x. t' = t(bs @ ns := x) \<and> (ns = [] \<longrightarrow> x = Some NamespaceNode)"
    "ns \<noteq> [] \<Longrightarrow> spec_rmdir t (bs @ ns) = Some t' \<Longrightarrow> \<exists>x. t' = t(bs @ ns := x) \<and> (ns = [] \<longrightarrow> x = Some NamespaceNode)"
proof -
  show "spec_mkdir t (bs @ ns) = Some t' \<Longrightarrow> \<exists>x. t' = t(bs @ ns := x) \<and> (ns = [] \<longrightarrow> x = Some NamespaceNode)"
    using assms
    by (intro exI [of _ "Some NamespaceNode"]) (auto simp: spec_mkdir_def fun_upd_idem_iff split: option.splits if_splits node.splits)
qed (use assms in \<open>auto simp: spec_put_def spec_append_def spec_delete_def spec_rmdir_def split: if_splits option.splits node.splits\<close>)

text \<open>Canonical paths lead where their names say, if the directories are there.\<close>

lemma strip_root_abs_path: "names_ok ns \<Longrightarrow> strip_root (abs_path ns) = Some (join_with slash ns)"
proof -
  assume ok: "names_ok ns"
  have "dropWhile null_seg ns = ns" using ok by (cases ns) (auto simp: name_ok_def null_seg_def)
  with ok show ?thesis
    by (cases "ns = []") (simp_all add: strip_root_def path_body_abs_path trim_right_names_ok, simp add: null_seg_def trim_right_def)
qed

lemma full_path_abs_path:
  assumes "names_ok bs" "names_ok ns"
  shows "names_of (full_path bs (abs_path ns)) = bs @ ns"
proof -
  have rel: "\<not> is_absolute (join_with slash ns)"
    using assms(2) by (cases ns rule: list.exhaust; cases "hd ns"; cases "tl ns") (auto simp: is_absolute_def name_ok_def)
  let ?xs = "bs @ (if ns = [] then [''''] else ns)"
  have free: "slash \<notin> set x" if "x \<in> set ?xs" for x
  proof -
    have "slash \<notin> set x" if "names_ok xs" "x \<in> set xs" for xs
      using that by (simp add: names_ok_def name_ok_def)
    with that assms show ?thesis by (cases "ns = []") auto
  qed
  have filt: "filter (\<lambda>s. \<not> null_seg s) ?xs = bs @ ns"
    using assms filter_names_ok [of bs] filter_names_ok [of ns] by (simp add: null_seg_def)
  have "full_path bs (abs_path ns) = slash # join_with slash (if bs = [] then ns else ?xs)"
    using rel last_abs_path [OF assms(1)] strip_root_abs_path [OF assms(2)]
    by (cases "bs = []"; cases "ns = []")
      (auto simp: full_path_def join_def push_def abs_path_def join_with_append)
  moreover have "names_of (slash # join_with slash (if bs = [] then ns else ?xs)) = bs @ ns"
    using free filt assms filter_names_ok [of ns] by (subst names_of_joined) (auto split: if_splits)
  ultimately show ?thesis by simp
qed

lemma walk_names_tree:
  assumes "tree_ok t" "names_ok ns"
  shows "walk_tree t ns [] = (if ns = [] \<or> t (butlast ns) = Some NamespaceNode then Some ns else None)"
  using assms(2)
proof (induction ns rule: rev_induct)
  case (snoc n ns)
  have "ns = [] \<or> t (butlast ns) = Some NamespaceNode" if "t ns = Some NamespaceNode"
    using tree_ok_up [OF assms(1), of ns] that by simp
  moreover have "n \<noteq> ''..''" using snoc.prems by (simp add: name_ok_def)
  ultimately show ?case using snoc by (auto simp: walk_tree_append)
qed simp

lemma disk_place_abs_path:
  assumes "disk_ready F ok view nm t bs f" "names_ok ns"
  shows "disk_place (view f) bs (abs_path ns) =
    (if ns = [] \<or> below bs (view f) (butlast ns) = Some NamespaceNode then Some ns else None)"
proof -
  note rd = disk_readyD [OF assms(1)]
  have "bs @ ns = [] \<or> view f (butlast (bs @ ns)) = Some NamespaceNode \<longleftrightarrow>
      ns = [] \<or> below bs (view f) (butlast ns) = Some NamespaceNode"
    using tree_ok_up [OF rd(4), of bs] rd(7) by (cases "ns = []") (auto simp: below_def butlast_append)
  with rd(6) assms(2) show ?thesis
    by (simp add: disk_place_def full_path_abs_path walk_names_tree [OF rd(4)])
qed

lemma disk_implements:
  assumes inv: "disk_inv F ok view nm t bs out f" and pl: "disk_place (view f) bs p = Some ns" and nm: "list_all nm ns"
  defines "good \<equiv> disk_inv F ok view nm t bs out" and "sub \<equiv> \<lambda>f. below bs (view f)"
  shows "implements good sub (put_object (tokio_backend F t) p d) (spec_put (sub f) ns d) f"
    "implements good sub (append_object (tokio_backend F t) p d) (spec_append (sub f) ns d) f"
    "implements good sub (delete_object (tokio_backend F t) p) (spec_delete (sub f) ns) f"
    "implements good sub (create_namespace (tokio_backend F t) p) (spec_mkdir (sub f) ns) f"
    "ns \<noteq> [] \<Longrightarrow> implements good sub (delete_namespace (tokio_backend F t) p) (spec_rmdir (sub f) ns) f"
proof -
  have ready: "disk_ready F ok view nm t bs f" using inv by (simp add: disk_inv_def)
  note base = disk_readyD(7) [OF ready]
  have names: "list_all nm (bs @ ns)"
    using disk_readyD(1,7) [OF ready] nm by (auto simp: fs_names_def)
  note ops = disk_changes [OF ready, of p, unfolded pl Option.bind.simps if_P [OF names]]
  note lift = implements_below [OF inv] and spec = spec_below [of "view f", OF base] and loc = spec_local [of "view f", OF base]
  show "implements good sub (put_object (tokio_backend F t) p d) (spec_put (sub f) ns d) f"
    "implements good sub (append_object (tokio_backend F t) p d) (spec_append (sub f) ns d) f"
    "implements good sub (delete_object (tokio_backend F t) p) (spec_delete (sub f) ns) f"
    "implements good sub (create_namespace (tokio_backend F t) p) (spec_mkdir (sub f) ns) f"
    unfolding good_def sub_def spec
    by (rule lift [OF ops(1)], blast dest: loc(1-4)) (rule lift [OF ops(2)], blast dest: loc(1-4),
        rule lift [OF ops(3)], blast dest: loc(1-4), rule lift [OF ops(4)], blast dest: loc(1-4))
  show "implements good sub (delete_namespace (tokio_backend F t) p) (spec_rmdir (sub f) ns) f" if "ns \<noteq> []"
    unfolding good_def sub_def spec(5) [OF that]
    by (rule lift [OF ops(5)]) (blast dest: loc(5) [OF that])
qed

text \<open>A place whose names the file system does not accept holds nothing and can hold nothing.\<close>

lemma disk_unnamed:
  assumes ready: "disk_ready F ok view nm t bs f"
    and pl: "disk_place (view f) bs p = None \<or> (\<exists>ns. disk_place (view f) bs p = Some ns \<and> \<not> list_all nm ns)"
    and op: "op \<in> {put_object (tokio_backend F t) p d, append_object (tokio_backend F t) p d, delete_object (tokio_backend F t) p,
         create_namespace (tokio_backend F t) p, delete_namespace (tokio_backend F t) p}"
  shows "\<exists>e. op f = (Err (FileOperationError e), f)"
proof -
  have none: "spec_delete (view f) (bs @ ns) = None" "spec_rmdir (view f) (bs @ ns) = None" if "\<not> list_all nm ns" for ns
  proof -
    have "view f (bs @ ns) = None" using disk_readyD(1) [OF ready] that by (fastforce simp: fs_names_def)
    then show "spec_delete (view f) (bs @ ns) = None" "spec_rmdir (view f) (bs @ ns) = None"
      by (simp_all add: spec_delete_def spec_rmdir_def)
  qed
  have "implements ok view op None f"
    using op pl disk_changes [OF ready, of p] none by auto
  then show ?thesis by (simp add: implements_def)
qed

text \<open>Whatever an operation does, what lies outside the base directory stays.\<close>

lemma implements_outside:
  assumes "implements ok view op (Option.bind (disk_place (view f) bs p) S) f" "op f = (r, f')"
    and "\<And>ns t'. S ns = Some t' \<Longrightarrow> \<exists>x. t' = (view f)(bs @ ns := x)" "take (length bs) ms \<noteq> bs"
  shows "view f' ms = view f ms"
  using assms(1)
proof (cases rule: implements_cases)
  case (ok s' t)
  then obtain ns where "S ns = Some t" by (auto simp: bind_eq_Some_conv)
  with assms(3) obtain x where "t = (view f)(bs @ ns := x)" by blast
  with ok assms(2,4) show ?thesis by auto
qed (use assms(2) in simp)

lemma disk_outside:
  assumes ready: "disk_ready F ok view nm t bs f"
    and op: "op \<in> {put_object (tokio_backend F t) p d, append_object (tokio_backend F t) p d, delete_object (tokio_backend F t) p,
         create_namespace (tokio_backend F t) p, delete_namespace (tokio_backend F t) p}"
    and run: "op f = (r, f')" "take (length bs) ms \<noteq> bs"
  shows "view f' ms = view f ms"
  using op
proof (elim insertE emptyE)
  note out = implements_outside [OF _ _ _ run(2)] and ops = disk_changes [OF ready, of p] and one = spec_one_place [of "view f"]
  show ?thesis if "op = put_object (tokio_backend F t) p d"
    by (rule out [OF ops(1) [of d] run(1) [unfolded that]]) (auto dest: one split: if_splits)
  show ?thesis if "op = append_object (tokio_backend F t) p d"
    by (rule out [OF ops(2) [of d] run(1) [unfolded that]]) (auto dest: one split: if_splits)
  show ?thesis if "op = delete_object (tokio_backend F t) p"
    by (rule out [OF ops(3) run(1) [unfolded that]]) (auto dest: one)
  show ?thesis if "op = create_namespace (tokio_backend F t) p"
    by (rule out [OF ops(4) run(1) [unfolded that]]) (auto dest: one split: if_splits)
  show ?thesis if "op = delete_namespace (tokio_backend F t) p"
    by (rule out [OF ops(5) run(1) [unfolded that]]) (auto dest: one)
qed

text \<open>What is read comes from below the base directory.\<close>

lemma disk_get_inside:
  assumes "disk_ready F ok view nm t bs f" "get_object (tokio_backend F t) p f = (Ok d, f')"
  shows "f' = f \<and> (\<exists>ns. below bs (view f) ns = Some (ObjectNode d))"
proof -
  obtain c where c: "node_at (view f) bs p = Some (ObjectNode c)"
    using disk_get(2) [OF assms(1), of p] assms(2) by fastforce
  with disk_get(1) [OF assms(1) c] assms(2) show ?thesis by (auto simp: node_at_def bind_eq_Some_conv)
qed

lemma disk_mutating_step:
  assumes inv: "disk_inv F ok view nm t bs out f" and ns: "names_ok ns"
    and imp: "disk_place (view f) bs (abs_path ns) = Some ns \<Longrightarrow>
      implements (disk_inv F ok view nm t bs out) (\<lambda>f. below bs (view f)) op (spec (below bs (view f)) ns) f"
    and none: "disk_place (view f) bs (abs_path ns) = None \<Longrightarrow> implements ok view op None f"
    and undef: "ns \<noteq> [] \<Longrightarrow> below bs (view f) (butlast ns) \<noteq> Some NamespaceNode \<Longrightarrow> spec (below bs (view f)) ns = None"
  shows "\<exists>f'. apfst (answer (\<lambda>_. Completed)) (op f) = (fst (or_same (below bs (view f)) (spec (below bs (view f)) ns)), f') \<and>
    disk_inv F ok view nm t bs out f' \<and> below bs (view f') = snd (or_same (below bs (view f)) (spec (below bs (view f)) ns))"
proof (cases "ns = [] \<or> below bs (view f) (butlast ns) = Some NamespaceNode")
  have ready: "disk_ready F ok view nm t bs f" using inv by (simp add: disk_inv_def)
  case True
  then have "disk_place (view f) bs (abs_path ns) = Some ns"
    using disk_place_abs_path [OF ready ns] by simp
  from implements_call [OF imp [OF this] inv] show ?thesis by auto
next
  have ready: "disk_ready F ok view nm t bs f" using inv by (simp add: disk_inv_def)
  case False
  then have "disk_place (view f) bs (abs_path ns) = None"
    using disk_place_abs_path [OF ready ns] by simp
  with none undef False inv show ?thesis by (auto simp: implements_def)
qed

lemma tree_below_ok: "disk_ready F ok view nm t bs f \<Longrightarrow> tree_ok (below bs (view f))"
  using disk_readyD(4,7) [of F ok view nm t bs f] by (auto simp: tree_ok_def below_def simp flip: append_assoc)

lemma node_at_abs_path:
  assumes "disk_ready F ok view nm t bs f" "names_ok ns"
  shows "node_at (view f) bs (abs_path ns) = below bs (view f) ns"
  using tree_ok_up [OF tree_below_ok [OF assms(1)], of ns] disk_place_abs_path [OF assms]
  by (cases "below bs (view f) ns") (auto simp: node_at_def)

lemma disk_call_step:
  assumes inv: "disk_inv F ok view nm t bs out f" and utf8: "utf8_tree (below bs (view f))" and c: "disk_call nm c"
  shows "\<exists>f'. backend_call (tokio_backend F t) c f = (fst (spec_call c (below bs (view f))), f') \<and>
      disk_inv F ok view nm t bs out f' \<and> below bs (view f') = snd (spec_call c (below bs (view f)))"
proof -
  obtain ns where ns: "names_ok ns" "call_path c = abs_path ns" and nm: "list_all nm ns"
    using c by (auto simp: disk_call_def elim!: canonicalE)
  have ready: "disk_ready F ok view nm t bs f" using inv by (simp add: disk_inv_def)
  note imp = disk_implements [OF inv _ nm]
  let ?T = "below bs (view f)" and ?p = "abs_path ns"
  have none: "implements ok view (put_object (tokio_backend F t) ?p d) None f"
    "implements ok view (append_object (tokio_backend F t) ?p d) None f"
    "implements ok view (delete_object (tokio_backend F t) ?p) None f"
    "implements ok view (create_namespace (tokio_backend F t) ?p) None f"
    "implements ok view (delete_namespace (tokio_backend F t) ?p) None f" if "disk_place (view f) bs ?p = None" for d
    using disk_changes [OF ready, of ?p] that by simp_all
  have up: "?T ns = None" if "ns \<noteq> []" "?T (butlast ns) \<noteq> Some NamespaceNode"
    using tree_ok_up [OF tree_below_ok [OF ready], of ns] that by metis
  have undef: "spec_put ?T ns d = None" "spec_append ?T ns d = None" "spec_delete ?T ns = None" "spec_mkdir ?T ns = None"
    "spec_rmdir ?T ns = None" if "ns \<noteq> []" "?T (butlast ns) \<noteq> Some NamespaceNode" for d
    using that up by (simp_all add: spec_put_def spec_append_def spec_delete_def spec_mkdir_def spec_rmdir_def)
  note step = disk_mutating_step [OF inv ns(1)]
  note node = node_at_abs_path [OF ready ns(1)]
  show ?thesis
  proof (cases c)
    case (PutCall p d)
    with ns step [where spec = "\<lambda>t ns. spec_put t ns d", OF imp(1) none(1) undef(1)] show ?thesis by simp
  next
    case (AppendCall p d)
    with ns step [where spec = "\<lambda>t ns. spec_append t ns d", OF imp(2) none(2) undef(2)] show ?thesis by simp
  next
    case (DeleteCall p)
    with ns step [where spec = "spec_delete", OF imp(3) none(3) undef(3)] show ?thesis by simp
  next
    case (MkdirCall p)
    with ns step [where spec = "spec_mkdir", OF imp(4) none(4) undef(4)] show ?thesis by simp
  next
    case (RmdirCall p)
    with c ns have "ns \<noteq> []" by (auto simp: disk_call_def abs_path_Nil)
    with ns RmdirCall step [where spec = "spec_rmdir", OF imp(5) [OF _ \<open>ns \<noteq> []\<close>] none(5) undef(5)] show ?thesis by simp
  next
    case (GetCall p)
    with ns disk_get [OF ready, of "abs_path ns"] inv show ?thesis
      by (cases "below bs (view f) ns" rule: option.exhaust [case_names None Some])
        (auto simp: spec_read_def node split: node.splits)
  next
    case (MetadataCall p)
    with ns disk_metadata [OF ready, of "abs_path ns"] inv show ?thesis
      by (cases "below bs (view f) ns") (auto simp: spec_read_def node)
  next
    case (ListCall p)
    show ?thesis
    proof (cases "below bs (view f) ns = Some NamespaceNode")
      case True
      then have "disk_place (view f) bs (abs_path ns) = Some ns"
        using tree_ok_up [OF tree_below_ok [OF ready], of ns] disk_place_abs_path [OF ready ns(1)] by auto
      from disk_list(1) [OF ready this True] obtain es xs where xs:
        "list_namespace (tokio_backend F t) (abs_path ns) f = (Ok xs, f)" "distinct es"
        "set es = children (below bs (view f)) ns"
        "map (\<lambda>m. (md_name m, info_of_metadata m)) xs =
          map (\<lambda>n. (shown_name n, info_of_node (the (below bs (view f) (ns @ [n]))))) es"
        by blast
      have "length xs = card (children (below bs (view f)) ns)"
        using map_eq_imp_length_eq [OF xs(4)] distinct_card [OF xs(2)] xs(3) by simp
      moreover have "(\<lambda>m. (md_name m, info_of_metadata m)) ` set xs = entries (below bs (view f)) ns"
      proof -
        have "shown_name n = utf8_lossy n" if "n \<in> children (below bs (view f)) ns" for n
          using that utf8 by (auto simp: shown_name_def utf8_lossy_valid utf8_tree_def children_def)
        then show ?thesis using arg_cong [OF xs(4), of set] xs(3) by (auto simp: entries_def)
      qed
      ultimately show ?thesis using True ns ListCall inv xs(1) by (simp add: spec_read_def listed_def)
    next
      case False
      with ns ListCall inv disk_list(2) [OF ready, of "abs_path ns"] show ?thesis
        by (auto simp: spec_read_def node split: option.split)
    qed
  qed
qed

interpretation disk_tree: tree_storage "tokio_backend F t" "disk_tree_inv F ok view nm t bs out" "\<lambda>f. below bs (view f)" "disk_call nm"
  for F ok view nm t bs out
proof
  fix f c
  assume inv: "disk_tree_inv F ok view nm t bs out f" and c: "disk_call nm c"
  then have "disk_inv F ok view nm t bs out f" "utf8_tree (below bs (view f))" by (simp_all add: disk_tree_inv_def)
  note step = disk_call_step [OF this c]
  obtain f' where f': "backend_call (tokio_backend F t) c f = (fst (spec_call c (below bs (view f))), f')"
    "disk_inv F ok view nm t bs out f'" "below bs (view f') = snd (spec_call c (below bs (view f)))"
    using step by blast
  have "list_all utf8_valid ms" if "path_names (call_path c) = Some ms" for ms
    using that c by (auto simp: disk_call_def elim!: canonicalE)
  then have "utf8_tree (below bs (view f'))"
    using inv spec_call_new [of c "below bs (view f)"] f'(3) by (auto simp: utf8_tree_def disk_tree_inv_def)
  with f' show "\<exists>f'. backend_call (tokio_backend F t) c f = (fst (spec_call c (below bs (view f))), f') \<and>
      disk_tree_inv F ok view nm t bs out f' \<and> below bs (view f') = snd (spec_call c (below bs (view f)))"
    by (auto simp: disk_tree_inv_def)
qed

subsection \<open>The backend meets the storage contract\<close>

text \<open>Storing and appending leave the directories as they are, so over a fixed set \<open>D\<close> of
  directories it is fixed which request paths lead to the same place.\<close>

definition dir_tree :: "string list set \<Rightarrow> tree" where
  "dir_tree D ns = (if ns \<in> D then Some NamespaceNode else None)"

definition disk_files ::
  "'f os_fs \<Rightarrow> ('f \<Rightarrow> bool) \<Rightarrow> ('f \<Rightarrow> tree) \<Rightarrow> (string \<Rightarrow> bool) \<Rightarrow> tokio_fs_storage \<Rightarrow> string list \<Rightarrow>
   string list set \<Rightarrow> 'f \<Rightarrow> bool" where
  "disk_files F ok view nm t bs D f \<longleftrightarrow>
     disk_ready F ok view nm t bs f \<and> D = {ns. view f ns = Some NamespaceNode}"

definition disk_content :: "('f \<Rightarrow> tree) \<Rightarrow> string list \<Rightarrow> 'f \<Rightarrow> path \<Rightarrow> bytes option" where
  "disk_content view bs f p = (case node_at (view f) bs p of Some (ObjectNode d) \<Rightarrow> Some d | _ \<Rightarrow> None)"

definition same_file :: "string list \<Rightarrow> string list set \<Rightarrow> path \<Rightarrow> path \<Rightarrow> bool" where
  "same_file bs D p q \<longleftrightarrow>
     disk_place (dir_tree D) bs p \<noteq> None \<and> disk_place (dir_tree D) bs p = disk_place (dir_tree D) bs q"

lemma walk_tree_dirs:
  "{ns. t ns = Some NamespaceNode} = {ns. t' ns = Some NamespaceNode} \<Longrightarrow> walk_tree t ss ns = walk_tree t' ss ns"
  by (induction ss arbitrary: ns) auto

lemma disk_place_dirs:
  assumes "disk_files F ok view nm t bs D f"
  shows "disk_place (view f) bs p = disk_place (dir_tree D) bs p"
proof -
  have "walk_tree (view f) (names_of (full_path bs p)) [] = walk_tree (dir_tree D) (names_of (full_path bs p)) []"
    using assms by (intro walk_tree_dirs) (simp add: disk_files_def dir_tree_def)
  then show ?thesis by (simp add: disk_place_def)
qed

lemma disk_content_eq:
  assumes "disk_files F ok view nm t bs D f"
  shows "disk_content view bs f p =
    (case disk_place (dir_tree D) bs p of
       None \<Rightarrow> None
     | Some ns \<Rightarrow> (case view f (bs @ ns) of Some (ObjectNode d) \<Rightarrow> Some d | _ \<Rightarrow> None))"
  by (simp add: disk_content_def node_at_def below_def disk_place_dirs [OF assms] split: option.split)

lemma disk_content_update:
  assumes "disk_files F ok view nm t bs D f" "disk_files F ok view nm t bs D f'"
    and "view f' = (view f)(bs @ ns \<mapsto> ObjectNode d)" "disk_place (dir_tree D) bs p = Some ns"
  shows "disk_content view bs f' q = (if same_file bs D p q then Some d else disk_content view bs f q)"
  using assms(3,4) by (auto simp: disk_content_eq [OF assms(1)] disk_content_eq [OF assms(2)] same_file_def split: option.split)

lemma disk_files_store:
  assumes "disk_files F ok view nm t bs D f" "ok f'" "view f' = (view f)(bs @ ns \<mapsto> ObjectNode d)"
    "view f (bs @ ns) \<noteq> Some NamespaceNode"
  shows "disk_files F ok view nm t bs D f'"
  using assms by (auto simp: disk_files_def disk_ready_def)

lemma disk_put_cases:
  assumes files: "disk_files F ok view nm t bs D f"
  obtains (ok) f' ns where "disk_place (dir_tree D) bs p = Some ns" "put_object (tokio_backend F t) p d f = (Ok (), f')"
      "disk_files F ok view nm t bs D f'" "view f' = (view f)(bs @ ns \<mapsto> ObjectNode d)"
    | (err) e where "put_object (tokio_backend F t) p d f = (Err (FileOperationError e), f)"
proof -
  have "disk_ready F ok view nm t bs f" using files by (simp add: disk_files_def)
  from disk_changes(1) [OF this, of p d] show ?thesis
  proof (cases rule: implements_cases)
    case (ok f' t')
    then obtain ns where ns: "disk_place (view f) bs p = Some ns" "spec_put (view f) (bs @ ns) d = Some t'"
      by (auto simp: bind_eq_Some_conv split: if_splits)
    then have t': "t' = (view f)(bs @ ns \<mapsto> ObjectNode d)" "view f (bs @ ns) \<noteq> Some NamespaceNode"
      by (auto simp: spec_put_def split: if_splits)
    with ok ns disk_files_store [OF files ok(3)] show ?thesis
      by (intro that(1)) (simp_all add: disk_place_dirs [OF files])
  qed (rule that(2))
qed

lemma disk_append_cases:
  assumes files: "disk_files F ok view nm t bs D f"
  obtains (ok) f' ns where "disk_place (dir_tree D) bs p = Some ns" "append_object (tokio_backend F t) p d f = (Ok (), f')"
      "disk_files F ok view nm t bs D f'"
      "view f' = (view f)(bs @ ns \<mapsto> ObjectNode (case disk_content view bs f p of None \<Rightarrow> d | Some c \<Rightarrow> c @ d))"
    | (err) e where "append_object (tokio_backend F t) p d f = (Err (FileOperationError e), f)" "disk_content view bs f p = None"
proof -
  have ready: "disk_ready F ok view nm t bs f" using files by (simp add: disk_files_def)
  note content = disk_content_eq [OF files, of p] and place = disk_place_dirs [OF files, of p]
  from disk_changes(2) [OF ready, of p d] show ?thesis
  proof (cases rule: implements_cases)
    case (ok f' t')
    then obtain ns where ns: "disk_place (view f) bs p = Some ns" "spec_append (view f) (bs @ ns) d = Some t'"
      by (auto simp: bind_eq_Some_conv split: if_splits)
    then have t': "t' = (view f)(bs @ ns \<mapsto> ObjectNode (node_data (view f (bs @ ns)) @ d))" "view f (bs @ ns) \<noteq> Some NamespaceNode"
      by (auto simp: spec_append_def spec_put_def split: if_splits)
    then have "node_data (view f (bs @ ns)) @ d = (case disk_content view bs f p of None \<Rightarrow> d | Some c \<Rightarrow> c @ d)"
      using ns(1) unfolding content place by (auto simp: node_data_def split: option.split node.split)
    with t' ok ns disk_files_store [OF files ok(3)] place show ?thesis by (intro that(1)) simp_all
  next
    case (err e)
    have "disk_content view bs f p = None"
    proof (rule ccontr)
      assume "disk_content view bs f p \<noteq> None"
      then obtain ns c where ns: "disk_place (view f) bs p = Some ns" "view f (bs @ ns) = Some (ObjectNode c)"
        unfolding content place by (auto split: option.splits node.splits)
      with disk_readyD(1,4,7) [OF ready] tree_ok_up [OF disk_readyD(4) [OF ready], of "bs @ ns"]
      have "list_all nm (bs @ ns)" "view f (butlast (bs @ ns)) = Some NamespaceNode" "bs @ ns \<noteq> []"
        unfolding fs_names_def by force+
      with err(2) ns show False by (auto simp: spec_append_def spec_put_def)
    qed
    with err(1) show ?thesis by (rule that(2))
  qed
qed

text \<open>Where nothing can be read, a chunk read fails or returns the last chunk.\<close>

lemma read_file_chunk_none:
  assumes "\<not> reads_anything F q f"
  shows "\<exists>r. read_file_chunk F q off n f = (r, f) \<and> r \<noteq> Panic \<and> (\<forall>c. r = Ok c \<longrightarrow> oc_is_last c)"
proof (cases "os_open F q f")
  case (Inr u)
  show ?thesis
  proof (cases "os_stat F q f")
    case (Inr m)
    let ?k = "min (unat (om_len m - off)) n"
    obtain e where "os_read F q off ?k f = Inl e"
      using assms \<open>os_open F q f = Inr u\<close> by (cases "os_read F q off ?k f") (auto simp: reads_anything_def)
    with Inr \<open>os_open F q f = Inr u\<close> show ?thesis
      by (cases "os_seek F q off f") (simp_all add: read_file_chunk_def os_ask_def Let_def)
  qed (use Inr in \<open>simp add: read_file_chunk_def os_ask_def\<close>)
qed (simp add: read_file_chunk_def os_ask_def)

lemma disk_chunk:
  assumes "disk_ready F ok view nm t bs f"
  shows "disk_content view bs f p = Some d \<Longrightarrow> vec_ok d \<Longrightarrow> 0 < n \<Longrightarrow>
      \<exists>c. get_object_chunk (tokio_backend F t) p off n f = (Ok c, f) \<and> chunk_of d off n c"
    and "disk_content view bs f p = None \<Longrightarrow>
      \<exists>r. get_object_chunk (tokio_backend F t) p off n f = (r, f) \<and> r \<noteq> Panic \<and> (\<forall>c. r = Ok c \<longrightarrow> oc_is_last c)"
proof -
  show "\<exists>c. get_object_chunk (tokio_backend F t) p off n f = (Ok c, f) \<and> chunk_of d off n c"
    if d: "disk_content view bs f p = Some d" "vec_ok d" "0 < n"
    using assms
  proof (cases rule: resolved_read [where p = p])
    case (at ms)
    with d(1) have "view f ms = Some (ObjectNode d)" by (auto simp: disk_content_def split: option.splits node.splits)
    with fs_readsD(2) [OF assms at(1)] have "reads_file F (abs_path ms) f d" by blast
    from read_file_chunk_ok [OF this d(2,3)] at(2) show ?thesis by (simp add: tokio_backend_def state_bind_Ok)
  qed (use d(1) in \<open>simp add: disk_content_def\<close>)
  show "\<exists>r. get_object_chunk (tokio_backend F t) p off n f = (r, f) \<and> r \<noteq> Panic \<and> (\<forall>c. r = Ok c \<longrightarrow> oc_is_last c)"
    if none: "disk_content view bs f p = None"
    using assms
  proof (cases rule: resolved_read [where p = p])
    case (at ms)
    with none have "view f ms \<noteq> Some (ObjectNode d)" for d by (auto simp: disk_content_def)
    then have "\<not> reads_anything F (abs_path ms) f" by (rule fs_readsD(3) [OF assms at(1)])
    from read_file_chunk_none [OF this, of off n] at(2) show ?thesis by (simp add: tokio_backend_def state_bind_Ok)
  next
    case (none e)
    then show ?thesis by (simp add: tokio_backend_def state_bind_Err)
  qed
qed

interpretation disk: storage_contract "tokio_backend F t" "disk_files F ok view nm t bs D" "disk_content view bs" "same_file bs D"
  for F ok view nm t bs D
proof
  fix f p d n off
  assume files: "disk_files F ok view nm t bs D f"
  then have ready: "disk_ready F ok view nm t bs f" by (simp add: disk_files_def)
  note put = disk_put_cases [OF files, of p d] and app = disk_append_cases [OF files, of p d]
  show "fst (put_object (tokio_backend F t) p d f) \<noteq> Panic" by (rule put) auto
  show "disk_files F ok view nm t bs D f' \<and> (\<forall>q. disk_content view bs f' q = (if same_file bs D p q then Some d else disk_content view bs f q))"
    if "put_object (tokio_backend F t) p d f = (Ok u, f')" for u f'
    by (rule put) (use that disk_content_update [OF files] in auto)
  show "f' = f" if "put_object (tokio_backend F t) p d f = (Err e, f')" for e f'
    by (rule put) (use that in auto)
  show "get_object (tokio_backend F t) p f = (Ok d, f)" if "disk_content view bs f p = Some d"
    using that by (intro disk_get(1) [OF ready]) (auto simp: disk_content_def split: option.splits node.splits)
  show "\<exists>e. get_object (tokio_backend F t) p f = (Err e, f)" if "disk_content view bs f p = None"
  proof -
    have "node_at (view f) bs p \<noteq> Some (ObjectNode c)" for c using that by (auto simp: disk_content_def)
    from disk_get(2) [OF ready this] show ?thesis by blast
  qed
  show "\<exists>c. get_object_chunk (tokio_backend F t) p off n f = (Ok c, f) \<and> chunk_of d off n c"
    if "disk_content view bs f p = Some d" "vec_ok d" "0 < n"
    by (rule disk_chunk(1) [OF ready that])
  show "\<exists>r. get_object_chunk (tokio_backend F t) p off n f = (r, f) \<and> r \<noteq> Panic \<and> (\<forall>c. r = Ok c \<longrightarrow> oc_is_last c)"
    if "disk_content view bs f p = None"
    by (rule disk_chunk(2) [OF ready that])
  show "fst (append_object (tokio_backend F t) p d f) \<noteq> Panic" by (rule app) auto
  show "disk_files F ok view nm t bs D f' \<and> (\<forall>q. disk_content view bs f' q =
      (if same_file bs D p q then Some (case disk_content view bs f p of None \<Rightarrow> d | Some c \<Rightarrow> c @ d) else disk_content view bs f q))"
    if "append_object (tokio_backend F t) p d f = (Ok u, f')" for u f'
    by (rule app) (use that disk_content_update [OF files] in auto)
  show "f' = f" if "append_object (tokio_backend F t) p d f = (Err e, f')" for e f'
    by (rule app) (use that in auto)
  show "fst (append_object (tokio_backend F t) p d f) = Ok ()" if "disk_content view bs f p = Some c" for c
    by (rule app) (use that in auto)
  show "same_file bs D p p" if "disk_content view bs f p \<noteq> None"
    using that by (auto simp: disk_content_eq [OF files] same_file_def split: option.splits)
  show "same_file bs D p p" if "fst (put_object (tokio_backend F t) p d f) = Ok ()"
    by (rule put) (use that in \<open>auto simp: same_file_def\<close>)
  show "same_file bs D p p" if "fst (append_object (tokio_backend F t) p d f) = Ok ()"
    by (rule app) (use that in \<open>auto simp: same_file_def\<close>)
qed

sublocale transfer_carrier \<subseteq> disk_session: file_session "tokio_backend F t" "disk_files F ok view nm t bs D"
  "disk_content view bs" "same_file bs D" rf cf for F ok view nm t bs D
  by unfold_locales

subsection \<open>Removing the base directory\<close>

text \<open>Unlike the memory storage, the backend removes its root namespace when it is empty, and
  then refuses every path below it.\<close>

lemma disk_rmdir_root:
  assumes ready: "disk_ready F ok view nm t bs f" and bs: "bs \<noteq> []" and empty: "children (view f) bs = {}"
  obtains f' where "delete_namespace (tokio_backend F t) ''/'' f = (Ok (), f')" "ok f'" "view f' = (view f)(bs := None)"
proof -
  have "disk_place (view f) bs ''/'' = Some []"
    using disk_place_abs_path [OF ready, of "[]"] by (simp add: abs_path_Nil)
  moreover have "spec_rmdir (view f) bs = Some ((view f)(bs := None))"
    using bs empty disk_readyD(7) [OF ready] by (auto simp: spec_rmdir_def children_def)
  ultimately have "implements ok view (delete_namespace (tokio_backend F t) ''/'') (Some ((view f)(bs := None))) f"
    using disk_changes(5) [OF ready, of "''/''"] by simp
  then show ?thesis by (cases rule: implements_cases) (use that in auto)
qed

lemma missing_base_refuses:
  assumes fs: "plain_fs F ok view nm" "ok f" and bs: "names_ok bs" "fo_base_dir (tf_file_ops t) = abs_path bs" "view f bs = None"
    and ns: "names_ok ns" "ns \<noteq> []"
  shows "fo_resolve_path F (tf_file_ops t) (abs_path ns) f = (Err (FileOperationError ''Invalid path''), f)"
proof -
  have names: "fs_names F view nm f" "tree_ok (view f)" using fs by (auto simp: plain_fs_def fs_names_def)
  have gone: "view f (bs @ ms) = None" for ms
    using bs(3) names(2)
    by (induction ms rule: rev_induct) (auto simp: tree_ok_def simp flip: append_assoc, metis option.distinct(1) option.exhaust)
  have full: "names_of (full_path bs (abs_path ns)) = bs @ ns" using bs(1) ns(1) by (rule full_path_abs_path)
  have stuck: "\<exists>e. os_canonicalize F p f = Inl e" if p: "is_absolute p" "names_of p = bs @ ms" "names_ok ms" for p ms
  proof (cases "os_canonicalize F p f")
    case (Inr q)
    then obtain ks where ks: "walk_tree (view f) (names_of p) [] = Some ks" "view f ks \<noteq> None"
      using names(1) p(1) unfolding fs_names_def by blast
    have "names_ok (bs @ ms)" using bs(1) p(3) by simp
    from walk_names_tree [OF names(2) this] ks(1) p(2) have "ks = bs @ ms" by (simp split: if_split_asm)
    with ks(2) gone [of ms] show ?thesis by simp
  qed simp
  obtain q where "parent (full_path bs (abs_path ns)) = Some q" "is_absolute q" "names_of q = bs @ butlast ns"
    using parent_absolute [of "full_path bs (abs_path ns)" "bs @ butlast ns" "last ns"] full ns(2) by auto
  with stuck [of q "butlast ns"] stuck [OF _ full ns(1)] names_ok_butlast [OF ns(1)] bs(2) show ?thesis
    by (auto simp: fo_resolve_path_def full_path_def [symmetric] canonicalize_parent_def Let_def)
qed

lemma resolve_Err_refuses:
  assumes "fo_resolve_path F (tf_file_ops t) p f = (Err e, f)"
  shows "put_object (tokio_backend F t) p d f = (Err e, f)" "get_object (tokio_backend F t) p f = (Err e, f)"
    "append_object (tokio_backend F t) p d f = (Err e, f)" "create_namespace (tokio_backend F t) p f = (Err e, f)"
    "list_namespace (tokio_backend F t) p f = (Err e, f)" "metadata (tokio_backend F t) p f = (Err e, f)"
  using assms
  by (simp_all add: tokio_backend_def write_file_def read_file_def append_file_def create_dir_def list_dir_def file_info_op_def
      state_bind_def)

subsection \<open>Sessions over the file system\<close>

text \<open>Over a storage that refuses everything, a connection with no transfer under way answers every
  command but a ping and a farewell with an error, and nothing changes.\<close>

lemma refuses_on_storage: "refuses op s \<Longrightarrow> refuses (on_storage op) (s, dir)"
  by (auto simp: refuses_def on_storage_def)

lemma refused_command:
  assumes "refuses_all B s" "c \<noteq> Ping" "c \<noteq> Terminate"
  shows "refuses (handle_command B c) (s, dir)"
proof -
  note no = assms(1) [unfolded refuses_all_def, rule_format]
  have "refuses (handle_change_namespace B p) (s, dir)" for p
    using no by (simp add: refuses_def handle_change_namespace_def Let_def)
  moreover have "refuses (on_storage (handle_create_object B p dir)) (s, dir)" "refuses (on_storage (handle_read_object B p dir)) (s, dir)"
    "refuses (on_storage (handle_write_object B p d dir)) (s, dir)" "refuses (on_storage (handle_append_object B p d dir)) (s, dir)"
    "refuses (on_storage (handle_delete_object B p dir)) (s, dir)" "refuses (on_storage (handle_upload_object B p d dir)) (s, dir)"
    "refuses (on_storage (handle_object_info B p dir)) (s, dir)" "refuses (on_storage (handle_create_namespace B p dir)) (s, dir)"
    "refuses (on_storage (handle_list_namespace B p dir)) (s, dir)" "refuses (on_storage (handle_delete_namespace B p dir)) (s, dir)" for p d
    unfolding handle_create_object_def handle_read_object_def handle_write_object_def handle_append_object_def handle_delete_object_def
      handle_upload_object_def handle_object_info_def handle_create_namespace_def handle_list_namespace_def handle_delete_namespace_def Let_def
    by (intro refuses_on_storage refuses_bind; simp add: no)+
  ultimately show ?thesis
    using assms(2,3) by (cases c) (simp_all add: refuses_def)
qed

lemma refused_everywhere:
  assumes "refuses_all B (cn_storage cn)" "cn_active_write cn = None" "c \<noteq> Ping" "c \<noteq> Terminate"
  shows "\<exists>m. conn_handle_command queue_channel B c cn = Some (Ok (), cn\<lparr>cn_channel := cn_channel cn @ [ErrorOutput m]\<rparr>)"
proof -
  note no = assms(1) [unfolded refuses_all_def, rule_format]
  have starts: "refuses (begin_object_write B p mode k dir) (cn_storage cn)" for p mode k dir
    using no unfolding begin_object_write_def Let_def by (intro refuses_bind) (cases mode; simp)
  have "\<exists>m. send_object_content_chunks queue_channel B p cn = Some (Ok (), cn\<lparr>cn_channel := cn_channel cn @ [ErrorOutput m]\<rparr>)" for p
  proof -
    have "refuses (read_object_chunk B p (cn_current_dir cn) 0) (cn_storage cn)"
      using no unfolding read_object_chunk_def by (intro refuses_bind) simp
    then obtain e where "read_object_chunk B p (cn_current_dir cn) 0 (cn_storage cn) = (Err e, cn_storage cn)"
      by (auto simp: refuses_def)
    then show ?thesis
      unfolding send_object_content_chunks_def by (subst send_chunks_from.simps) (auto simp: conn_send_def)
  qed
  moreover have "\<exists>m. conn_process queue_channel B c cn = (Ok (), cn\<lparr>cn_channel := cn_channel cn @ [ErrorOutput m]\<rparr>)"
    using refused_command [OF assms(1,3,4), of "cn_current_dir cn"]
    by (auto simp: refuses_def conn_process_def process_command_def conn_send_def)
  moreover have "\<exists>m. conn_begin_object_write queue_channel B p mode k cn = (Ok (), cn\<lparr>cn_channel := cn_channel cn @ [ErrorOutput m]\<rparr>)" for p mode k
    using starts [of p mode k "cn_current_dir cn"] assms(2) by (auto simp: refuses_def conn_begin_object_write_def conn_send_def)
  ultimately show ?thesis
    using assms(2-4) by (cases c) (auto simp: conn_write_object_chunk_def conn_send_def)
qed

lemma disk_begin_write:
  assumes ready: "disk_ready F ok view nm t bs f" and pl: "disk_place (view f) bs (resolve_path p dir) = Some ns"
    and ns: "list_all nm ns" "below bs (view f) ns \<noteq> Some NamespaceNode"
  shows "\<exists>a s0. begin_object_write (tokio_backend F t) p Write n dir f = (Ok a, s0)"
    and "\<exists>a s0. begin_object_write (tokio_backend F t) p Upload n dir f = (Ok a, s0)"
proof -
  have "disk_inv F ok view nm t bs (view f) f" using ready by (simp add: disk_inv_def)
  note put = disk_implements(1) [OF this pl ns(1), of "[]"]
  have "ns \<noteq> []" using ns(2) disk_readyD(7) [OF ready] by (auto simp: below_def)
  moreover have "below bs (view f) (butlast ns) = Some NamespaceNode"
    using ready by (cases rule: resolve_cases [where p = "resolve_path p dir"])
      (use pl butlast_below [OF \<open>ns \<noteq> []\<close>, of bs "view f"] in auto)
  ultimately obtain f' where "put_object (tokio_backend F t) (resolve_path p dir) [] f = (Ok (), f')"
    using put ns(2) by (auto simp: implements_def spec_put_def)
  then show "\<exists>a s0. begin_object_write (tokio_backend F t) p Write n dir f = (Ok a, s0)"
    "\<exists>a s0. begin_object_write (tokio_backend F t) p Upload n dir f = (Ok a, s0)"
    by (simp_all add: begin_object_write_def Let_def)
qed

lemma disk_stored:
  assumes "disk_files F ok view nm t bs D f" "disk_files F ok view nm t bs D f'"
    and "disk_place (view f) bs p = Some ns" "disk_content view bs f' p = Some d"
  shows "view f' (bs @ ns) = Some (ObjectNode d)"
  using assms(3,4) unfolding disk_content_eq [OF assms(2)] disk_place_dirs [OF assms(1)]
  by (auto split: option.splits node.splits)

text \<open>A write, a read and an upload over the file system, for every carrier of transfers.\<close>

context transfer_carrier
begin

lemma disk_line_ok:
  assumes "disk_ready OS ok view nm t bs (cn_storage cn)" "cn_channel cn = []" "cn_active_write cn = None"
    and "word_ok p" "ws \<noteq> []" "list_all word_ok ws" "vec_ok (bytes_of (join_words ws))"
    and "disk_place (view (cn_storage cn)) bs (resolve_path p (cn_current_dir cn)) = Some ns" "list_all nm ns"
    and "view (cn_storage cn) (bs @ ns) \<noteq> Some NamespaceNode"
    and "cf (BeginObjectWrite p Write (len_u64 (bytes_of (join_words ws))))" "cf (ReadObject p)"
  shows "\<exists>f' r. send_command dbg chrono (bounded_session cf rf (tokio_backend OS t)) L (join_words (''write'' # p # ws)) (over m cn) =
      Some (Ok r, over m (cn\<lparr>cn_storage := f'\<rparr>)) \<and> fr_success r \<and> disk_ready OS ok view nm t bs f' \<and>
    view f' (bs @ ns) = Some (ObjectNode (bytes_of (join_words ws))) \<and>
    {ms. view f' ms = Some NamespaceNode} = {ms. view (cn_storage cn) ms = Some NamespaceNode} \<and>
    send_command dbg chrono (bounded_session cf rf (tokio_backend OS t)) L (join_words [''read'', p]) (over m (cn\<lparr>cn_storage := f'\<rparr>)) =
      Some (Ok (format_object_content (take READ_PREVIEW_LIMIT (bytes_of (join_words ws)))
              (len_u64 (bytes_of (join_words ws))) (READ_PREVIEW_LIMIT < length (join_words ws))),
            over m (cn\<lparr>cn_storage := f'\<rparr>))"
proof -
  let ?D = "{ms. view (cn_storage cn) ms = Some NamespaceNode}"
  have files: "disk_files OS ok view nm t bs ?D (cn_storage cn)" using assms(1) by (simp add: disk_files_def)
  have free: "below bs (view (cn_storage cn)) ns \<noteq> Some NamespaceNode" using assms(10) by (simp add: below_def)
  obtain a s0 where "begin_object_write (tokio_backend OS t) p Write (len_u64 (bytes_of (join_words ws)))
      (cn_current_dir cn) (cn_storage cn) = (Ok a, s0)"
    using disk_begin_write(1) [OF assms(1,8,9) free] by blast
  then obtain f' r where w: "send_command dbg chrono (bounded_session cf rf (tokio_backend OS t)) L (join_words (''write'' # p # ws)) (over m cn) =
      Some (Ok r, over m (cn\<lparr>cn_storage := f'\<rparr>))" "fr_success r" "disk_files OS ok view nm t bs ?D f'"
    "disk_content view bs f' (resolve_path p (cn_current_dir cn)) = Some (bytes_of (join_words ws))"
    using disk_session.write_line_ok [OF files assms(2-5) _ assms(7) _ assms(11)] assms(6) by (fastforce simp: list_all_iff)
  moreover have "view f' (bs @ ns) = Some (ObjectNode (bytes_of (join_words ws)))"
    using disk_stored [OF files w(3) assms(8) w(4)] .
  ultimately show ?thesis
    using disk_session.read_line_ok [of OS ok view nm t bs ?D "cn\<lparr>cn_storage := f'\<rparr>" p "bytes_of (join_words ws)"] assms(2,4,7,12)
    by (auto simp: disk_files_def)
qed

lemma disk_upload_ok:
  assumes "local_file L src d" "vec_ok d" "lf_open L src = Inr ()"
    and "disk_ready OS ok view nm t bs (cn_storage cn)" "cn_channel cn = []" "cn_active_write cn = None" "utf8_valid dst"
    and "disk_place (view (cn_storage cn)) bs (resolve_path dst (cn_current_dir cn)) = Some ns" "list_all nm ns"
    and "view (cn_storage cn) (bs @ ns) \<noteq> Some NamespaceNode" "cf (BeginObjectWrite dst Upload (len_u64 d))"
  shows "\<exists>f'. send_upload dbg (bounded_session cf rf (tokio_backend OS t)) L src dst (len_u64 d) (over m cn) =
      Some (Ok (transfer_complete (len_u64 d)), over m (cn\<lparr>cn_storage := f'\<rparr>)) \<and> disk_ready OS ok view nm t bs f' \<and>
    view f' (bs @ ns) = Some (ObjectNode d)"
proof -
  let ?D = "{ms. view (cn_storage cn) ms = Some NamespaceNode}"
  have files: "disk_files OS ok view nm t bs ?D (cn_storage cn)" using assms(4) by (simp add: disk_files_def)
  have free: "below bs (view (cn_storage cn)) ns \<noteq> Some NamespaceNode" using assms(10) by (simp add: below_def)
  obtain a s0 where "begin_object_write (tokio_backend OS t) dst Upload (len_u64 d) (cn_current_dir cn) (cn_storage cn) = (Ok a, s0)"
    using disk_begin_write(2) [OF assms(4,8,9) free] by blast
  from disk_session.upload_ok [OF assms(1-3) files assms(5-7) this assms(11)] obtain f' where
    up: "send_upload dbg (bounded_session cf rf (tokio_backend OS t)) L src dst (len_u64 d) (over m cn) =
      Some (Ok (transfer_complete (len_u64 d)), over m (cn\<lparr>cn_storage := f'\<rparr>))" "disk_files OS ok view nm t bs ?D f'"
    "disk_content view bs f' (resolve_path dst (cn_current_dir cn)) = Some d" by blast
  with disk_stored [OF files up(2) assms(8) up(3)] show ?thesis by (auto simp: disk_files_def)
qed

end

lemmas disk_write_read = free_carrier.disk_line_ok [simplified]
lemmas disk_upload = free_carrier.disk_upload_ok [simplified]

lemma empty_base:
  assumes "disk_ready F ok view nm t bs f" "children (view f) bs = {}"
  shows "below bs (view f) = root_tree"
proof
  fix ns
  note ok = tree_below_ok [OF assms(1)]
  have first: "below bs (view f) [n] = None" for n using assms(2) by (auto simp: children_def below_def)
  have "below bs (view f) (n # ms) = None" for n ms
  proof (induction ms rule: rev_induct)
    case (snoc m ms)
    then show ?case using tree_okD [OF ok, of "n # ms" m] by (cases "below bs (view f) (n # ms @ [m])") auto
  qed (rule first)
  then show "below bs (view f) ns = root_tree ns"
    using ok by (cases ns) (auto simp: root_tree_def tree_ok_def)
qed

end
