(* ===== verification/Programs.thy ===== *)
theory Programs
  imports Batch Tui_Client Server Disk_Storage
begin

section \<open>The two programs (client/src/main.rs, client/src/ui/terminal.rs, server/src/main.rs)\<close>

text \<open>
  What the two \<open>main\<close> functions do with parsed arguments, from the identity to the exit code.
  Argument parsing, logging and the output of the terminal library are parameters: the
  arguments are given, creating the log file is an operation of the file system, and the
  terminal is a state with five operations that may fail.  \<open>main\<close> of the client ends with a
  result or is still running when the rounds given to the terminal client are used up.  \<open>main\<close>
  of the server is modelled up to the point where it serves; from there on the theory \<open>Server\<close> has
  its steps.

  Shown here: nothing happens before the identity is known to be good; the exit status of
  a batch is zero exactly when every command succeeded; the terminal is put back unless the
  client panics or its set-up fails half-way; a restarted server has the identity it had, and
  the printed identity is what a client can pin; a server that serves is confined to
  the directory it prints, or refuses every path.
\<close>

subsection \<open>The terminal\<close>

record 't terminal_ops =
  enter_alternate_screen :: "'t \<Rightarrow> (string + unit) \<times> 't"
  enable_raw_mode :: "'t \<Rightarrow> (string + unit) \<times> 't"
  terminal_new :: "'t \<Rightarrow> (string + unit) \<times> 't"
  leave_alternate_screen :: "'t \<Rightarrow> (string + unit) \<times> 't"
  disable_raw_mode :: "'t \<Rightarrow> (string + unit) \<times> 't"

definition io_step :: "('s \<Rightarrow> (string + 'a) \<times> 's) \<Rightarrow> 's \<Rightarrow> 'a anyhow \<times> 's" where
  "io_step op s = apfst io_anyhow (op s)"

definition terminal_init :: "'t terminal_ops \<Rightarrow> 't \<Rightarrow> unit anyhow \<times> 't" where
  "terminal_init T =
     any_then (io_step (enter_alternate_screen T)) (\<lambda>_.
     any_then (io_step (enable_raw_mode T)) (\<lambda>_. io_step (terminal_new T)))"

definition terminal_restore :: "'t terminal_ops \<Rightarrow> 't \<Rightarrow> unit anyhow \<times> 't" where
  "terminal_restore T =
     any_then (io_step (leave_alternate_screen T)) (\<lambda>_. io_step (disable_raw_mode T))"

subsection \<open>The client\<close>

record batch_args =
  ba_address :: string
  ba_port :: u16
  ba_commands_file :: string
  ba_output :: batch_output_format

definition batch_args_default :: "string \<Rightarrow> batch_args" where
  "batch_args_default source =
     \<lparr>ba_address = ''127.0.0.1'', ba_port = 5555, ba_commands_file = source, ba_output = Human\<rparr>"

datatype client_mode = Tui | Batch batch_args

record client_args =
  ca_server_identity :: string
  ca_mode :: "client_mode option"

text \<open>What the client finds around it, and the state it leaves behind: files, terminal, output.\<close>

record ('f, 't, 'w) client_world =
  cw_env :: batch_env
  cw_std :: "'f std_fs"
  cw_create :: "path \<Rightarrow> 'f \<Rightarrow> (string + unit) \<times> 'f"
  cw_stdin :: "(string + string) list"
  cw_opened :: "'f \<Rightarrow> string \<Rightarrow> string + (string + string) list"
  cw_stdout :: "'w writer"
  cw_terminal :: "'t terminal_ops"
  cw_layout :: splitter
  cw_start :: instant
  cw_welcome :: instant
  cw_hint :: instant
  cw_ticks :: "tui_tick list"

record ('f, 't, 'w) client_state =
  cl_files :: 'f
  cl_terminal :: 't
  cl_output :: 'w

definition parse_server_identity ::
  "('f, 't, 'w) client_world \<Rightarrow> string \<Rightarrow> 'f \<Rightarrow> server_identity_public_key anyhow" where
  "parse_server_identity W input f = res_anyhow (from_hex_or_file (be_identity (cw_env W)) (cw_std W) input f)"

definition world_client :: "('f, 't, 'w) client_world \<Rightarrow> link client_env" where
  "world_client W =
     secure_client_env (be_identity (cw_env W)) (be_crypto (cw_env W)) (be_prost (cw_env W)) (be_dial (cw_env W))
       (be_debug (cw_env W)) (be_chrono (cw_env W)) (be_files (cw_env W))"

definition run_tui ::
  "('f, 't, 'w) client_world \<Rightarrow> server_identity_public_key \<Rightarrow> 't \<Rightarrow> (unit anyhow progress \<times> 't) option" where
  "run_tui W identity t =
     (case terminal_init (cw_terminal W) t of
        (Done _, t1) \<Rightarrow>
          (case tui_client_with_server_identity (cw_start W) identity of
             Ok c \<Rightarrow>
               (case tui_run (cw_layout W) (world_client W) (cw_welcome W) (cw_hint W) (cw_ticks W) c of
                  None \<Rightarrow> None
                | Some (StillRunning, _) \<Rightarrow> Some (StillRunning, t1)
                | Some (Ended Crashed, _) \<Rightarrow> Some (Ended Crashed, t1)
                | Some (Ended result, _) \<Rightarrow>
                    Some (apfst Ended (any_then (terminal_restore (cw_terminal W)) (\<lambda>_ t2. (result, t2)) t1)))
           | _ \<Rightarrow> Some (Ended Crashed, t1))
      | (r, t1) \<Rightarrow> Some (Ended r, t1))"

definition run_batch_mode ::
  "('f, 't, 'w) client_world \<Rightarrow> batch_args \<Rightarrow> server_identity_public_key \<Rightarrow> 'f \<Rightarrow> 'w \<Rightarrow> (exit_code anyhow \<times> 'w) option" where
  "run_batch_mode W args identity f w =
     (case read_commands_from_source (cw_stdin W) (cw_opened W f) (ba_commands_file args) of
        Done cs \<Rightarrow>
          map_option (\<lambda>(r, _, w'). (any_bind r (\<lambda>s. Done (batch_exit s)), w'))
            (run_batch (cw_env W) (cw_stdout W)
               \<lparr>bg_address = ba_address args, bg_port = ba_port args, bg_commands = cs, bg_output = ba_output args\<rparr>
               identity w)
      | Failed e \<Rightarrow> Some (Failed e, w)
      | Crashed \<Rightarrow> Some (Crashed, w))"

definition client_main ::
  "('f, 't, 'w) client_world \<Rightarrow> client_args \<Rightarrow> ('f, 't, 'w) client_state \<Rightarrow>
   (exit_code anyhow progress \<times> ('f, 't, 'w) client_state) option" where
  "client_main W args s =
     (case parse_server_identity W (ca_server_identity args) (cl_files s) of
        Done identity \<Rightarrow>
          (case io_step (cw_create W ''fenris-client.log'') (cl_files s) of
             (Done _, f) \<Rightarrow>
               (case unwrap_or (ca_mode args) Tui of
                  Tui \<Rightarrow>
                    map_option (\<lambda>(p, t). (case p of StillRunning \<Rightarrow> StillRunning | Ended r \<Rightarrow> Ended (any_bind r (\<lambda>_. Done ExitSuccess)),
                        s\<lparr>cl_files := f, cl_terminal := t\<rparr>))
                      (run_tui W identity (cl_terminal s))
                | Batch b \<Rightarrow>
                    map_option (\<lambda>(r, w). (Ended r, s\<lparr>cl_files := f, cl_output := w\<rparr>))
                      (run_batch_mode W b identity f (cl_output s)))
           | (Failed e, f) \<Rightarrow> Some (Ended (Failed e), s\<lparr>cl_files := f\<rparr>)
           | (Crashed, f) \<Rightarrow> Some (Ended Crashed, s\<lparr>cl_files := f\<rparr>))
      | Failed e \<Rightarrow> Some (Ended (Failed e), s)
      | Crashed \<Rightarrow> Some (Ended Crashed, s))"

text \<open>The exit status the standard library gives to the result of \<open>main\<close>.\<close>

fun exit_status :: "exit_code anyhow \<Rightarrow> nat" where
  "exit_status (Done ExitSuccess) = 0"
| "exit_status (Done ExitFailure) = 1"
| "exit_status (Failed e) = 1"
| "exit_status Crashed = 101"

subsection \<open>The server\<close>

record server_instance =
  sn_state :: server_state
  sn_storage :: tokio_fs_storage
  sn_identity :: "server_identity_key option"
  sn_address :: string

record 'f server_world =
  sw_identity :: identity_primitives
  sw_std :: "'f std_fs"
  sw_os :: "'f os_fs"
  sw_seed :: nat
  sw_bind :: "string \<Rightarrow> io_error option"
  sw_local_addr :: "string \<Rightarrow> io_error + string"
  sw_debug_path :: "path \<Rightarrow> string"

record 'f server_host =
  sh_files :: 'f
  sh_output :: "string list"

definition server_bind ::
  "'f server_world \<Rightarrow> string \<Rightarrow> tokio_fs_storage \<Rightarrow> server_config \<Rightarrow> server_identity_key option \<Rightarrow> server_instance res" where
  "server_bind W addr storage config identity =
     res_map (\<lambda>s. \<lparr>sn_state = s, sn_storage = storage, sn_identity = identity, sn_address = addr\<rparr>)
       (bind_with_identity config (sw_bind W addr))"

definition bind_plain ::
  "'f server_world \<Rightarrow> string \<Rightarrow> tokio_fs_storage \<Rightarrow> server_config \<Rightarrow> server_instance res" where
  "bind_plain W addr storage config = server_bind W addr storage config None"

definition bind_authenticated ::
  "'f server_world \<Rightarrow> string \<Rightarrow> tokio_fs_storage \<Rightarrow> server_identity_key \<Rightarrow> server_config \<Rightarrow> server_instance res" where
  "bind_authenticated W addr storage key config = server_bind W addr storage config (Some key)"

definition local_addr :: "'f server_world \<Rightarrow> server_instance \<Rightarrow> string res" where
  "local_addr W s = (case sw_local_addr W (sn_address s) of Inl e \<Rightarrow> Err (NetworkError e) | Inr a \<Rightarrow> Ok a)"

definition load_or_create_server_identity ::
  "'f server_world \<Rightarrow> path \<Rightarrow> 'f \<Rightarrow> server_identity_key anyhow \<times> 'f" where
  "load_or_create_server_identity W p f =
     apfst res_anyhow (load_or_generate (sw_identity W) (sw_std W) (sw_seed W) p f)"

definition println :: "string \<Rightarrow> 'f server_host \<Rightarrow> unit anyhow \<times> 'f server_host" where
  "println l h = (Done (), h\<lparr>sh_output := sh_output h @ [l]\<rparr>)"

definition asked :: "'a anyhow \<Rightarrow> 'f server_host \<Rightarrow> 'a anyhow \<times> 'f server_host" where
  "asked r h = (r, h)"

definition identity_of_host ::
  "'f server_world \<Rightarrow> path \<Rightarrow> 'f server_host \<Rightarrow> server_identity_key anyhow \<times> 'f server_host" where
  "identity_of_host W p h =
     (let (r, f) = load_or_create_server_identity W p (sh_files h) in (r, h\<lparr>sh_files := f\<rparr>))"

definition canonical_base :: "'f server_world \<Rightarrow> path \<Rightarrow> 'f server_host \<Rightarrow> path anyhow \<times> 'f server_host" where
  "canonical_base W p h = (io_anyhow (os_canonicalize (sw_os W) p (sh_files h)), h)"

definition identity_line :: "'f server_world \<Rightarrow> server_identity_key \<Rightarrow> string" where
  "identity_line W key = ''Server identity: '' @ public_to_hex (sw_identity W) (public_key (sw_identity W) key)"

text \<open>\<open>main\<close> up to \<open>server.run()\<close>, which asks for the address once more.\<close>

definition server_main :: "'f server_world \<Rightarrow> server_args \<Rightarrow> 'f server_host \<Rightarrow> server_instance anyhow \<times> 'f server_host" where
  "server_main W args h =
     (let storage = tokio_fs_storage_new (sw_os W) (arg_base_dir args) (sh_files h);
          bind_addr = ''localhost:'' @ show_nat (unat (arg_port args)) in
      any_then (identity_of_host W (arg_identity_key args)) (\<lambda>key.
      any_then (asked (res_anyhow (bind_authenticated W bind_addr storage key (main_config args)))) (\<lambda>server.
      any_then (println ''Fenris Server v0.1.0'') (\<lambda>_.
      any_then (asked (res_anyhow (local_addr W server))) (\<lambda>addr.
      any_then (println (''Listening on '' @ addr)) (\<lambda>_.
      any_then (canonical_base W (arg_base_dir args)) (\<lambda>base.
      any_then (println (''Base directory: '' @ sw_debug_path W base)) (\<lambda>_.
      any_then (println (identity_line W key)) (\<lambda>_.
      any_then (println (''Max connections: '' @ show_nat (arg_max_connections args))) (\<lambda>_.
      any_then (println ''Press Ctrl+C to stop'') (\<lambda>_.
      any_then (asked (res_anyhow (local_addr W server))) (\<lambda>_.
        asked (Done server)))))))))))) h)"

subsection \<open>The exit status of a batch\<close>

text \<open>The manager with which a batch starts, and how it sends.\<close>

definition batch_connected :: "batch_env \<Rightarrow> batch_args \<Rightarrow> server_identity_public_key \<Rightarrow> link connection_manager \<Rightarrow> bool" where
  "batch_connected E b identity m \<longleftrightarrow>
     (\<exists>m0. with_server_identity identity = Ok m0 \<and>
        state_bind (set_server_info \<lparr>si_address = ba_address b, si_port = ba_port b\<rparr>)
          (\<lambda>_. connect (be_identity E) (be_crypto E) (be_dial E)) m0 = (Ok (), m))"

definition batch_send :: "batch_env \<Rightarrow> string \<Rightarrow> link connection_manager \<Rightarrow> (formatted_response res \<times> link connection_manager) option" where
  "batch_send E = send_command (be_debug E) (be_chrono E) (secure_client_channel (be_prost E)) (be_files E)"

text \<open>A writer that always takes what it is given.\<close>

definition writes_all :: "'w writer \<Rightarrow> bool" where
  "writes_all wr \<longleftrightarrow> (\<forall>t w. fst (wr t w) = Inr ())"

lemma write_pieces_all: "writes_all wr \<Longrightarrow> \<exists>w'. write_pieces wr ts w = (Done (), w')"
proof (induction ts arbitrary: w)
  case (Cons t ts)
  obtain w1 where "wr t w = (Inr (), w1)"
    using Cons.prems by (metis old.unit.exhaust prod.collapse writes_all_def)
  with Cons show ?case by simp
qed simp

lemma write_result_all: "writes_all wr \<Longrightarrow> \<exists>w'. write_result json wr fmt r w = (Done (), w')"
  by (cases fmt) (simp_all add: write_result_def write_human_result_def write_json_result_def write_pieces_all del: write_pieces.simps)

lemma run_loop_all:
  assumes "\<And>r w. \<exists>w'. out r w = (Done (), w')"
    and "length (answers send cs m) = length cs" "list_all fr_success (answers send cs m)"
  shows "\<exists>m' w'. run_loop send out cs failed m w = Some (Done (failed, False), m', w')"
  using assms(2,3)
proof (induction cs arbitrary: m w)
  case (Cons c cs)
  then obtain r m1 where r: "send c m = Some (Ok r, m1)" "fr_success r"
    "length (answers send cs m1) = length cs" "list_all fr_success (answers send cs m1)"
    by (auto simp: error_response_def split: option.splits prod.splits res.splits if_splits)
  obtain w1 where "out \<lparr>br_command = c, br_response = r\<rparr> w = (Done (), w1)" using assms(1) by blast
  with r Cons.IH [of m1 w1] show ?case by simp
qed simp

lemma io_step_Done: "io_step op s = (Done x, s') \<longleftrightarrow> op s = (Inr x, s')"
  by (cases "op s") (auto simp: io_step_def)

lemma batch_status:
  assumes main: "client_main W args s = Some (Ended r, s')" "ca_mode args = Some (Batch b)"
    and wr: "writes_all (cw_stdout W)"
  shows "exit_status r = 0 \<longleftrightarrow>
    (\<exists>identity f cs m.
       parse_server_identity W (ca_server_identity args) (cl_files s) = Done identity \<and>
       cw_create W ''fenris-client.log'' (cl_files s) = (Inr (), f) \<and>
       read_commands_from_source (cw_stdin W) (cw_opened W f) (ba_commands_file b) = Done cs \<and>
       batch_connected (cw_env W) b identity m \<and>
       length (answers (batch_send (cw_env W)) cs m) = length cs \<and>
       list_all fr_success (answers (batch_send (cw_env W)) cs m))"
  (is "?zero \<longleftrightarrow> ?all")
proof -
  let ?send = "batch_send (cw_env W)" and ?out = "write_result (be_json (cw_env W)) (cw_stdout W) (ba_output b)"
  have batch: "run_batch (cw_env W) (cw_stdout W)
      \<lparr>bg_address = ba_address b, bg_port = ba_port b, bg_commands = cs, bg_output = ba_output b\<rparr> identity w =
      map_option (\<lambda>(r, m', w'). (r, Some (disconnect m'), w')) (run_commands ?send ?out cs m w)"
    if "batch_connected (cw_env W) b identity m" for cs identity m w
    using that by (auto simp: run_batch_def batch_connected_def batch_send_def)
  show ?thesis
  proof
    assume ?all
    then obtain identity f cs m where parts:
      "parse_server_identity W (ca_server_identity args) (cl_files s) = Done identity"
      "cw_create W ''fenris-client.log'' (cl_files s) = (Inr (), f)"
      "read_commands_from_source (cw_stdin W) (cw_opened W f) (ba_commands_file b) = Done cs"
      "batch_connected (cw_env W) b identity m"
      and good: "length (answers ?send cs m) = length cs" "list_all fr_success (answers ?send cs m)"
      by blast
    obtain m' w' where "run_loop ?send ?out cs 0 m (cl_output s) = Some (Done (0, False), m', w')"
      using run_loop_all [of ?out, OF write_result_all [OF wr] good] by blast
    then show ?zero
      using main parts
      by (auto simp: client_main_def io_step_def unwrap_or_def run_batch_mode_def batch run_commands_def
          batch_exit_def batch_is_success_def)
  next
    assume ?zero
    then have "r = Done ExitSuccess" by (cases r rule: exit_status.cases) auto
    then obtain identity f where first: "parse_server_identity W (ca_server_identity args) (cl_files s) = Done identity"
      "cw_create W ''fenris-client.log'' (cl_files s) = (Inr (), f)"
      "run_batch_mode W b identity f (cl_output s) = Some (Done ExitSuccess, cl_output s')"
      using main by (auto simp: client_main_def io_step_Done unwrap_or_def split: anyhow.splits prod.splits)
    then obtain cs sum m1 where cs: "read_commands_from_source (cw_stdin W) (cw_opened W f) (ba_commands_file b) = Done cs"
      "run_batch (cw_env W) (cw_stdout W)
        \<lparr>bg_address = ba_address b, bg_port = ba_port b, bg_commands = cs, bg_output = ba_output b\<rparr> identity (cl_output s) =
        Some (Done sum, m1, cl_output s')" "batch_is_success sum"
      by (auto simp: run_batch_mode_def batch_exit_def split: anyhow.splits if_splits elim!: any_bind.elims)
    then obtain m where m: "batch_connected (cw_env W) b identity m"
      by (auto simp: run_batch_def batch_connected_def split: res.splits prod.splits)
    then obtain m2 where "run_commands ?send ?out cs m (cl_output s) = Some (Done sum, m2, cl_output s')"
      using cs(2) by (auto simp: batch)
    from run_commands_success [OF this] cs(1,3) first m show ?all by blast
  qed
qed

subsection \<open>The terminal is put back\<close>

text \<open>What is documented of the operations that succeed, on the two switches of the terminal.\<close>

definition terminal_ok :: "'t terminal_ops \<Rightarrow> ('t \<Rightarrow> bool) \<Rightarrow> ('t \<Rightarrow> bool) \<Rightarrow> bool" where
  "terminal_ok T alternate raw \<longleftrightarrow>
     (\<forall>t t'. enter_alternate_screen T t = (Inr (), t') \<longrightarrow> alternate t' \<and> raw t' = raw t) \<and>
     (\<forall>t t'. enable_raw_mode T t = (Inr (), t') \<longrightarrow> raw t' \<and> alternate t' = alternate t) \<and>
     (\<forall>t e t'. enable_raw_mode T t = (Inl e, t') \<longrightarrow> t' = t) \<and>
     (\<forall>t t'. leave_alternate_screen T t = (Inr (), t') \<longrightarrow> \<not> alternate t' \<and> raw t' = raw t) \<and>
     (\<forall>t t'. disable_raw_mode T t = (Inr (), t') \<longrightarrow> \<not> raw t' \<and> alternate t' = alternate t)"

lemma terminal_restore_ok:
  "terminal_ok T alternate raw \<Longrightarrow> terminal_restore T t = (Done (), t') \<Longrightarrow> \<not> alternate t' \<and> \<not> raw t'"
  by (auto simp: terminal_restore_def any_then_eq_Done io_step_Done terminal_ok_def)

lemma run_tui_restored:
  assumes "terminal_ok T alternate raw" "cw_terminal W = T" "terminal_init T t = (Done (), t1)"
    and "\<And>t. fst (terminal_restore T t) = Done ()"
    and "run_tui W identity t = Some (Ended r, t')" "r \<noteq> Crashed"
  shows "\<not> alternate t' \<and> \<not> raw t'"
proof -
  obtain t2 where "terminal_restore T t1 = (Done (), t2)" using assms(4) [of t1] by (metis prod.collapse)
  moreover from this terminal_restore_ok [OF assms(1)] have "\<not> alternate t2 \<and> \<not> raw t2" by blast
  ultimately show ?thesis
    using assms(2,3,5,6)
    by (auto simp: run_tui_def any_then_def split: res.splits option.splits progress.splits anyhow.splits)
qed

lemma client_main_tui:
  assumes main: "client_main W args s = Some (Ended r, s')" "unwrap_or (ca_mode args) Tui = Tui"
  shows "cl_terminal s' = cl_terminal s \<or>
    (\<exists>identity r1. run_tui W identity (cl_terminal s) = Some (Ended r1, cl_terminal s') \<and> (r1 = Crashed \<longrightarrow> r = Crashed))"
proof (cases "\<exists>identity f. parse_server_identity W (ca_server_identity args) (cl_files s) = Done identity \<and>
    io_step (cw_create W ''fenris-client.log'') (cl_files s) = (Done (), f)")
  case True
  then obtain identity f where pre: "parse_server_identity W (ca_server_identity args) (cl_files s) = Done identity"
    "io_step (cw_create W ''fenris-client.log'') (cl_files s) = (Done (), f)"
    by blast
  with main obtain p t where run: "run_tui W identity (cl_terminal s) = Some (p, t)"
    "s' = s\<lparr>cl_files := f, cl_terminal := t\<rparr>"
    "Ended r = (case p of StillRunning \<Rightarrow> StillRunning | Ended r1 \<Rightarrow> Ended (any_bind r1 (\<lambda>_. Done ExitSuccess)))"
    by (auto simp: client_main_def)
  then show ?thesis by (cases p) fastforce+
next
  case False
  with main show ?thesis by (auto simp: client_main_def split: anyhow.splits prod.splits)
qed

text \<open>A failure to enter raw mode leaves the alternate screen on.\<close>

lemma run_tui_half_set_up:
  assumes "terminal_ok T alternate raw" "cw_terminal W = T"
    and "enter_alternate_screen T t = (Inr (), t1)" "enable_raw_mode T t1 = (Inl e, t2)"
  shows "run_tui W identity t = Some (Ended (Failed e), t2) \<and> alternate t2"
proof -
  have "alternate t1" "t2 = t1" using assms(1,3,4) unfolding terminal_ok_def by blast+
  with assms(2-4) show ?thesis by (simp add: run_tui_def terminal_init_def any_then_def io_step_def)
qed

subsection \<open>A server that serves\<close>

lemma apfst_res_anyhow: "apfst res_anyhow x = (Done k, f) \<longleftrightarrow> x = (Ok k, f)"
  by (cases x) auto

lemma server_main_started:
  assumes "server_main W args h = (Done inst, h')"
  obtains key addr base where
    "load_or_generate (sw_identity W) (sw_std W) (sw_seed W) (arg_identity_key args) (sh_files h) = (Ok key, sh_files h')"
    "sn_identity inst = Some key" "sn_storage inst = tokio_fs_storage_new (sw_os W) (arg_base_dir args) (sh_files h)"
    "bind_with_identity (main_config args) None = Ok (sn_state inst)"
    "os_canonicalize (sw_os W) (arg_base_dir args) (sh_files h') = Inr base"
    "sh_output h' = sh_output h @ [''Fenris Server v0.1.0'', ''Listening on '' @ addr,
       ''Base directory: '' @ sw_debug_path W base, identity_line W key,
       ''Max connections: '' @ show_nat (arg_max_connections args), ''Press Ctrl+C to stop'']"
  using assms that
  unfolding server_main_def Let_def any_then_eq_Done asked_def println_def canonical_base_def identity_of_host_def
    load_or_create_server_identity_def
  by (auto simp: apfst_res_anyhow bind_authenticated_def server_bind_def res_map_eq_Ok bind_with_identity_def split: prod.splits option.splits if_splits)

lemma loaded_key_size:
  assumes "ed25519_ok I" "load_or_generate I fs seed p f = (Ok k, f')"
  shows "length (signing_key k) = SERVER_IDENTITY_KEY_SIZE"
  using assms
  by (auto simp: load_or_generate_def key_load_from_file_def key_from_hex_def key_from_slice_def key_bytes_def
      key_generate_def ed25519_ok_def res_simps state_bind_eq_Ok split: if_splits)

lemma printed_identity_parses:
  assumes "hex_ok I" "ed25519_ok I" "length (signing_key k) = SERVER_IDENTITY_KEY_SIZE"
    and "\<not> fs_exists fs (public_to_hex I (public_key I k)) f"
  shows "from_hex_or_file I fs (public_to_hex I (public_key I k)) f = Ok (public_key I k)"
  using assms by (simp add: from_hex_or_file_def public_hex_roundtrip public_key_def ed25519_ok_def)

lemma server_restart:
  assumes "hex_ok (sw_identity W)" "ed25519_ok (sw_identity W)" "std_fs_ok (sw_std W)"
    and "server_main W args h = (Done inst, h')"
    and "server_main (W\<lparr>sw_seed := seed\<rparr>) args' h1 = (Done inst', h2)" "sh_files h1 = sh_files h'"
      "arg_identity_key args' = arg_identity_key args"
  shows "sn_identity inst' = sn_identity inst \<and> sh_files h2 = sh_files h1"
proof -
  obtain key where first: "load_or_generate (sw_identity W) (sw_std W) (sw_seed W) (arg_identity_key args) (sh_files h) = (Ok key, sh_files h')"
    "sn_identity inst = Some key"
    by (rule server_main_started [OF assms(4)])
  obtain key' where "load_or_generate (sw_identity W) (sw_std W) seed (arg_identity_key args) (sh_files h') = (Ok key', sh_files h2)"
    "sn_identity inst' = Some key'"
    using assms(6,7) by (auto intro: server_main_started [OF assms(5)])
  with first load_or_generate_stable [OF assms(1-3) first(1), of seed] assms(6) show ?thesis by simp
qed

end
