(* ===== verification/Shared_Storage.thy ===== *)
theory Shared_Storage
  imports Session
begin

section \<open>Connections over one storage\<close>

text \<open>
  The tasks of the server share one storage through their request handlers.  Here the state
  is that storage with the connections that are open, and a turn is the part of one
  connection's work between two points where another task may run: one command, or one chunk
  of an object that is being streamed.  Which command a turn brings is the client's choice,
  so a run is a list of turns.  A turn of a connection that is closed or still streaming does
  nothing.  The theorems say that no interleaving breaks the storage, and that a transfer or a
  read that runs among turns of others that keep away from its object is not disturbed.
\<close>

record ('c, 's) system =
  sy_storage :: 's
  sy_conns :: "nat \<rightharpoonup> ('c, 's) connection"
  sy_reads :: "nat \<rightharpoonup> path \<times> u64"

datatype ('c, 's) turn =
    Opened nat "('c, 's) connection" | Served nat fenris_command | Streamed nat | Dropped nat

fun turn_of :: "('c, 's) turn \<Rightarrow> nat" where
  "turn_of (Opened i cn) = i"
| "turn_of (Served i c) = i"
| "turn_of (Streamed i) = i"
| "turn_of (Dropped i) = i"

definition lent :: "('c, 's) system \<Rightarrow> ('c, 's) connection \<Rightarrow> ('c, 's) connection" where
  "lent sys cn = cn\<lparr>cn_storage := sy_storage sys\<rparr>"

definition hang_up :: "nat \<Rightarrow> ('c, 's) system \<Rightarrow> ('c, 's) system" where
  "hang_up i sys = sys\<lparr>sy_conns := (sy_conns sys)(i := None), sy_reads := (sy_reads sys)(i := None)\<rparr>"

text \<open>After its turn a connection gives the storage back; an error or a panic ends its task.\<close>

fun settle :: "nat \<Rightarrow> unit res \<times> ('c, 's) connection \<Rightarrow> ('c, 's) system \<Rightarrow> ('c, 's) system" where
  "settle i (Ok u, cn) sys = sys\<lparr>sy_storage := cn_storage cn, sy_conns := (sy_conns sys)(i \<mapsto> cn)\<rparr>"
| "settle i (Err e, cn) sys = hang_up i (sys\<lparr>sy_storage := cn_storage cn\<rparr>)"
| "settle i (Panic, cn) sys = hang_up i (sys\<lparr>sy_storage := cn_storage cn\<rparr>)"

fun command_turn ::
  "'c server_channel \<Rightarrow> 's storage_backend \<Rightarrow> nat \<Rightarrow> fenris_command \<Rightarrow> ('c, 's) connection \<Rightarrow> ('c, 's) system \<Rightarrow>
   ('c, 's) system" where
  "command_turn V B i Terminate cn sys = hang_up i sys"
| "command_turn V B i (ReadObject p) cn sys = sys\<lparr>sy_reads := (sy_reads sys)(i \<mapsto> (p, 0))\<rparr>"
| "command_turn V B i c cn sys =
     (case conn_handle_command V B c (lent sys cn) of Some r \<Rightarrow> settle i r sys | None \<Rightarrow> sys)"

text \<open>One round of the loop of \<open>send_object_content_chunks\<close>.\<close>

definition stream_turn ::
  "'c server_channel \<Rightarrow> 's storage_backend \<Rightarrow> nat \<Rightarrow> path \<Rightarrow> u64 \<Rightarrow> ('c, 's) connection \<Rightarrow> ('c, 's) system \<Rightarrow>
   ('c, 's) system" where
  "stream_turn V B i p off cn sys =
     (case read_object_chunk B p (cn_current_dir cn) off (sy_storage sys) of
        (Ok chunk, s') \<Rightarrow>
          settle i (conn_send V (ObjectContentChunk chunk) ((lent sys cn)\<lparr>cn_storage := s'\<rparr>))
            (sys\<lparr>sy_reads := (sy_reads sys)
               (i := if tc_is_last chunk then None else Some (p, tc_offset chunk + len_u64 (tc_data chunk)))\<rparr>)
      | (Err e, s') \<Rightarrow>
          settle i (conn_send V (ErrorOutput (error_to_string e)) ((lent sys cn)\<lparr>cn_storage := s'\<rparr>))
            (sys\<lparr>sy_reads := (sy_reads sys)(i := None)\<rparr>)
      | (Panic, s') \<Rightarrow> hang_up i (sys\<lparr>sy_storage := s'\<rparr>))"

fun system_turn :: "'c server_channel \<Rightarrow> 's storage_backend \<Rightarrow> ('c, 's) turn \<Rightarrow> ('c, 's) system \<Rightarrow> ('c, 's) system" where
  "system_turn V B (Opened i cn) sys =
     (if sy_conns sys i = None
      then sys\<lparr>sy_conns := (sy_conns sys)(i \<mapsto> cn\<lparr>cn_current_dir := ''/'', cn_active_write := None\<rparr>)\<rparr> else sys)"
| "system_turn V B (Served i c) sys =
     (case (sy_conns sys i, sy_reads sys i) of (Some cn, None) \<Rightarrow> command_turn V B i c cn sys | _ \<Rightarrow> sys)"
| "system_turn V B (Streamed i) sys =
     (case (sy_conns sys i, sy_reads sys i) of
        (Some cn, Some (p, off)) \<Rightarrow> stream_turn V B i p off cn sys
      | _ \<Rightarrow> sys)"
| "system_turn V B (Dropped i) sys = hang_up i sys"

text \<open>The object a turn may change, given the state in which it is taken.\<close>

fun command_target :: "('c, 's) connection \<Rightarrow> fenris_command \<Rightarrow> path option" where
  "command_target cn (WriteObjectChunk ch) = map_option aw_path (cn_active_write cn)"
| "command_target cn (BeginObjectWrite p m n) = Some (resolve_path p (cn_current_dir cn))"
| "command_target cn (CreateObject p) = Some (resolve_path p (cn_current_dir cn))"
| "command_target cn (WriteObject p d) = Some (resolve_path p (cn_current_dir cn))"
| "command_target cn (AppendObject p d) = Some (resolve_path p (cn_current_dir cn))"
| "command_target cn (UploadObject p d) = Some (resolve_path p (cn_current_dir cn))"
| "command_target cn (DeleteObject p) = Some (resolve_path p (cn_current_dir cn))"
| "command_target cn _ = None"

fun turn_target :: "('c, 's) system \<Rightarrow> ('c, 's) turn \<Rightarrow> path option" where
  "turn_target sys (Served i c) = Option.bind (sy_conns sys i) (\<lambda>cn. command_target cn c)"
| "turn_target sys _ = None"

text \<open>The object that is being streamed is no longer than any vector can be.\<close>

fun turn_sized :: "('s \<Rightarrow> path \<Rightarrow> bytes option) \<Rightarrow> ('c, 's) system \<Rightarrow> ('c, 's) turn \<Rightarrow> bool" where
  "turn_sized content sys (Streamed i) =
     (case (sy_conns sys i, sy_reads sys i) of
        (Some cn, Some (p, off)) \<Rightarrow>
          (case content (sy_storage sys) (resolve_path p (cn_current_dir cn)) of None \<Rightarrow> True | Some d \<Rightarrow> vec_ok d)
      | _ \<Rightarrow> True)"
| "turn_sized content sys _ = True"

fun run_sized ::
  "'c server_channel \<Rightarrow> 's storage_backend \<Rightarrow> ('s \<Rightarrow> path \<Rightarrow> bytes option) \<Rightarrow> ('c, 's) turn list \<Rightarrow> ('c, 's) system \<Rightarrow>
   bool" where
  "run_sized V B content [] sys = True"
| "run_sized V B content (u # us) sys =
     (turn_sized content sys u \<and> run_sized V B content us (system_turn V B u sys))"

text \<open>All turns but those of connection \<open>i\<close> keep away from the object at \<open>q\<close>.\<close>

fun keep_away ::
  "'c server_channel \<Rightarrow> 's storage_backend \<Rightarrow> (path \<Rightarrow> path \<Rightarrow> bool) \<Rightarrow> nat \<Rightarrow> path \<Rightarrow> ('c, 's) turn list \<Rightarrow>
   ('c, 's) system \<Rightarrow> bool" where
  "keep_away V B same i q [] sys = True"
| "keep_away V B same i q (u # us) sys =
     ((turn_of u = i \<or> (case turn_target sys u of None \<Rightarrow> True | Some p \<Rightarrow> \<not> same p q)) \<and>
      keep_away V B same i q us (system_turn V B u sys))"

lemma quiet_keep_away: "(\<And>i c. Served i c \<notin> set us) \<Longrightarrow> keep_away V B same i q us sys"
proof (induction us arbitrary: sys)
  case (Cons u us)
  then show ?case by (cases u) auto
qed simp

subsection \<open>What a turn leaves alone\<close>

text \<open>Only the object at the target may differ.\<close>

definition spares ::
  "('s \<Rightarrow> bool) \<Rightarrow> ('s \<Rightarrow> path \<Rightarrow> bytes option) \<Rightarrow> (path \<Rightarrow> path \<Rightarrow> bool) \<Rightarrow> path option \<Rightarrow> 's \<Rightarrow> 's \<Rightarrow> bool" where
  "spares ok content same target s s' \<longleftrightarrow>
     ok s' \<and> (\<forall>q. (\<forall>p. target = Some p \<longrightarrow> \<not> same p q) \<longrightarrow> content s' q = content s q)"

lemma snd_bind_return: "snd (state_bind m (\<lambda>x. state_return (f x)) s) = snd (m s)"
  by (simp add: state_bind_def split: prod.splits res.splits)

lemmas handler_defs = handle_create_object_def handle_read_object_def handle_write_object_def handle_append_object_def
  handle_delete_object_def handle_upload_object_def handle_object_info_def handle_create_namespace_def
  handle_list_namespace_def handle_delete_namespace_def handle_change_namespace_def

text \<open>The storage after a command is the storage after its one operation.\<close>

lemma process_storage:
  "fst (snd (process_command B Ping (s, dir))) = s"
  "fst (snd (process_command B Terminate (s, dir))) = s"
  "fst (snd (process_command B (CreateObject p) (s, dir))) = snd (put_object B (resolve_path p dir) [] s)"
  "fst (snd (process_command B (WriteObject p d) (s, dir))) = snd (put_object B (resolve_path p dir) d s)"
  "fst (snd (process_command B (UploadObject p d) (s, dir))) = snd (put_object B (resolve_path p dir) d s)"
  "fst (snd (process_command B (AppendObject p d) (s, dir))) = snd (append_object B (resolve_path p dir) d s)"
  "fst (snd (process_command B (DeleteObject p) (s, dir))) = snd (delete_object B (resolve_path p dir) s)"
  "fst (snd (process_command B (ObjectInfo p) (s, dir))) = snd (metadata B (resolve_path p dir) s)"
  "fst (snd (process_command B (CreateNamespace p) (s, dir))) = snd (create_namespace B (resolve_path p dir) s)"
  "fst (snd (process_command B (ReadObject p) (s, dir))) = snd (get_object B (resolve_path p dir) s)"
  "fst (snd (process_command B (ListNamespace p) (s, dir))) = snd (list_namespace B (resolve_path p dir) s)"
  "fst (snd (process_command B (DeleteNamespace p) (s, dir))) = snd (delete_namespace B (resolve_path p dir) s)"
  "fst (snd (process_command B (ChangeNamespace p) (s, dir))) = s"
  "fst (snd (process_command B (BeginObjectWrite p m n) (s, dir))) = s"
  "fst (snd (process_command B (WriteObjectChunk ch) (s, dir))) = s"
  by (simp_all add: process_command_def on_storage_def handler_defs Let_def snd_bind_return state_bind_def state_return_def
      split: prod.splits res.splits)

text \<open>The frame of the operations: an operation changes no object but the one at its path.\<close>

locale framed_storage = storage_contract B inv content same
  for B :: "'s storage_backend" and inv content same +
  assumes delete_frame: "inv s \<Longrightarrow> inv (snd (delete_object B p s)) \<and>
      (\<forall>q. \<not> same p q \<longrightarrow> content (snd (delete_object B p s)) q = content s q)"
    and mkdir_frame: "inv s \<Longrightarrow>
      inv (snd (create_namespace B p s)) \<and> content (snd (create_namespace B p s)) = content s"
    and rmdir_frame: "inv s \<Longrightarrow>
      inv (snd (delete_namespace B p s)) \<and> content (snd (delete_namespace B p s)) = content s"
    and metadata_frame: "inv s \<Longrightarrow> snd (metadata B p s) = s"
    and list_frame: "inv s \<Longrightarrow> snd (list_namespace B p s) = s"
begin

lemma put_frame:
  "inv s \<Longrightarrow> inv (snd (put_object B p d s)) \<and> (\<forall>q. \<not> same p q \<longrightarrow> content (snd (put_object B p d s)) q = content s q)"
  using put_Ok [of s p d] put_Err [of s p d] put_not_Panic [of s p d]
  by (cases "put_object B p d s"; cases "fst (put_object B p d s)") auto

lemma append_frame:
  "inv s \<Longrightarrow> inv (snd (append_object B p d s)) \<and> (\<forall>q. \<not> same p q \<longrightarrow> content (snd (append_object B p d s)) q = content s q)"
  using append_Ok [of s p d] append_Err [of s p d] append_not_Panic [of s p d]
  by (cases "append_object B p d s"; cases "fst (append_object B p d s)") auto

lemma chunk_frame:
  assumes "inv s" "\<And>d. content s (resolve_path p dir) = Some d \<Longrightarrow> vec_ok d"
  shows "snd (read_object_chunk B p dir off s) = s"
proof -
  have sz: "0 < DEFAULT_TRANSFER_CHUNK_SIZE" "DEFAULT_TRANSFER_CHUNK_SIZE < 2 ^ 63"
    by (simp_all add: DEFAULT_TRANSFER_CHUNK_SIZE_def)
  have "snd (get_object_chunk B (resolve_path p dir) off DEFAULT_TRANSFER_CHUNK_SIZE s) = s"
  proof (cases "content s (resolve_path p dir)")
    case None
    from chunk_None [OF assms(1) this sz(1), of off] show ?thesis by auto
  next
    case (Some d)
    from chunk_Some [OF assms(1) this assms(2) [OF this] sz, of off] show ?thesis by auto
  qed
  then show ?thesis
    by (simp add: read_object_chunk_def snd_bind_return)
qed

lemma get_frame: "inv s \<Longrightarrow> snd (get_object B p s) = s"
  using get_Some [of s p] get_None [of s p] by (cases "content s p") force+

text \<open>A command of a connection, streaming apart.\<close>

lemma process_spares:
  assumes "inv (cn_storage cn)" "conn_process V B c cn = (r, cn')"
  shows "spares inv content same (command_target cn c) (cn_storage cn) (cn_storage cn')"
proof -
  have st: "cn_storage cn' = fst (snd (process_command B c (cn_storage cn, cn_current_dir cn)))"
    using assms(2) by (auto simp: conn_process_def conn_send_def split: prod.splits res.splits)
  show ?thesis
    unfolding st using assms(1) get_frame put_frame append_frame delete_frame mkdir_frame rmdir_frame metadata_frame list_frame
    by (cases c) (simp_all add: spares_def process_storage)
qed

lemma begin_spares:
  assumes "inv (cn_storage cn)" "conn_begin_object_write V B p m n cn = (r, cn')"
  shows "spares inv content same (Some (resolve_path p (cn_current_dir cn))) (cn_storage cn) (cn_storage cn')"
proof -
  let ?q = "resolve_path p (cn_current_dir cn)"
  have "cn_storage cn' = cn_storage cn \<or> cn_storage cn' = snd (begin_object_write B p m n (cn_current_dir cn) (cn_storage cn))"
    using assms(2) by (auto simp: conn_begin_object_write_def conn_send_def split: if_splits prod.splits res.splits)
  moreover have "snd (begin_object_write B p m n (cn_current_dir cn) (cn_storage cn)) =
      (if m = Append then snd (append_object B ?q [] (cn_storage cn)) else snd (put_object B ?q [] (cn_storage cn)))"
    by (cases m) (simp_all add: begin_object_write_def Let_def snd_bind_return)
  ultimately show ?thesis
    using assms(1) put_frame [OF assms(1), of ?q "[]"] append_frame [OF assms(1), of ?q "[]"]
    by (auto simp: spares_def)
qed

lemma chunk_spares:
  assumes "inv (cn_storage cn)" "conn_write_object_chunk V B ch cn = (r, cn')"
  shows "spares inv content same (map_option aw_path (cn_active_write cn)) (cn_storage cn) (cn_storage cn')"
proof (cases "cn_active_write cn")
  case None
  then show ?thesis
    using assms by (auto simp: conn_write_object_chunk_def conn_send_def spares_def split: prod.splits)
next
  case (Some t)
  have "cn_storage cn' = snd (snd (handler_write_object_chunk B t ch DEFAULT_TRANSFER_CHUNK_SIZE (cn_storage cn)))"
    using assms(2) Some by (auto simp: conn_write_object_chunk_def conn_send_def split: prod.splits res.splits)
  moreover have "snd (snd (handler_write_object_chunk B t ch n s)) \<in> {s, snd (append_object B (aw_path t) (tc_data ch) s)}" for n s
    by (auto simp: handler_write_object_chunk_def Let_def split: prod.splits res.splits)
  ultimately have "cn_storage cn' \<in> {cn_storage cn, snd (append_object B (aw_path t) (tc_data ch) (cn_storage cn))}"
    by metis
  then show ?thesis
    using assms(1) Some append_frame [OF assms(1), of "aw_path t" "tc_data ch"] by (auto simp: spares_def)
qed

lemma command_spares:
  assumes "inv (cn_storage cn)" "conn_handle_command V B c cn = Some (r, cn')" "\<And>p. c \<noteq> ReadObject p"
  shows "spares inv content same (command_target cn c) (cn_storage cn) (cn_storage cn')"
  using assms process_spares [OF assms(1), of V c r cn'] begin_spares [OF assms(1)] chunk_spares [OF assms(1)]
  by (cases c) auto

text \<open>One turn of any connection.\<close>

lemma settle_storage [simp]: "sy_storage (settle i r sys) = cn_storage (snd r)"
  by (cases "(i, r, sys)" rule: settle.cases) (simp_all add: hang_up_def)

lemma turn_spares:
  assumes "inv (sy_storage sys)" "turn_sized content sys u"
  shows "spares inv content same (turn_target sys u) (sy_storage sys) (sy_storage (system_turn V B u sys))"
proof (cases u)
  case (Served i c)
  show ?thesis
  proof (cases "sy_conns sys i")
    case (Some cn)
    have frame: "spares inv content same (command_target cn c) (sy_storage sys) (sy_storage (command_turn V B i c cn sys))"
    proof (cases "c = Terminate \<or> (\<exists>p. c = ReadObject p)")
      case False
      obtain r where r: "conn_handle_command V B c (lent sys cn) = Some r"
        using False by (cases c) simp_all
      then have "command_turn V B i c cn sys = settle i r sys" using False by (cases c) simp_all
      moreover have "spares inv content same (command_target (lent sys cn) c) (sy_storage sys) (cn_storage (snd r))"
        using command_spares [of "lent sys cn" V c "fst r" "snd r"] assms(1) r False by (auto simp: lent_def)
      moreover have "command_target (lent sys cn) c = command_target cn c" by (cases c) (simp_all add: lent_def)
      ultimately show ?thesis by simp
    qed (use assms(1) in \<open>auto simp: spares_def hang_up_def\<close>)
    then show ?thesis
      using Served Some assms(1) by (cases "sy_reads sys i") (auto simp: spares_def)
  qed (use Served assms(1) in \<open>auto simp: spares_def\<close>)
next
  case (Streamed i)
  show ?thesis
  proof (cases "sy_conns sys i = None \<or> sy_reads sys i = None")
    case False
    then obtain cn p off where cn: "sy_conns sys i = Some cn" "sy_reads sys i = Some (p, off)" by auto
    then have "snd (read_object_chunk B p (cn_current_dir cn) off (sy_storage sys)) = sy_storage sys"
      using assms Streamed by (intro chunk_frame) auto
    then have "sy_storage (stream_turn V B i p off cn sys) = sy_storage sys"
      by (auto simp: stream_turn_def conn_send_def hang_up_def split: prod.splits res.splits)
    with cn Streamed assms(1) show ?thesis by (simp add: spares_def)
  qed (use Streamed assms(1) in \<open>auto simp: spares_def split: option.splits\<close>)
qed (use assms(1) in \<open>simp_all add: spares_def hang_up_def\<close>)

text \<open>Turns that serve no command write nothing.\<close>

lemma quiet_run_sized:
  assumes "inv (sy_storage sys)" "\<And>q d. content (sy_storage sys) q = Some d \<Longrightarrow> vec_ok d"
    and "\<And>i c. Served i c \<notin> set us"
  shows "run_sized V B content us sys"
  using assms
proof (induction us arbitrary: sys)
  case (Cons u us)
  have sized: "turn_sized content sys u"
    using Cons.prems(2) by (cases u) (auto split: option.splits)
  have "turn_target sys u = None" using Cons.prems(3) by (cases u) auto
  then have keep: "inv (sy_storage (system_turn V B u sys))"
    "content (sy_storage (system_turn V B u sys)) = content (sy_storage sys)"
    using turn_spares [OF Cons.prems(1) sized, of V] by (simp_all add: spares_def fun_eq_iff)
  have "run_sized V B content us (system_turn V B u sys)"
    using keep Cons.prems(2,3) by (intro Cons.IH) auto
  with sized show ?case by simp
qed simp

lemma run_inv:
  "inv (sy_storage sys) \<Longrightarrow> run_sized V B content us sys \<Longrightarrow> inv (sy_storage (fold (system_turn V B) us sys))"
proof (induction us arbitrary: sys)
  case (Cons u us)
  then have "inv (sy_storage (system_turn V B u sys))"
    using turn_spares [of sys u V] by (auto simp: spares_def)
  with Cons show ?case by simp
qed simp

end

lemma other_settle: "j \<noteq> i \<Longrightarrow> sy_conns (settle j r sys) i = sy_conns sys i \<and> sy_reads (settle j r sys) i = sy_reads sys i"
  by (cases "(j, r, sys)" rule: settle.cases) (simp_all add: hang_up_def)

lemma other_command:
  "j \<noteq> i \<Longrightarrow> sy_conns (command_turn V B j c cn sys) i = sy_conns sys i \<and> sy_reads (command_turn V B j c cn sys) i = sy_reads sys i"
  by (cases c) (auto simp: hang_up_def other_settle split: option.splits)

text \<open>A turn of another connection leaves a connection as it is.\<close>

lemma other_turn:
  "turn_of u \<noteq> i \<Longrightarrow> sy_conns (system_turn V B u sys) i = sy_conns sys i \<and> sy_reads (system_turn V B u sys) i = sy_reads sys i"
  by (cases u)
    (auto simp: hang_up_def other_command other_settle stream_turn_def split: option.splits prod.splits res.splits)

locale shared_server = framed_storage B inv content same + served_connection B inv content same V live fits canon sent
  for B :: "'s storage_backend" and inv content same and V :: "'c server_channel" and live fits canon sent
begin

lemma other_keeps:
  assumes "inv (sy_storage sys)" "turn_sized content sys u" "turn_of u \<noteq> i"
    and "turn_of u = i \<or> (case turn_target sys u of None \<Rightarrow> True | Some p \<Rightarrow> \<not> same p q)"
  shows "inv (sy_storage (system_turn V B u sys)) \<and>
    content (sy_storage (system_turn V B u sys)) q = content (sy_storage sys) q"
  using turn_spares [OF assms(1,2), of V] assms(3,4) by (auto simp: spares_def split: option.splits)

lemma others_keep:
  assumes "inv (sy_storage sys)" "run_sized V B content us sys" "keep_away V B same i q us sys"
    and "filter (\<lambda>u. turn_of u = i) us = []"
  shows "inv (sy_storage (fold (system_turn V B) us sys)) \<and>
    content (sy_storage (fold (system_turn V B) us sys)) q = content (sy_storage sys) q \<and>
    sy_conns (fold (system_turn V B) us sys) i = sy_conns sys i"
  using assms
proof (induction us arbitrary: sys)
  case (Cons u us)
  then have other: "turn_of u \<noteq> i" by (simp split: if_splits)
  with Cons.prems have "inv (sy_storage (system_turn V B u sys)) \<and>
      content (sy_storage (system_turn V B u sys)) q = content (sy_storage sys) q"
    by (intro other_keeps) simp_all
  moreover have "sy_conns (system_turn V B u sys) i = sy_conns sys i" using other_turn [OF other] by blast
  ultimately show ?case using Cons.IH [of "system_turn V B u sys"] Cons.prems other by simp
qed simp

text \<open>The chunks of a transfer, among turns of others that keep away from its object.\<close>

lemma transfer_among_others:
  assumes "inv (sy_storage sys)" "sy_conns sys i = Some cn" "sy_reads sys i = None" "cn_active_write cn = Some t"
    and "content (sy_storage sys) (aw_path t) = Some c" "chunk_seq (aw_expected_offset t) (aw_total_size t) cs"
    and "live (cn_channel cn)"
    and "unat (aw_expected_offset t) + length (concat (map tc_data cs)) = unat (aw_total_size t)"
    and "filter (\<lambda>u. turn_of u = i) us = map (\<lambda>ch. Served i (WriteObjectChunk ch)) cs"
    and "run_sized V B content us sys" "keep_away V B same i (aw_path t) us sys"
    and fits: "\<And>n. fits (TransferProgress n)" "\<And>n. fits (Success (''Transfer complete: '' @ show_u64 n @ '' bytes''))"
  shows "\<exists>cn'. sy_conns (fold (system_turn V B) us sys) i = Some cn' \<and> cn_active_write cn' = None \<and>
    content (sy_storage (fold (system_turn V B) us sys)) (aw_path t) = Some (c @ concat (map tc_data cs)) \<and>
    sent (cn_channel cn') = sent (cn_channel cn) @ map canon (write_replies t cs)"
  using assms(1-11)
proof (induction us arbitrary: sys cn t c cs)
  case Nil
  then show ?case by (cases cs) simp_all
next
  case (Cons u us)
  let ?sys = "system_turn V B u sys"
  show ?case
  proof (cases "turn_of u = i")
    case False
    then have "inv (sy_storage ?sys) \<and> content (sy_storage ?sys) (aw_path t) = content (sy_storage sys) (aw_path t)"
      using Cons.prems by (intro other_keeps) simp_all
    moreover have "sy_conns ?sys i = sy_conns sys i" "sy_reads ?sys i = sy_reads sys i"
      using other_turn [OF False] by blast+
    ultimately show ?thesis using Cons.IH [of ?sys cn t c cs] Cons.prems False by simp
  next
    case True
    then obtain ch ds where cs: "cs = ch # ds" and u: "u = Served i (WriteObjectChunk ch)"
      and rest: "filter (\<lambda>u. turn_of u = i) us = map (\<lambda>ch. Served i (WriteObjectChunk ch)) ds"
      using Cons.prems(9) by (cases cs) auto
    note step = write_next [of "lent sys cn" t c ch ds, OF _ _ _ Cons.prems(6) [unfolded cs] _ Cons.prems(8) [unfolded cs] fits]
    obtain s1 c1 where one: "conn_write_object_chunk V B ch (lent sys cn) =
        (Ok (), (lent sys cn)\<lparr>cn_storage := s1, cn_active_write := (if ds = [] then None else Some (advance t ch)), cn_channel := c1\<rparr>)"
      "inv s1" "content s1 (aw_path t) = Some (c @ tc_data ch)" "live c1"
      "sent c1 = sent (cn_channel cn) @ [canon (hd (write_replies t cs))]"
      using step(1) Cons.prems(1,4,5,7) by (auto simp: lent_def cs)
    let ?cn = "(lent sys cn)\<lparr>cn_storage := s1, cn_active_write := (if ds = [] then None else Some (advance t ch)), cn_channel := c1\<rparr>"
    have now: "?sys = sys\<lparr>sy_storage := s1, sy_conns := (sy_conns sys)(i \<mapsto> ?cn)\<rparr>"
      using one(1) u Cons.prems(2,3) by simp
    have run: "run_sized V B content us ?sys" "keep_away V B same i (aw_path t) us ?sys" using Cons.prems(10,11) by simp_all
    show ?thesis
    proof (cases "ds = []")
      case True
      with others_keep [OF _ run] rest now one show ?thesis by (simp add: cs)
    next
      case False
      have "\<exists>cn'. sy_conns (fold (system_turn V B) us ?sys) i = Some cn' \<and> cn_active_write cn' = None \<and>
          content (sy_storage (fold (system_turn V B) us ?sys)) (aw_path (advance t ch)) =
            Some ((c @ tc_data ch) @ concat (map tc_data ds)) \<and>
          sent (cn_channel cn') = sent (cn_channel ?cn) @ map canon (write_replies (advance t ch) ds)"
        using False step(2,3) Cons.prems one rest run now
        by (intro Cons.IH) (auto simp: lent_def advance_def)
      with False one show ?thesis by (auto simp: cs advance_def)
    qed
  qed
qed

text \<open>The chunks of a read, among turns of others that keep away from its object.  A chunk before
  the end is never empty, so as many turns as there are bytes left, and one more, are enough.\<close>

lemma streamed_out:
  assumes "sy_reads sys i = None" "\<And>u. u \<in> set us \<Longrightarrow> turn_of u = i \<Longrightarrow> u = Streamed i"
  shows "sy_conns (fold (system_turn V B) us sys) i = sy_conns sys i \<and> sy_reads (fold (system_turn V B) us sys) i = None"
  using assms
proof (induction us arbitrary: sys)
  case (Cons u us)
  have "sy_conns (system_turn V B u sys) i = sy_conns sys i \<and> sy_reads (system_turn V B u sys) i = sy_reads sys i"
  proof (cases "turn_of u = i")
    case True
    then have "u = Streamed i" using Cons.prems(2) [of u] by simp
    then show ?thesis using Cons.prems(1) by (simp split: option.split)
  qed (rule other_turn)
  with Cons show ?case by simp
qed simp

lemma stream_one:
  assumes "sy_conns sys i = Some cn" "sy_reads sys i = Some (p, off)" "live (cn_channel cn)"
    and "read_object_chunk B p (cn_current_dir cn) off (sy_storage sys) = (Ok ch, sy_storage sys)"
    and "fits (ObjectContentChunk ch)"
  obtains c' where "live c'" "sent c' = sent (cn_channel cn) @ [canon (ObjectContentChunk ch)]"
    "system_turn V B (Streamed i) sys =
       sys\<lparr>sy_conns := (sy_conns sys)(i \<mapsto> (lent sys cn)\<lparr>cn_channel := c'\<rparr>),
          sy_reads := (sy_reads sys)(i := if tc_is_last ch then None else Some (p, tc_offset ch + len_u64 (tc_data ch)))\<rparr>"
proof -
  have lent: "(lent sys cn)\<lparr>cn_storage := sy_storage sys\<rparr> = lent sys cn" "cn_channel (lent sys cn) = cn_channel cn"
    by (simp_all add: lent_def)
  obtain c' where c': "conn_send V (ObjectContentChunk ch) (lent sys cn) = (Ok (), (lent sys cn)\<lparr>cn_channel := c'\<rparr>)"
    "live c'" "sent c' = sent (cn_channel cn) @ [canon (ObjectContentChunk ch)]"
    using conn_send_live [of "lent sys cn" "ObjectContentChunk ch"] assms(3,5) unfolding lent by blast
  then show thesis
    using assms(1,2,4) lent by (intro that [of c']) (simp_all add: stream_turn_def, simp add: lent_def)
qed

lemma read_among_others:
  assumes "inv (sy_storage sys)" "sy_conns sys i = Some cn" "sy_reads sys i = Some (p, off)"
    and "content (sy_storage sys) (resolve_path p (cn_current_dir cn)) = Some d" "live (cn_channel cn)" "unat off \<le> length d"
    and "filter (\<lambda>u. turn_of u = i) us = replicate k (Streamed i)" "length d - unat off < k"
    and "run_sized V B content us sys" "keep_away V B same i (resolve_path p (cn_current_dir cn)) us sys"
    and "vec_ok d"
    and fits: "\<And>ch. length (tc_data ch) \<le> DEFAULT_TRANSFER_CHUNK_SIZE \<Longrightarrow> fits (ObjectContentChunk ch)"
  shows "\<exists>cn' cs. sy_conns (fold (system_turn V B) us sys) i = Some cn' \<and> sy_reads (fold (system_turn V B) us sys) i = None \<and>
    sent (cn_channel cn') = sent (cn_channel cn) @ map (canon \<circ> ObjectContentChunk) cs \<and>
    chunk_seq off (len_u64 d) cs \<and> concat (map tc_data cs) = drop (unat off) d"
  using assms(1-10)
proof (induction us arbitrary: sys cn off k)
  case Nil
  then show ?case by simp
next
  case (Cons u us)
  let ?sys = "system_turn V B u sys" and ?q = "resolve_path p (cn_current_dir cn)"
  show ?case
  proof (cases "turn_of u = i")
    case False
    then have "inv (sy_storage ?sys) \<and> content (sy_storage ?sys) ?q = content (sy_storage sys) ?q"
      using Cons.prems by (intro other_keeps) simp_all
    moreover have "sy_conns ?sys i = sy_conns sys i" "sy_reads ?sys i = sy_reads sys i"
      using other_turn [OF False] by blast+
    ultimately show ?thesis using Cons.IH [of ?sys cn off k] Cons.prems False by simp
  next
    case True
    then obtain k' where k: "k = Suc k'" and u: "u = Streamed i"
      and rest: "filter (\<lambda>u. turn_of u = i) us = replicate k' (Streamed i)"
      using Cons.prems(7) by (cases k) auto
    have run: "run_sized V B content us ?sys" "keep_away V B same i ?q us ?sys" using Cons.prems(9,10) by simp_all
    from Cons.prems(1,4) assms(11) show ?thesis
    proof (cases rule: read_next [where off = off])
      case (final ch)
      obtain c' where c': "live c'" "sent c' = sent (cn_channel cn) @ [canon (ObjectContentChunk ch)]"
        "sy_conns ?sys i = Some ((lent sys cn)\<lparr>cn_channel := c'\<rparr>)" "sy_reads ?sys i = None"
        by (rule stream_one [OF Cons.prems(2,3,5) final(1) fits [OF final(5)]]) (simp add: final(2) u)
      have own: "v = Streamed i" if "v \<in> set us" "turn_of v = i" for v
      proof -
        have "v \<in> set (filter (\<lambda>u. turn_of u = i) us)" using that by simp
        then show ?thesis unfolding rest by simp
      qed
      from streamed_out [OF c'(4) own] c' final show ?thesis
        by (intro exI [of _ "(lent sys cn)\<lparr>cn_channel := c'\<rparr>"] exI [of _ "[ch]"]) simp
    next
      case (more ch)
      let ?off = "off + len_u64 (tc_data ch)"
      obtain c' where c': "live c'" "sent c' = sent (cn_channel cn) @ [canon (ObjectContentChunk ch)]"
        "sy_conns ?sys i = Some ((lent sys cn)\<lparr>cn_channel := c'\<rparr>)" "sy_reads ?sys i = Some (p, ?off)"
        "sy_storage ?sys = sy_storage sys"
        by (rule stream_one [OF Cons.prems(2,3,5) more(1) fits [OF more(5)]]) (simp add: more(2,3) u)
      let ?cn = "(lent sys cn)\<lparr>cn_channel := c'\<rparr>"
      have dir: "cn_current_dir ?cn = cn_current_dir cn" "cn_channel ?cn = c'" by (simp_all add: lent_def)
      have left: "length d - unat ?off < k'" using more(6,7) Cons.prems(8) k by linarith
      obtain cn' cs where IH: "sy_conns (fold (system_turn V B) us ?sys) i = Some cn'"
        "sy_reads (fold (system_turn V B) us ?sys) i = None"
        "sent (cn_channel cn') = sent c' @ map (canon \<circ> ObjectContentChunk) cs"
        "chunk_seq ?off (len_u64 d) cs" "concat (map tc_data cs) = drop (unat ?off) d"
        using Cons.IH [of ?sys ?cn ?off k', unfolded dir c'(5), OF Cons.prems(1) c'(3,4) Cons.prems(4) c'(1) less_imp_le [OF more(7)] rest left run]
        by blast
      moreover have "cs \<noteq> []" using IH(4) by auto
      ultimately show ?thesis
        using c'(2) more by (intro exI [of _ cn'] exI [of _ "ch # cs"]) auto
    qed
  qed
qed

end

subsection \<open>The memory storage and the secure channel\<close>

lemma content_of_tree:
  assumes "tree_of s' = tree_of s"
  shows "memory_content s' = memory_content s"
  unfolding fun_eq_iff memory_content_def assms by simp

text \<open>Writing or clearing a node that is no object changes no content but its own.\<close>

lemma content_of_tree_update:
  assumes "tree_of s' = (tree_of s)(ns := x)" "path_names p = Some ns" "\<not> same_place p q"
  shows "memory_content s' q = memory_content s q"
  using assms by (auto simp: memory_content_def same_place_def split: option.splits)

lemma content_of_namespace_update:
  assumes "tree_of s' = (tree_of s)(ns := x)" "x = None \<or> x = Some NamespaceNode"
    and "\<And>d. tree_of s ns \<noteq> Some (ObjectNode d)"
  shows "memory_content s' = memory_content s"
  using assms by (fastforce simp: memory_content_def fun_eq_iff split: option.splits node.splits)

interpretation memory_frame: framed_storage memory_backend ms_inv memory_content same_place
proof
  fix s p
  assume inv: "ms_inv s"
  show "ms_inv (snd (delete_object memory_backend p s)) \<and>
      (\<forall>q. \<not> same_place p q \<longrightarrow> memory_content (snd (delete_object memory_backend p s)) q = memory_content s q)"
  proof (cases "path_names p")
    case (Some ns)
    from ms_delete_implements [OF inv Some] show ?thesis
      by (cases rule: implements_cases)
        (auto simp: inv spec_delete_def intro: content_of_tree_update [OF sym Some] split: if_splits option.splits node.splits)
  qed (simp add: inv outside_Err)
  show "ms_inv (snd (create_namespace memory_backend p s)) \<and> memory_content (snd (create_namespace memory_backend p s)) = memory_content s"
  proof (cases "path_names p")
    case (Some ns)
    from ms_mkdir_implements [OF inv Some] show ?thesis
    proof (cases rule: implements_cases)
      case (ok s' t)
      then have "tree_of s' = tree_of s \<or> tree_of s' = (tree_of s)(ns \<mapsto> NamespaceNode) \<and> tree_of s ns = None"
        by (auto simp: spec_mkdir_def split: option.splits node.splits if_splits)
      with ok show ?thesis
        using content_of_tree [of s' s] content_of_namespace_update [of s' s ns] by auto
    qed (simp add: inv)
  qed (simp add: inv outside_Err)
  show "ms_inv (snd (delete_namespace memory_backend p s)) \<and> memory_content (snd (delete_namespace memory_backend p s)) = memory_content s"
  proof (cases "path_names p")
    case (Some ns)
    from ms_rmdir_implements [OF inv Some] show ?thesis
    proof (cases rule: implements_cases)
      case (ok s' t)
      then have "tree_of s' = (tree_of s)(ns := None)" "tree_of s ns = Some NamespaceNode"
        by (auto simp: spec_rmdir_def split: if_splits)
      with ok show ?thesis using content_of_namespace_update [of s' s ns None] by auto
    qed (simp add: inv)
  qed (simp add: inv outside_Err)
  show "snd (metadata memory_backend p s) = s" "snd (list_namespace memory_backend p s) = s"
    using reads_keep_state [OF inv] by (simp_all add: memory_backend_def)
qed

interpretation memory_shared: shared_server memory_backend ms_inv memory_content same_place
  "secure_server_channel Q" "secure_live P Q n0" "reply_fits Q" output_on_wire "delivered Q n0" for P Q n0
  by unfold_locales

interpretation memory_queue: shared_server memory_backend ms_inv memory_content same_place
  queue_channel "\<lambda>_. True" "\<lambda>_. True" output_on_wire "\<lambda>q. q"
  by unfold_locales

end
