(* ===== verification/Channel_Refinement.thy ===== *)
theory Channel_Refinement
  imports Session
begin

section \<open>Channels that refine each other\<close>

text \<open>
  The client's manager is written over any channel.  When a channel \<open>C\<close> does, on related
  states, whatever a channel \<open>A\<close> does successfully, every operation of the manager that
  succeeds over \<open>A\<close> succeeds over \<open>C\<close> with the same result.  The locale
  \<open>channel_refinement\<close> states this for the manager's operations one by one, up to
  \<open>send_command\<close>; a small calculus (\<open>refines\<close> on actions, \<open>refines_opt\<close> on those that may
  not end) carries the proofs.  \<open>Secure_Session\<close> instantiates it: \<open>A\<close> is the queue of
  \<open>Session\<close>, \<open>C\<close> the encrypted connection.
\<close>

definition refines ::
  "('c \<Rightarrow> 'a \<Rightarrow> bool) \<Rightarrow> ('a connection_manager, 'x) action \<Rightarrow> ('c connection_manager, 'x) action \<Rightarrow> bool" where
  "refines R f g \<longleftrightarrow> (\<forall>ma a mc c x ma'. R c a \<longrightarrow> f (over ma a) = (Ok x, ma') \<longrightarrow>
     (\<exists>a' c'. ma' = over ma a' \<and> g (over mc c) = (Ok x, over mc c') \<and> R c' a'))"

definition refines_opt ::
  "('c \<Rightarrow> 'a \<Rightarrow> bool) \<Rightarrow> ('a connection_manager \<Rightarrow> ('x res \<times> 'a connection_manager) option) \<Rightarrow>
   ('c connection_manager \<Rightarrow> ('x res \<times> 'c connection_manager) option) \<Rightarrow> bool" where
  "refines_opt R f g \<longleftrightarrow> (\<forall>ma a mc c x ma'. R c a \<longrightarrow> f (over ma a) = Some (Ok x, ma') \<longrightarrow>
     (\<exists>a' c'. ma' = over ma a' \<and> g (over mc c) = Some (Ok x, over mc c') \<and> R c' a'))"

named_theorems refine_rules \<open>refinement of the manager's operations\<close>

lemma refinesD:
  assumes "refines R f g" "R c a" "f (over ma a) = (Ok x, ma')"
  obtains a' c' where "ma' = over ma a'" "g (over mc c) = (Ok x, over mc c')" "R c' a'"
  using assms unfolding refines_def by blast

lemma refines_optD:
  assumes "refines_opt R f g" "R c a" "f (over ma a) = Some (Ok x, ma')"
  obtains a' c' where "ma' = over ma a'" "g (over mc c) = Some (Ok x, over mc c')" "R c' a'"
  using assms unfolding refines_opt_def by blast

lemma refines_lift [refine_rules]: "refines R (state_lift r) (state_lift r)"
  by (auto simp: refines_def)

lemma refines_return [refine_rules]: "refines R (state_return x) (state_return x)"
  by (auto simp: refines_def state_return_def)

lemma refines_if [refine_rules]:
  "(b \<Longrightarrow> refines R f g) \<Longrightarrow> (\<not> b \<Longrightarrow> refines R f' g') \<Longrightarrow> refines R (if b then f else f') (if b then g else g')"
  by simp

lemma refines_bind [refine_rules]:
  assumes "refines R f g" "\<And>x. refines R (F x) (G x)"
  shows "refines R (state_bind f F) (state_bind g G)"
  unfolding refines_def
proof (intro allI impI)
  fix ma a mc c y ma'
  assume R: "R c a" and run: "state_bind f F (over ma a) = (Ok y, ma')"
  obtain x m1 where f: "f (over ma a) = (Ok x, m1)" "F x m1 = (Ok y, ma')"
    using run by (auto simp: state_bind_eq_Ok)
  obtain a1 c1 where g: "m1 = over ma a1" "g (over mc c) = (Ok x, over mc c1)" "R c1 a1"
    by (rule refinesD [OF assms(1) R f(1)])
  obtain a' c' where "ma' = over ma a'" "G x (over mc c1) = (Ok y, over mc c')" "R c' a'"
    by (rule refinesD [OF assms(2) g(3)]) (use f(2) g(1) in auto)
  with g(2) show "\<exists>a' c'. ma' = over ma a' \<and> state_bind g G (over mc c) = (Ok y, over mc c') \<and> R c' a'"
    by (auto simp: state_bind_def)
qed

lemma refines_opt_Some [refine_rules]: "refines R f g \<Longrightarrow> refines_opt R (\<lambda>m. Some (f m)) (\<lambda>m. Some (g m))"
  by (simp add: refines_def refines_opt_def)

lemma on_channel_over: "on_channel act (over m c) = (fst (act c), over m (snd (act c)))"
  by (simp add: on_channel_def over_def split: prod.splits)

locale channel_refinement =
  fixes A :: "'a client_channel" and C :: "'c client_channel" and R :: "'c \<Rightarrow> 'a \<Rightarrow> bool"
  assumes send_refines: "R c a \<Longrightarrow> cc_send A cmd a = (Ok (), a') \<Longrightarrow> \<exists>c'. cc_send C cmd c = (Ok (), c') \<and> R c' a'"
    and recv_refines: "R c a \<Longrightarrow> cc_recv A a = (Ok out, a') \<Longrightarrow> \<exists>c'. cc_recv C c = (Ok out, c') \<and> R c' a'"
begin

lemma exchange_refines [refine_rules]: "refines R (on_channel (exchange A cmd)) (on_channel (exchange C cmd))"
  unfolding refines_def
proof (intro allI impI)
  fix ma a mc c out ma'
  assume R: "R c a" and run: "on_channel (exchange A cmd) (over ma a) = (Ok out, ma')"
  then obtain a' where a': "exchange A cmd a = (Ok out, a')" "ma' = over ma a'"
    by (auto simp: on_channel_over prod_eq_iff)
  then obtain a1 where steps: "cc_send A cmd a = (Ok (), a1)" "cc_recv A a1 = (Ok out, a')"
    by (auto simp: exchange_def state_bind_eq_Ok)
  from send_refines [OF R steps(1)] obtain c1 where c1: "cc_send C cmd c = (Ok (), c1)" "R c1 a1" by blast
  from recv_refines [OF c1(2) steps(2)] obtain c' where "cc_recv C c1 = (Ok out, c')" "R c' a'" by blast
  with c1(1) a'(2) show "\<exists>a' c'. ma' = over ma a' \<and> on_channel (exchange C cmd) (over mc c) = (Ok out, over mc c') \<and> R c' a'"
    by (auto simp: on_channel_over exchange_def state_bind_def)
qed

lemma begin_transfer_refines [refine_rules]: "refines R (begin_transfer dbg A p mode n) (begin_transfer dbg C p mode n)"
  unfolding begin_transfer_def by (intro refine_rules)

lemma transfer_chunk_refines [refine_rules]:
  "refines R (send_transfer_chunk A off d l n) (send_transfer_chunk C off d l n)"
  unfolding send_transfer_chunk_def by (intro refine_rules)

lemma chunk_list_refines [refine_rules]:
  "refines R (send_chunk_list dbg A n off cs) (send_chunk_list dbg C n off cs)"
proof (induction cs arbitrary: off)
  case Nil
  show ?case unfolding send_chunk_list.simps by (rule refines_lift)
next
  case (Cons d cs)
  show ?case unfolding send_chunk_list.simps Let_def by (intro refine_rules Cons.IH)
qed

lemma inline_write_refines [refine_rules]: "refines R (send_inline_write dbg A p mode d) (send_inline_write dbg C p mode d)"
  unfolding send_inline_write_def send_bytes_as_chunks_def by (intro refine_rules)

lemma upload_loop_step:
  assumes "upload_loop dbg K L src k n off m0 = Some r0"
  shows "K = A \<longrightarrow> (\<forall>a c x ma'. m0 = over ma a \<longrightarrow> r0 = (Ok x, ma') \<longrightarrow> R c a \<longrightarrow>
    (\<exists>a' c'. ma' = over ma a' \<and> upload_loop dbg C L src k n off (over mc c) = Some (Ok x, over mc c') \<and> R c' a'))"
  using assms
proof (induction rule: upload_loop.raw_induct [rotated, consumes 1])
  case (1 f dbg K L src k n off m0 r0)
  show ?case
  proof (intro impI allI)
    fix a c x ma'
    assume K: "K = A" and m0: "m0 = over ma a" and r0: "r0 = (Ok x, ma')" and R: "R c a"
    obtain d where rd: "lf_read L src off k = Inr d" "d \<noteq> []"
      using "1.hyps" r0 by (auto split: sum.splits if_splits)
    let ?last = "off + len_u64 d = n"
    obtain out m1 where chunk: "send_transfer_chunk A off d ?last n (over ma a) = (Ok out, m1)"
      using "1.hyps" r0 rd K m0 by (auto split: prod.splits res.splits)
    obtain a1 c1 where step: "m1 = over ma a1" "send_transfer_chunk C off d ?last n (over mc c) = (Ok out, over mc c1)" "R c1 a1"
      by (rule refinesD [OF transfer_chunk_refines R chunk])
    show "\<exists>a' c'. ma' = over ma a' \<and> upload_loop dbg C L src k n off (over mc c) = Some (Ok x, over mc c') \<and> R c' a'"
    proof (cases ?last)
      case True
      with "1.hyps" r0 rd K m0 chunk step show ?thesis
        by (subst upload_loop.simps) auto
    next
      case False
      then obtain u where u: "expect_transfer_progress dbg out = Ok u" "f dbg A L src k n (off + len_u64 d) (over ma a1) = Some (Ok x, ma')"
        using "1.hyps" r0 rd K m0 chunk step(1) by (auto split: res.splits)
      from "1.IH" [OF u(2)] step(3) obtain a' c' where "ma' = over ma a'"
        "upload_loop dbg C L src k n (off + len_u64 d) (over mc c1) = Some (Ok x, over mc c')" "R c' a'"
        by blast
      with False rd step(2) u(1) show ?thesis
        by (subst upload_loop.simps) auto
    qed
  qed
qed

lemma upload_loop_refines [refine_rules]:
  "refines_opt R (upload_loop dbg A L src k n off) (upload_loop dbg C L src k n off)"
  unfolding refines_opt_def using upload_loop_step by blast

lemma upload_refines [refine_rules]: "refines_opt R (send_upload dbg A L src dst n) (send_upload dbg C L src dst n)"
  unfolding refines_opt_def
proof (intro allI impI)
  fix ma a mc c x ma'
  assume R: "R c a" and run: "send_upload dbg A L src dst n (over ma a) = Some (Ok x, ma')"
  obtain k m1 where start: "begin_transfer dbg A dst Upload n (over ma a) = (Ok k, m1)" "lf_open L src = Inr ()"
    using run by (auto simp: send_upload_def split: prod.splits res.splits sum.splits)
  obtain a1 c1 where step: "m1 = over ma a1" "begin_transfer dbg C dst Upload n (over mc c) = (Ok k, over mc c1)" "R c1 a1"
    by (rule refinesD [OF begin_transfer_refines R start(1)])
  show "\<exists>a' c'. ma' = over ma a' \<and> send_upload dbg C L src dst n (over mc c) = Some (Ok x, over mc c') \<and> R c' a'"
  proof (cases "n = 0")
    case True
    with run start step(1) have "send_transfer_chunk A 0 [] True 0 (over ma a1) = (Ok x, ma')" by (simp add: send_upload_def)
    from refinesD [OF transfer_chunk_refines step(3) this, where mc = mc] start(2) step(2) True show ?thesis
      by (simp add: send_upload_def) metis
  next
    case False
    with run start step(1) have "upload_loop dbg A L src k n 0 (over ma a1) = Some (Ok x, ma')" by (simp add: send_upload_def)
    from refines_optD [OF upload_loop_refines step(3) this, where mc = mc] start(2) step(2) False show ?thesis
      by (simp add: send_upload_def) metis
  qed
qed

lemma read_loop_step:
  assumes "read_loop dbg K preview a = Some r0"
  shows "K = A \<longrightarrow> (\<forall>c x a'. r0 = (Ok x, a') \<longrightarrow> R c a \<longrightarrow> (\<exists>c'. read_loop dbg C preview c = Some (Ok x, c') \<and> R c' a'))"
  using assms
proof (induction rule: read_loop.raw_induct [rotated, consumes 1])
  case (1 f dbg K preview a r0)
  show ?case
  proof (intro impI allI)
    fix c x a'
    assume K: "K = A" and r0: "r0 = (Ok x, a')" and R: "R c a"
    obtain out a1 where recv: "cc_recv A a = (Ok out, a1)"
      using "1.hyps" r0 K by (auto split: prod.splits res.splits)
    from recv_refines [OF R recv] obtain c1 where c1: "cc_recv C c = (Ok out, c1)" "R c1 a1" by blast
    show "\<exists>c'. read_loop dbg C preview c = Some (Ok x, c') \<and> R c' a'"
    proof (cases "\<exists>ch. out = ObjectContentChunk ch \<and> \<not> tc_is_last ch")
      case True
      then obtain ch where ch: "out = ObjectContentChunk ch" "\<not> tc_is_last ch" by blast
      let ?seen = "if length preview < READ_PREVIEW_LIMIT
                   then preview @ take (READ_PREVIEW_LIMIT - length preview) (tc_data ch) else preview"
      have "f dbg A ?seen a1 = Some (Ok x, a')" using "1.hyps" r0 K recv ch by (simp add: Let_def)
      from "1.IH" [OF this] c1(2) obtain c' where "read_loop dbg C ?seen c1 = Some (Ok x, c')" "R c' a'" by blast
      with c1(1) ch show ?thesis by (subst read_loop.simps) (auto simp: Let_def)
    next
      case False
      with "1.hyps" r0 K recv c1 show ?thesis
        by (subst read_loop.simps) (auto simp: Let_def split: fenris_output.splits if_splits)
    qed
  qed
qed

lemma chunked_read_refines [refine_rules]:
  "refines_opt R (receive_chunked_read dbg A p) (receive_chunked_read dbg C p)"
  unfolding refines_opt_def
proof (intro allI impI)
  fix ma a mc c x ma'
  assume R: "R c a" and run: "receive_chunked_read dbg A p (over ma a) = Some (Ok x, ma')"
  obtain a1 a' where steps: "cc_send A (ReadObject p) a = (Ok (), a1)" "read_loop dbg A [] a1 = Some (Ok x, a')" "ma' = over ma a'"
    using run by (auto simp: receive_chunked_read_def over_def split: prod.splits res.splits)
  from send_refines [OF R steps(1)] obtain c1 where c1: "cc_send C (ReadObject p) c = (Ok (), c1)" "R c1 a1" by blast
  from read_loop_step [OF steps(2)] c1(2) obtain c' where "read_loop dbg C [] c1 = Some (Ok x, c')" "R c' a'" by blast
  with c1(1) steps(3)
  show "\<exists>a' c'. ma' = over ma a' \<and> receive_chunked_read dbg C p (over mc c) = Some (Ok x, over mc c') \<and> R c' a'"
    by (auto simp: receive_chunked_read_def over_def)
qed

lemma plan_refines: "refines_opt R (execute_plan dbg A L plan) (execute_plan dbg C L plan)"
proof (cases plan)
  case (Single request)
  then show ?thesis
    using exchange_refines by (simp add: send_request_receive_response_def refines_def refines_opt_def)
next
  case (ChunkedRead p)
  then show ?thesis using chunked_read_refines by (simp add: refines_opt_def)
next
  case (ChunkedInlineWrite p mode d)
  then show ?thesis using inline_write_refines by (simp add: refines_def refines_opt_def)
next
  case (ChunkedUpload src dst n)
  then show ?thesis using upload_refines by (simp add: refines_opt_def)
qed

text \<open>A command line that the user sees succeed over the one channel succeeds over the other, with
  the same answer.\<close>

lemma command_refines: "refines_opt R (send_command dbg chrono A L line) (send_command dbg chrono C L line)"
  unfolding refines_opt_def
proof (intro allI impI)
  fix ma a mc c x ma'
  assume R: "R c a" and run: "send_command dbg chrono A L line (over ma a) = Some (Ok x, ma')"
  obtain plan out where plan: "build_request (lf_stat L) line = Ok plan"
    "execute_plan dbg A L plan (over ma a) = Some (Ok out, ma')" "format_response chrono out = Ok x"
    using run by (auto simp: send_command_def res_bind_eq_Ok split: res.splits)
  obtain a' c' where "ma' = over ma a'" "execute_plan dbg C L plan (over mc c) = Some (Ok out, over mc c')" "R c' a'"
    by (rule refines_optD [OF plan_refines R plan(2)])
  with plan show "\<exists>a' c'. ma' = over ma a' \<and> send_command dbg chrono C L line (over mc c) = Some (Ok x, over mc c') \<and> R c' a'"
    by (auto simp: send_command_def)
qed

end

end
