(* ===== verification/Secure_Session.thy ===== *)
theory Secure_Session
  imports Channel_Refinement Disk_Storage
begin

section \<open>A client and a server over the encrypted connection\<close>

text \<open>
  The client's manager and the server's connection, each with its own secure channel, and a
  network between them that carries the bytes one side has written to the other side's input.
  After every command the client sends, the server's loop runs one iteration on it.  The
  theory shows that this system refines the queue of \<open>Session\<close> for the messages that fit a
  frame: first that the server's handlers answer over the secure channel what they answer into
  a queue (\<open>wire_replies\<close>), then that the bytes on the wire are those answers
  (\<open>wired_refinement\<close>).  So what \<open>Session\<close> proves of a chunked write, an upload and a chunked
  read holds with the encryption, the framing and the protocol coder in between.
\<close>

subsection \<open>The server answers as into a queue\<close>

definition with_channel :: "'d \<Rightarrow> ('c, 's) connection \<Rightarrow> ('d, 's) connection" where
  "with_channel d cn =
     \<lparr>cn_id = cn_id cn, cn_channel = d, cn_current_dir = cn_current_dir cn, cn_storage = cn_storage cn,
      cn_config = cn_config cn, cn_active_write = cn_active_write cn\<rparr>"

lemma with_channel_simps [simp]:
  "cn_id (with_channel d cn) = cn_id cn" "cn_channel (with_channel d cn) = d"
  "cn_current_dir (with_channel d cn) = cn_current_dir cn" "cn_storage (with_channel d cn) = cn_storage cn"
  "cn_config (with_channel d cn) = cn_config cn" "cn_active_write (with_channel d cn) = cn_active_write cn"
  by (simp_all add: with_channel_def)

lemma with_channel_updates [simp]:
  "(with_channel d cn)\<lparr>cn_channel := e\<rparr> = with_channel e cn"
  "(with_channel d cn)\<lparr>cn_current_dir := p\<rparr> = with_channel d (cn\<lparr>cn_current_dir := p\<rparr>)"
  "(with_channel d cn)\<lparr>cn_storage := s\<rparr> = with_channel d (cn\<lparr>cn_storage := s\<rparr>)"
  "(with_channel d cn)\<lparr>cn_active_write := w\<rparr> = with_channel d (cn\<lparr>cn_active_write := w\<rparr>)"
  "with_channel d (cn\<lparr>cn_channel := c\<rparr>) = with_channel d cn"
  by (simp_all add: with_channel_def)

text \<open>A connection follows another one that writes into a queue: since the start (what the channel
  had sent was \<open>s0\<close>, what the queue held was \<open>q0\<close>) both have sent the same.\<close>

definition follows ::
  "('c \<Rightarrow> bool) \<Rightarrow> ('c \<Rightarrow> fenris_output list) \<Rightarrow> fenris_output list \<Rightarrow> fenris_output list \<Rightarrow>
   ('c, 's) connection \<Rightarrow> 's session \<Rightarrow> bool" where
  "follows live sent s0 q0 cn cq \<longleftrightarrow> live (cn_channel cn) \<and>
     (\<exists>outs. sent (cn_channel cn) = s0 @ outs \<and> cq = with_channel (q0 @ outs) cn)"

lemma follows_updates:
  assumes "follows live sent s0 q0 cn cq"
  shows "follows live sent s0 q0 (cn\<lparr>cn_storage := s\<rparr>) (cq\<lparr>cn_storage := s\<rparr>)"
    and "follows live sent s0 q0 (cn\<lparr>cn_storage := s, cn_active_write := w\<rparr>) (cq\<lparr>cn_storage := s, cn_active_write := w\<rparr>)"
    and "follows live sent s0 q0 (cn\<lparr>cn_storage := s, cn_current_dir := p\<rparr>) (cq\<lparr>cn_storage := s, cn_current_dir := p\<rparr>)"
  using assms by (auto simp: follows_def)

lemma follows_fields:
  assumes "follows live sent s0 q0 cn cq"
  shows "cn_storage cq = cn_storage cn" "cn_current_dir cq = cn_current_dir cn" "cn_active_write cq = cn_active_write cn"
  using assms by (auto simp: follows_def)

locale wire_replies = reply_channel V live fits output_on_wire sent
  for V :: "'c server_channel" and live fits sent
begin

lemma send_follows:
  assumes "follows live sent s0 q0 cn cq" "conn_send (bounded_queue fits) out cq = (Ok (), cq')"
  shows "\<exists>cn'. conn_send V out cn = (Ok (), cn') \<and> follows live sent s0 q0 cn' cq'"
proof -
  have fit: "fits out" using assms(2) by (cases "fits out") (simp_all add: conn_send_def)
  obtain c' where "conn_send V out cn = (Ok (), cn\<lparr>cn_channel := c'\<rparr>)" "live c'"
    "sent c' = sent (cn_channel cn) @ [output_on_wire out]"
    using assms(1) fit by (auto simp: follows_def elim: conn_send_live)
  with assms fit show ?thesis by (auto simp: follows_def conn_send_def)
qed

lemma stream_follows:
  assumes "send_chunks_from K B p off cq = Some r0"
  shows "K = bounded_queue fits \<longrightarrow> (\<forall>cn cq'. r0 = (Ok (), cq') \<longrightarrow> follows live sent s0 q0 cn cq \<longrightarrow>
    (\<exists>cn'. send_chunks_from V B p off cn = Some (Ok (), cn') \<and> follows live sent s0 q0 cn' cq'))"
  using assms
proof (induction rule: send_chunks_from.raw_induct [rotated, consumes 1])
  case (1 f K B p off cq r0)
  show ?case
  proof (intro impI allI)
    fix cn cq'
    assume K: "K = bounded_queue fits" and r0: "r0 = (Ok (), cq')" and F: "follows live sent s0 q0 cn cq"
    note same = follows_fields [OF F]
    obtain x s' where rd: "read_object_chunk B p (cn_current_dir cn) off (cn_storage cn) = (x, s')"
      by (cases "read_object_chunk B p (cn_current_dir cn) off (cn_storage cn)")
    note F' = follows_updates(1) [OF F, where s = s']
    show "\<exists>cn'. send_chunks_from V B p off cn = Some (Ok (), cn') \<and> follows live sent s0 q0 cn' cq'"
    proof (cases x)
      case (Ok ch)
      obtain cq1 where q: "conn_send (bounded_queue fits) (ObjectContentChunk ch) (cq\<lparr>cn_storage := s'\<rparr>) = (Ok (), cq1)"
        "if tc_is_last ch then cq1 = cq' else f K B p (tc_offset ch + len_u64 (tc_data ch)) cq1 = Some (Ok (), cq')"
        using "1.hyps" r0 K rd Ok same by (auto split: prod.splits res.splits if_splits)
      from send_follows [OF F' q(1)] obtain cn1 where
        cn1: "conn_send V (ObjectContentChunk ch) (cn\<lparr>cn_storage := s'\<rparr>) = (Ok (), cn1)" "follows live sent s0 q0 cn1 cq1"
        by blast
      show ?thesis
      proof (cases "tc_is_last ch")
        case True
        with Ok rd cn1 q show ?thesis by (subst send_chunks_from.simps) auto
      next
        case False
        with "1.IH" [of K B p "tc_offset ch + len_u64 (tc_data ch)" cq1] K q(2) cn1(2) obtain cn' where
          "send_chunks_from V B p (tc_offset ch + len_u64 (tc_data ch)) cn1 = Some (Ok (), cn')" "follows live sent s0 q0 cn' cq'"
          by auto
        with False Ok rd cn1 show ?thesis by (subst send_chunks_from.simps) auto
      qed
    next
      case (Err e)
      then have "conn_send (bounded_queue fits) (ErrorOutput (error_to_string e)) (cq\<lparr>cn_storage := s'\<rparr>) = (Ok (), cq')"
        using "1.hyps" r0 K rd same by simp
      from send_follows [OF F' this] Err rd show ?thesis by (subst send_chunks_from.simps) auto
    next
      case Panic
      then show ?thesis using "1.hyps" r0 K rd same by simp
    qed
  qed
qed

lemma begin_follows:
  assumes F: "follows live sent s0 q0 cn cq" and run: "conn_begin_object_write (bounded_queue fits) B p mode n cq = (Ok (), cq')"
  shows "\<exists>cn'. conn_begin_object_write V B p mode n cn = (Ok (), cn') \<and> follows live sent s0 q0 cn' cq'"
proof -
  note same = follows_fields [OF F]
  obtain x s' where bw: "begin_object_write B p mode n (cn_current_dir cn) (cn_storage cn) = (x, s')"
    by (cases "begin_object_write B p mode n (cn_current_dir cn) (cn_storage cn)")
  show ?thesis
    using run send_follows [OF F] send_follows [OF follows_updates(1) [OF F, where s = s']]
      send_follows [OF follows_updates(2) [OF F, where s = s']] bw same
    by (auto simp: conn_begin_object_write_def split: if_splits res.splits)
qed

lemma chunk_follows:
  assumes F: "follows live sent s0 q0 cn cq" and run: "conn_write_object_chunk (bounded_queue fits) B ch cq = (Ok (), cq')"
  shows "\<exists>cn'. conn_write_object_chunk V B ch cn = (Ok (), cn') \<and> follows live sent s0 q0 cn' cq'"
proof -
  note same = follows_fields [OF F]
  show ?thesis
  proof (cases "cn_active_write cn")
    case None
    then show ?thesis using run send_follows [OF F] same by (simp add: conn_write_object_chunk_def)
  next
    case (Some t)
    obtain x t' s' where wr: "handler_write_object_chunk B t ch DEFAULT_TRANSFER_CHUNK_SIZE (cn_storage cn) = (x, t', s')"
      by (cases "handler_write_object_chunk B t ch DEFAULT_TRANSFER_CHUNK_SIZE (cn_storage cn)")
    show ?thesis
      using run send_follows [OF follows_updates(2) [OF F, where s = s']] wr same Some
      by (cases x) (simp_all add: conn_write_object_chunk_def)
  qed
qed

lemma process_follows:
  assumes F: "follows live sent s0 q0 cn cq" and run: "conn_process (bounded_queue fits) B cmd cq = (Ok (), cq')"
  shows "\<exists>cn'. conn_process V B cmd cn = (Ok (), cn') \<and> follows live sent s0 q0 cn' cq'"
proof -
  note same = follows_fields [OF F]
  obtain x s' p where pr: "process_command B cmd (cn_storage cn, cn_current_dir cn) = (x, (s', p))"
    by (cases "process_command B cmd (cn_storage cn, cn_current_dir cn)") auto
  show ?thesis
    using run send_follows [OF follows_updates(3) [OF F, where s = s' and p = p]] pr same
    by (cases x) (simp_all add: conn_process_def)
qed

lemma handle_follows:
  assumes F: "follows live sent s0 q0 cn cq"
    and run: "conn_handle_command (bounded_queue fits) B cmd cq = Some (Ok (), cq')"
  shows "\<exists>cn'. conn_handle_command V B cmd cn = Some (Ok (), cn') \<and> follows live sent s0 q0 cn' cq'"
  using run stream_follows [where K = "bounded_queue fits" and B = B and off = 0 and cq = cq] F
    begin_follows [OF F] chunk_follows [OF F] process_follows [OF F]
  by (cases cmd) (simp_all add: send_object_content_chunks_def)

end

subsection \<open>The bytes of a sequence of answers\<close>

definition decodes :: "prost \<Rightarrow> secure_channel \<Rightarrow> bytes \<Rightarrow> fenris_output list \<Rightarrow> bool" where
  "decodes Q ch x ms \<longleftrightarrow> recv_msgs (output_codec Q) (length ms) (reader ch x) = (Ok ms, reader ch [])"

lemma reader_peers: "peers ch ch' \<Longrightarrow> reader ch x = reader ch' x"
  by (cases ch; cases ch') (simp add: peers_def reader_def)

lemma reader_input: "ts_in (sc_stream (reader ch x)) = x" "with_input (reader ch x) y = reader ch y"
  by (simp_all add: reader_def)

lemma recv_msg_reader:
  assumes "recv_msg K (reader ch x) = (Ok m, c1)"
  obtains u y where "x = u @ y" "c1 = reader ch y" "\<And>z. recv_msg K (reader ch (u @ z)) = (Ok m, reader ch z)"
proof -
  from recv_msg_input [OF assms] obtain u where u: "x = u @ ts_in (sc_stream c1)"
    "c1 = reader ch (ts_in (sc_stream c1))" "\<And>y. recv_msg K (reader ch (u @ y)) = (Ok m, reader ch y)"
    unfolding reader_input by blast
  show thesis by (rule that [OF u])
qed

lemma reader_eq: "reader ch x = reader ch y \<longleftrightarrow> x = y"
  by (metis reader_input(1))

lemma decodes_Nil: "decodes Q ch x [] \<longleftrightarrow> x = []"
  by (simp add: decodes_def state_return_def reader_eq)

lemma decodes_Cons:
  "decodes Q ch x (m # ms) \<longleftrightarrow>
     (\<exists>y. recv_msg (output_codec Q) (reader ch x) = (Ok m, reader ch y) \<and> decodes Q ch y ms)"
proof
  assume "decodes Q ch x (m # ms)"
  then obtain c1 where c1: "recv_msg (output_codec Q) (reader ch x) = (Ok m, c1)"
    "recv_msgs (output_codec Q) (length ms) c1 = (Ok ms, reader ch [])"
    by (auto simp: decodes_def state_bind_eq_Ok)
  from recv_msg_reader [OF c1(1)] obtain y where "c1 = reader ch y" by blast
  with c1 show "\<exists>y. recv_msg (output_codec Q) (reader ch x) = (Ok m, reader ch y) \<and> decodes Q ch y ms"
    by (auto simp: decodes_def)
qed (auto simp: decodes_def)

lemma decodes_append: "decodes Q ch x ms \<Longrightarrow> decodes Q ch y ns \<Longrightarrow> decodes Q ch (x @ y) (ms @ ns)"
proof (induction ms arbitrary: x)
  case (Cons m ms)
  then obtain z where z: "recv_msg (output_codec Q) (reader ch x) = (Ok m, reader ch z)" "decodes Q ch z ms"
    by (auto simp: decodes_Cons)
  from recv_msg_reader [OF z(1)] obtain u v where u: "x = u @ v" "reader ch z = reader ch v"
    "\<And>w. recv_msg (output_codec Q) (reader ch (u @ w)) = (Ok m, reader ch w)" by blast
  from u(2) have "v = z" by (simp add: reader_eq)
  with u(1) u(3) [of "z @ y"] Cons.IH [OF z(2) Cons.prems(2)] show ?case by (auto simp: decodes_Cons)
qed (simp add: decodes_Nil)

lemma recv_msg_of_reader:
  assumes "recv_msg K (reader ch (ts_in (sc_stream ch))) = (Ok m, reader ch y)"
  shows "recv_msg K ch = (Ok m, with_input ch y)"
proof -
  obtain packet z buf where p: "ts_in (sc_stream ch) = framed packet @ y"
    "open_sealed (sc_crypto ch) packet (sc_key ch) = Ok z" "decompress (sc_compressor ch) z = Ok buf"
    "cd_decode K buf = Ok m" "length packet \<le> DEFAULT_MAX_FRAME_SIZE"
    by (rule recv_msg_Ok [OF assms]) (simp add: reader_def)
  from recv_msg_framed [OF p(1,5,2-4)] show ?thesis .
qed

subsection \<open>The wire\<close>

record 's wired =
  wr_client :: link
  wr_server :: "(link, 's) connection"
  wr_up :: nat
  wr_down :: nat
  wr_running :: bool

text \<open>Everything an end has written, and bytes that reach an end.  The first \<open>wr_up\<close> bytes that the
  client has written have reached the server, the first \<open>wr_down\<close> of the server's the client.\<close>

definition written :: "link \<Rightarrow> bytes" where
  "written l = ts_out (sc_stream (fst l))"

definition arrives :: "bytes \<Rightarrow> link \<Rightarrow> link" where
  "arrives x l = (with_input (fst l) (ts_in (sc_stream (fst l)) @ x), snd l)"

definition wire_up :: "link \<Rightarrow> (link, 's) connection \<Rightarrow> 's wired" where
  "wire_up l cn =
     \<lparr>wr_client = l, wr_server = cn, wr_up = length (written l), wr_down = length (written (cn_channel cn)),
      wr_running = True\<rparr>"

text \<open>What the client has written reaches the server, whose loop runs one iteration on it, and what
  the server writes meanwhile reaches the client.\<close>

definition server_turn :: "prost \<Rightarrow> 's storage_backend \<Rightarrow> 's wired \<Rightarrow> 's wired" where
  "server_turn Q B w =
     (if \<not> wr_running w then w
      else
        (let cn = wr_server w;
             up = drop (wr_up w) (written (wr_client w)) in
         case conn_run (secure_server_channel Q) B [Arrived] (cn\<lparr>cn_channel := arrives up (cn_channel cn)\<rparr>) of
           None \<Rightarrow> w\<lparr>wr_running := False\<rparr>
         | Some (st, cn') \<Rightarrow>
             \<lparr>wr_client = arrives (drop (wr_down w) (written (cn_channel cn'))) (wr_client w), wr_server = cn',
              wr_up = length (written (wr_client w)), wr_down = length (written (cn_channel cn')),
              wr_running = (st = Running)\<rparr>))"

definition wired_send :: "prost \<Rightarrow> 's storage_backend \<Rightarrow> fenris_command \<Rightarrow> ('s wired, unit) action" where
  "wired_send Q B cmd w =
     (case cc_send (secure_client_channel Q) cmd (wr_client w) of
        (Ok u, l) \<Rightarrow> (Ok u, server_turn Q B (w\<lparr>wr_client := l\<rparr>))
      | (x, l) \<Rightarrow> (x, w\<lparr>wr_client := l\<rparr>))"

definition wired_recv :: "prost \<Rightarrow> ('s wired, fenris_output) action" where
  "wired_recv Q w = (let (x, l) = cc_recv (secure_client_channel Q) (wr_client w) in (x, w\<lparr>wr_client := l\<rparr>))"

definition wired_channel :: "prost \<Rightarrow> 's storage_backend \<Rightarrow> 's wired client_channel" where
  "wired_channel Q B = \<lparr>cc_send = wired_send Q B, cc_recv = wired_recv Q\<rparr>"

text \<open>The commands that fit a frame, but for the one that ends the loop.\<close>

definition command_small :: "fenris_command \<Rightarrow> bool" where
  "command_small cmd \<longleftrightarrow> \<not> is_terminate cmd \<and>
     2 * request_size (request_from_command cmd) + 128 + IV_SIZE + TAG_SIZE \<le> DEFAULT_MAX_FRAME_SIZE"

subsection \<open>The wire refines the queue\<close>

definition sound_end :: "crypto_primitives \<Rightarrow> secure_channel \<Rightarrow> bool" where
  "sound_end P ch \<longleftrightarrow> ts_room (sc_stream ch) = None \<and> cm_encryptor (sc_crypto ch) = AesGcmEncryptor P \<and>
     mgr_compressor (sc_compressor ch) = NullCompressor \<and> length (sc_key ch) = KEY_SIZE"

definition trusted_wire :: "crypto_primitives \<Rightarrow> prost \<Rightarrow> bool" where
  "trusted_wire P Q \<longleftrightarrow> aead_ok P \<and> prost_ok Q \<and> prost_compact Q"

definition wired_as :: "crypto_primitives \<Rightarrow> prost \<Rightarrow> 's wired \<Rightarrow> 's session \<Rightarrow> bool" where
  "wired_as P Q w cq \<longleftrightarrow> trusted_wire P Q \<and> wr_running w \<and>
     (let ch = fst (wr_client w); sch = fst (cn_channel (wr_server w)) in
      sound_end P ch \<and> sound_end P sch \<and> peers ch sch \<and> ts_in (sc_stream sch) = [] \<and>
      wr_up w = length (ts_out (sc_stream ch)) \<and> wr_down w = length (ts_out (sc_stream sch)) \<and>
      decodes Q ch (ts_in (sc_stream ch)) (cn_channel cq) \<and> cq = with_channel (cn_channel cq) (wr_server w))"

definition paired :: "crypto_primitives \<Rightarrow> prost \<Rightarrow> nat \<Rightarrow> secure_channel \<Rightarrow> link \<Rightarrow> bool" where
  "paired P Q n0 tx l \<longleftrightarrow> prost_compact Q \<and> secure_live P Q n0 l \<and> peers tx (fst l) \<and> ts_in (sc_stream (fst l)) = []"

interpretation paired_replies: wire_replies "secure_server_channel Q" "paired P Q n0 tx" reply_small "delivered Q n0"
  for P Q n0 tx
proof
  fix c :: link and out
  assume live: "paired P Q n0 tx c" and small: "reply_small out"
  obtain ch r where c: "c = (ch, r)" by (cases c)
  have fits: "reply_fits Q out" using live small by (auto simp: paired_def intro: reply_small_fits)
  obtain s' r' packet where run: "send_msg (output_codec Q) out (ch, r) = (Ok (), (ch\<lparr>sc_stream := s'\<rparr>, r'))"
    "s' = (sc_stream ch)\<lparr>ts_out := ts_out (sc_stream ch) @ framed packet\<rparr>"
    using secure_send_live [of P Q n0 ch r out] live fits by (auto simp: paired_def c)
  obtain c' where "sv_send (secure_server_channel Q) out c = (Ok (), c')" "secure_live P Q n0 c'"
    "delivered Q n0 c' = delivered Q n0 c @ [output_on_wire out]"
    using secure_replies.send_live [of P Q n0 c out] live fits by (auto simp: paired_def)
  with live run show "\<exists>c'. sv_send (secure_server_channel Q) out c = (Ok (), c') \<and> paired P Q n0 tx c' \<and>
      delivered Q n0 c' = delivered Q n0 c @ [output_on_wire out]"
    by (auto simp: paired_def secure_server_channel_def c)
qed

lemma wired_asD:
  assumes "wired_as P Q w cq"
  shows "aead_ok P" "prost_ok Q" "prost_compact Q" "wr_running w"
    and "sound_end P (fst (wr_client w))" "sound_end P (fst (cn_channel (wr_server w)))"
    and "peers (fst (wr_client w)) (fst (cn_channel (wr_server w)))"
    and "ts_in (sc_stream (fst (cn_channel (wr_server w)))) = []"
    and "wr_up w = length (ts_out (sc_stream (fst (wr_client w))))"
    and "wr_down w = length (ts_out (sc_stream (fst (cn_channel (wr_server w)))))"
    and "decodes Q (fst (wr_client w)) (ts_in (sc_stream (fst (wr_client w)))) (cn_channel cq)"
    and "cq = with_channel (cn_channel cq) (wr_server w)"
  using assms by (simp_all add: wired_as_def trusted_wire_def Let_def)

lemma wired_recv_refines:
  assumes W: "wired_as P Q w cq" and run: "session_recv cq = (Ok out, cq')"
  shows "\<exists>w'. wired_recv Q w = (Ok out, w') \<and> wired_as P Q w' cq'"
proof -
  obtain ch r where l: "wr_client w = (ch, r)" by (cases "wr_client w")
  obtain q where q: "cn_channel cq = out # q" "cq' = cq\<lparr>cn_channel := q\<rparr>"
    using run by (auto simp: session_recv_def split: list.splits)
  obtain y where "recv_msg (output_codec Q) (reader ch (ts_in (sc_stream ch))) = (Ok out, reader ch y)" and dec: "decodes Q ch y q"
    using wired_asD(11) [OF W] q(1) by (auto simp: l decodes_Cons)
  from recv_msg_of_reader [OF this(1)] dec have y: "recv_msg (output_codec Q) ch = (Ok out, with_input ch y)" "decodes Q ch y q"
    by simp_all
  have keep: "reader (with_input ch y) x = reader ch x" "cq' = with_channel q (wr_server w)" for x
    using q(2) wired_asD(12) [OF W] by (simp_all add: reader_def) (metis with_channel_updates(1))
  have "wired_as P Q (w\<lparr>wr_client := (with_input ch y, r)\<rparr>) cq'"
    using W y(2) keep by (auto simp: wired_as_def Let_def l sound_end_def decodes_def peers_def)
  with y(1) show ?thesis by (auto simp: wired_recv_def secure_client_channel_def l)
qed

lemma command_sent:
  assumes "wired_as P Q w cq" "command_small cmd" "wr_client w = (ch, r)"
  obtains ch' r' packet where "send_msg (command_codec Q) cmd (ch, r) = (Ok (), (ch', r'))"
    "ch' = ch\<lparr>sc_stream := (sc_stream ch)\<lparr>ts_out := ts_out (sc_stream ch) @ framed packet\<rparr>\<rparr>"
proof -
  note W = wired_asD [OF assms(1)]
  obtain bs where bs: "command_encode Q cmd = Ok bs" using command_wire.encode_total [OF W(2), of cmd] by auto
  have "length bs + IV_SIZE + TAG_SIZE \<le> DEFAULT_MAX_FRAME_SIZE"
    using prost_compact_lengths(1) [OF W(3) bs] assms(2) by (simp add: command_small_def)
  then obtain s' r' packet where "send_msg (command_codec Q) cmd (ch, r) = (Ok (), (ch\<lparr>sc_stream := s'\<rparr>, r'))"
    "s' = (sc_stream ch)\<lparr>ts_out := ts_out (sc_stream ch) @ framed packet\<rparr>"
    using send_msg_fits [OF W(1), of ch "command_codec Q" cmd bs r] W(5) bs assms(3) by (auto simp: sound_end_def)
  with that show thesis by blast
qed

lemma command_reaches_server:
  assumes W: "wired_as P Q w cq" and l: "wr_client w = (ch, r)"
    and sent: "send_msg (command_codec Q) cmd (ch, r) = (Ok (), (ch', r'))"
      "ch' = ch\<lparr>sc_stream := (sc_stream ch)\<lparr>ts_out := ts_out (sc_stream ch) @ framed packet\<rparr>\<rparr>"
  shows "receive_command (secure_server_channel Q) False
      ((wr_server w)\<lparr>cn_channel := arrives (framed packet) (cn_channel (wr_server w))\<rparr>) = (Ok (command_on_wire cmd), wr_server w)"
proof -
  obtain sch sr where c: "cn_channel (wr_server w) = (sch, sr)" by (cases "cn_channel (wr_server w)")
  note D = wired_asD [OF W, unfolded l c fst_conv]
  have "recv_msg (command_codec Q) (with_input sch (framed packet)) = (Ok (command_on_wire cmd), with_input sch [])"
    using command_link.send_recv [of P Q ch "with_input sch (framed packet)" cmd r "()" ch' r' "framed packet" "[]"]
      D sent by (simp add: sound_end_def)
  moreover have "with_input sch [] = sch" using D(8) by (cases sch; cases "sc_stream sch") simp
  moreover have "(wr_server w)\<lparr>cn_channel := (sch, sr)\<rparr> = wr_server w" using c by (cases "wr_server w") simp
  ultimately show ?thesis
    using D(8) by (simp add: receive_command_def secure_server_channel_def arrives_def c)
qed

lemma server_ready:
  assumes W: "wired_as P Q w cq" and c: "cn_channel (wr_server w) = (sch, sr)"
  shows "follows (paired P Q (wr_down w) (fst (wr_client w))) (delivered Q (wr_down w)) [] (cn_channel cq) (wr_server w) cq"
proof -
  note D = wired_asD [OF W, unfolded c fst_conv]
  have none: "recv_msgs (output_codec Q) (length []) (mirror (wr_down w) sch) = (Ok [], reader sch [])"
    using D(10) by (simp add: mirror_def state_return_def)
  then have "secure_live P Q (wr_down w) (sch, sr)"
    unfolding secure_live_def using D(1-3,6,10) by (auto simp: sound_end_def simp del: recv_msgs.simps intro!: exI [of _ "[]"])
  moreover have "delivered Q (wr_down w) (sch, sr) = []" using delivered_eq [OF none] by simp
  ultimately show ?thesis
    using D c by (simp add: follows_def paired_def)
qed

lemma wired_send_refines:
  assumes W: "wired_as P Q w cq" and run: "bounded_send command_small reply_small B cmd cq = (Ok (), cq')"
  shows "\<exists>w'. wired_send Q B cmd w = (Ok (), w') \<and> wired_as P Q w' cq'"
proof -
  note D = wired_asD [OF W]
  have cmd: "command_small cmd" "conn_handle_command (bounded_queue reply_small) B (command_on_wire cmd) cq = Some (Ok (), cq')"
    using run by (simp_all add: bounded_send_Ok)
  obtain ch r where l: "wr_client w = (ch, r)" by (cases "wr_client w")
  obtain sch sr where c: "cn_channel (wr_server w) = (sch, sr)" by (cases "cn_channel (wr_server w)")
  obtain ch' r' packet where sent: "send_msg (command_codec Q) cmd (ch, r) = (Ok (), (ch', r'))"
    and ch': "ch' = ch\<lparr>sc_stream := (sc_stream ch)\<lparr>ts_out := ts_out (sc_stream ch) @ framed packet\<rparr>\<rparr>"
    by (rule command_sent [OF W cmd(1) l])
  let ?n = "wr_down w"
  from paired_replies.handle_follows [OF server_ready [OF W c] cmd(2)] obtain cn' where
    cn': "conn_handle_command (secure_server_channel Q) B (command_on_wire cmd) (wr_server w) = Some (Ok (), cn')"
    "follows (paired P Q ?n (fst (wr_client w))) (delivered Q ?n) [] (cn_channel cq) cn' cq'"
    by blast
  obtain sch' sr' where c': "cn_channel cn' = (sch', sr')" by (cases "cn_channel cn'")
  have live: "secure_live P Q ?n (sch', sr')" "peers ch sch'" "ts_in (sc_stream sch') = []"
    and out: "cq' = with_channel (cn_channel cq @ delivered Q ?n (sch', sr')) cn'"
    using cn'(2) by (auto simp: follows_def paired_def c' l)
  have "\<not> is_terminate (command_on_wire cmd)"
    using cmd(1) by (cases cmd) (simp_all add: command_small_def is_terminate_def)
  then have loop: "conn_run (secure_server_channel Q) B [Arrived]
      ((wr_server w)\<lparr>cn_channel := arrives (framed packet) (cn_channel (wr_server w))\<rparr>) = Some (Running, cn')"
    using command_reaches_server [OF W l sent ch'] cn'(1) by simp
  let ?fresh = "drop ?n (ts_out (sc_stream sch'))"
  let ?w = "\<lparr>wr_client = arrives ?fresh (ch', r'), wr_server = cn', wr_up = length (ts_out (sc_stream ch')),
             wr_down = length (ts_out (sc_stream sch')), wr_running = True\<rparr>"
  have "wired_send Q B cmd w = (Ok (), ?w)"
    using sent loop D(4,9) by (simp add: wired_send_def server_turn_def secure_client_channel_def l c' ch' written_def Let_def)
  moreover have "decodes Q ch (ts_in (sc_stream ch) @ ?fresh) (cn_channel cq @ delivered Q ?n (sch', sr'))"
  proof (rule decodes_append)
    obtain ms where ms: "recv_msgs (output_codec Q) (length ms) (mirror ?n sch') = (Ok ms, reader sch' [])"
      using live(1) by (auto simp: secure_live_def)
    with delivered_eq [OF ms] show "decodes Q ch ?fresh (delivered Q ?n (sch', sr'))"
      by (simp add: decodes_def mirror_def reader_peers [OF live(2)])
  qed (use D(11) l in simp)
  then have "wired_as P Q ?w cq'"
    using D live out
    by (simp add: wired_as_def trusted_wire_def Let_def arrives_def c' ch' l sound_end_def secure_live_def decodes_def
        reader_def peers_def)
  ultimately show ?thesis by blast
qed

lemma wired_storage: "wired_as P Q w cq \<Longrightarrow> cn_storage (wr_server w) = cn_storage cq"
  using wired_asD(12) [of P Q w cq] by (metis with_channel_simps(4))

interpretation wired_refinement: channel_refinement "bounded_session command_small reply_small B" "wired_channel Q B" "wired_as P Q"
  for B P Q
  using wired_send_refines wired_recv_refines by unfold_locales (simp_all add: wired_channel_def)

lemma path_command_small:
  assumes "utf8_valid p" "length p \<le> DEFAULT_TRANSFER_CHUNK_SIZE"
  shows "command_small (BeginObjectWrite p mode n)" "command_small (ReadObject p)"
  using assms
  by (simp_all add: command_small_def is_terminate_def request_size_def mk_request_def request_with_details_def
      to_string_lossy_def utf8_lossy_valid key_sizes DEFAULT_TRANSFER_CHUNK_SIZE_def DEFAULT_MAX_FRAME_SIZE_def)

interpretation small_carrier: transfer_carrier reply_small command_small
proof
  show "reply_small (transfer_complete n)" for n
    using transfer_complete_length [of n] unfolding transfer_complete_def
    by (intro text_reply_small ascii_valid transfer_complete_ascii)
  show "reply_small (ErrorOutput ''Transfer already active'')"
    by (rule text_reply_small) (simp_all add: ascii_valid ascii_def code_of_def DEFAULT_TRANSFER_CHUNK_SIZE_def)
  show "command_small (WriteObjectChunk ch)" if "length (tc_data ch) \<le> DEFAULT_TRANSFER_CHUNK_SIZE" for ch
    using that by (simp add: command_small_def is_terminate_def request_size_def request_with_details_def chunk_to_proto_def
        to_string_lossy_def utf8_lossy_valid key_sizes DEFAULT_TRANSFER_CHUNK_SIZE_def DEFAULT_MAX_FRAME_SIZE_def)
qed (simp_all add: ack_reply_small chunk_reply_small)

subsection \<open>A reply that does not fit a frame\<close>

lemma send_msg_oversized:
  assumes "aead_ok P" "sound_end P ch" "cd_encode K msg = Ok bs" "DEFAULT_MAX_FRAME_SIZE < length bs + IV_SIZE + TAG_SIZE"
  shows "\<exists>e r'. send_msg K msg (ch, r) = (Err e, (ch, r'))"
proof -
  obtain x r' where sl: "seal (sc_crypto ch) bs (sc_key ch) r = (x, r')" by (cases "seal (sc_crypto ch) bs (sc_key ch) r")
  have cmp: "compress (sc_compressor ch) bs = Ok bs"
    using assms(2) by (simp add: sound_end_def compress_def NullCompressor_def)
  show ?thesis
  proof (cases x)
    case (Ok packet)
    then have "DEFAULT_MAX_FRAME_SIZE < length packet"
      using seal_length [of P "sc_crypto ch" bs "sc_key ch" r packet r'] sl assms by (simp add: sound_end_def)
    then have "send_prefixed packet (sc_stream ch) = (Err (FrameTooLarge DEFAULT_MAX_FRAME_SIZE (length packet)), sc_stream ch)"
      by (simp add: send_prefixed_def send_prefixed_with_limits_def frame_send_def frame_limits_default_def)
    with Ok sl cmp assms(3) show ?thesis by (simp add: send_msg.simps on_channel_stream_apply)
  next
    case (Err e)
    with sl cmp assms(3) show ?thesis by (simp add: send_msg.simps)
  next
    case Panic
    then show ?thesis using aes.seal_not_Panic [of "sc_crypto ch" P bs "sc_key ch" r] sl assms(2) by (simp add: sound_end_def)
  qed
qed

lemma no_reply: "ts_in (sc_stream ch) = [] \<Longrightarrow>
    recv_msg K ch = (Err (NetworkError (IoError UnexpectedEof ''early eof'')), with_input ch [])"
  by (simp add: recv_msg_def on_channel_stream_apply receive_prefixed_def receive_prefixed_with_limits_def
      frame_receive_def read_exact_def state_bind_def)

text \<open>The server closes the connection without an answer; the client reads the end of the stream.\<close>

lemma oversized_reply_drops:
  assumes W: "wired_as P Q w cq" and idle: "cn_channel cq = []" and small: "command_small cmd"
    and plain: "\<And>cn. conn_handle_command (secure_server_channel Q) B (command_on_wire cmd) cn =
      Some (conn_process (secure_server_channel Q) B (command_on_wire cmd) cn)"
    and run: "process_command B (command_on_wire cmd) (cn_storage cq, cn_current_dir cq) = (Ok out, (s', dir'))"
    and large: "output_encode Q out = Ok bs" "DEFAULT_MAX_FRAME_SIZE < length bs + IV_SIZE + TAG_SIZE"
  shows "\<exists>w'. exchange (wired_channel Q B) cmd w = (Err (NetworkError (IoError UnexpectedEof ''early eof'')), w') \<and> \<not> wr_running w'"
proof -
  note D = wired_asD [OF W]
  obtain ch r where l: "wr_client w = (ch, r)" by (cases "wr_client w")
  obtain sch sr where c: "cn_channel (wr_server w) = (sch, sr)" by (cases "cn_channel (wr_server w)")
  obtain ch' r' packet where sent: "send_msg (command_codec Q) cmd (ch, r) = (Ok (), (ch', r'))"
    and ch': "ch' = ch\<lparr>sc_stream := (sc_stream ch)\<lparr>ts_out := ts_out (sc_stream ch) @ framed packet\<rparr>\<rparr>"
    by (rule command_sent [OF W small l])
  have "cn_storage cq = cn_storage (wr_server w)" "cn_current_dir cq = cn_current_dir (wr_server w)"
    using D(12) by (metis with_channel_simps(4), metis with_channel_simps(3))
  moreover obtain e r2 where "send_msg (output_codec Q) out (sch, sr) = (Err e, (sch, r2))"
    using send_msg_oversized [of P sch "output_codec Q" out bs sr] D(1,6) large c by auto
  ultimately have "conn_process (secure_server_channel Q) B (command_on_wire cmd) (wr_server w) =
      (Err e, (wr_server w)\<lparr>cn_storage := s', cn_current_dir := dir', cn_channel := (sch, r2)\<rparr>)"
    using run c by (simp add: conn_process_def conn_send_def secure_server_channel_def)
  moreover have "\<not> is_terminate (command_on_wire cmd)"
    using small by (cases cmd) (simp_all add: command_small_def is_terminate_def)
  ultimately have loop: "conn_run (secure_server_channel Q) B [Arrived]
      ((wr_server w)\<lparr>cn_channel := arrives (framed packet) (cn_channel (wr_server w))\<rparr>) =
      Some (Closed (Ok ()), (wr_server w)\<lparr>cn_storage := s', cn_current_dir := dir', cn_channel := (sch, r2)\<rparr>)"
    using command_reaches_server [OF W l sent ch'] plain by simp
  have quiet: "ts_in (sc_stream ch) = []" "wr_down w = length (ts_out (sc_stream sch))"
    using D(10,11) idle by (simp_all add: decodes_Nil l c)
  then have "fst (wired_recv Q (snd (wired_send Q B cmd w))) = Err (NetworkError (IoError UnexpectedEof ''early eof''))"
    and "fst (wired_send Q B cmd w) = Ok ()" "\<not> wr_running (snd (wired_recv Q (snd (wired_send Q B cmd w))))"
    using sent loop D(4,9) no_reply [of ch' "output_codec Q"]
    by (simp_all add: wired_send_def wired_recv_def server_turn_def secure_client_channel_def l c ch' written_def
        arrives_def no_reply Let_def)
  then show ?thesis
    by (cases "wired_send Q B cmd w"; cases "wired_recv Q (snd (wired_send Q B cmd w))")
      (simp add: exchange_def state_bind_def wired_channel_def)
qed

subsection \<open>From the handshake to the session\<close>

text \<open>Streams that have just been connected: what the two ends write during the authenticated
  handshake is what the other end has to read.\<close>

definition connected_streams :: "identity_primitives \<Rightarrow> crypto_primitives \<Rightarrow> server_identity_key \<Rightarrow> wire \<Rightarrow> wire \<Rightarrow> bool" where
  "connected_streams I P k cw sw \<longleftrightarrow>
     (let A = snd (fst (x25519_generate_keypair P (snd cw)));
          B = snd (fst (x25519_generate_keypair P (snd sw)));
          i = public_key I k in
      ts_room (fst cw) = None \<and> ts_room (fst sw) = None \<and> ts_in (fst sw) = framed A \<and>
      ts_in (fst cw) = framed B @ framed (identity_bytes i) @
        framed (sign_transcript I k (server_identity_transcript A B i DEFAULT_KDF_CONTEXT)))"

definition trusted_keys :: "identity_primitives \<Rightarrow> crypto_primitives \<Rightarrow> server_identity_key \<Rightarrow> bool" where
  "trusted_keys I P k \<longleftrightarrow> x25519_ok P \<and> hkdf_ok P \<and> ed25519_ok I \<and> length (signing_key k) = SERVER_IDENTITY_KEY_SIZE"

text \<open>The manager with another channel in place of its own.\<close>

definition plugged :: "'c connection_manager \<Rightarrow> 'd \<Rightarrow> 'd connection_manager" where
  "plugged m d = \<lparr>mg_server_info = mg_server_info m, mg_server_identity = mg_server_identity m, mg_channel = Some d\<rparr>"

lemma over_plugged: "over (plugged m d) e = plugged m e"
  by (simp add: over_def plugged_def)

lemma plugged_over: "plugged m d = over (plugged m d) d"
  by (simp add: over_plugged)

lemma wire_up_as:
  assumes "trusted_wire P Q" "sound_end P ch" "sound_end P sch" "peers ch sch"
    and "ts_in (sc_stream ch) = []" "ts_in (sc_stream sch) = []" "cn_channel cn = (sch, sr)"
  shows "wired_as P Q (wire_up (ch, r) cn) (with_channel [] cn)"
  using assms by (simp add: wired_as_def wire_up_def written_def Let_def decodes_Nil)

lemma connected:
  assumes keys: "trusted_keys I P k" "trusted_wire P Q" and streams: "connected_streams I P k cw sw"
    and m: "mg_server_info m = Some i" "mg_server_identity m = Some (public_key I k)" "dial (to_socket_addr i) = Inr cw"
  shows "\<exists>l cn. connect I P dial m = (Ok (), m\<lparr>mg_channel := Some l\<rparr>) \<and>
    accept_authenticated I P cid st config k False sw = Ok cn \<and>
    cn_storage cn = st \<and> cn_current_dir cn = ''/'' \<and> cn_active_write cn = None \<and>
    wired_as P Q (wire_up l cn) (with_channel [] cn)"
proof -
  obtain cs rc ss rs where w: "cw = (cs, rc)" "sw = (ss, rs)" by (cases cw; cases sw)
  obtain a A rc' b B rs' where kp: "x25519_generate_keypair P rc = ((a, A), rc')" "x25519_generate_keypair P rs = ((b, B), rs')"
    by (metis prod.exhaust)
  let ?i = "public_key I k"
  let ?sig = "sign_transcript I k (server_identity_transcript A B ?i DEFAULT_KDF_CONTEXT)"
  have st: "ts_room cs = None" "ts_room ss = None" "ts_in ss = framed A @ []"
    "ts_in cs = framed B @ framed (identity_bytes ?i) @ framed ?sig @ []"
    using streams by (simp_all add: connected_streams_def w kp Let_def)
  obtain key where key: "length key = KEY_SIZE"
    "server_handshake_authenticated I (Config P) k (ss, rs) =
      (let s = ss\<lparr>ts_in := [], ts_out := ts_out ss @ framed B @ framed (identity_bytes ?i) @ framed ?sig\<rparr>
       in (Ok (channel_on (Config P) s key), (s, rs')))"
    "client_handshake_authenticated I (Config P) ?i (cs, rc) =
      (let s = cs\<lparr>ts_out := ts_out cs @ framed A, ts_in := []\<rparr> in (Ok (channel_on (Config P) s key), (s, rc')))"
    using default_handshake.handshake_agree_authenticated [of P rc a A rc' rs b B rs' cs ss I k ?i ?sig DEFAULT_KDF_CONTEXT "[]" "[]"]
      keys(1) kp st
    by (auto simp: trusted_keys_def server_handshake_authenticated_def client_handshake_authenticated_def)
  let ?ch = "channel_on (Config P) (cs\<lparr>ts_out := ts_out cs @ framed A, ts_in := []\<rparr>) key"
  let ?sch = "channel_on (Config P) (ss\<lparr>ts_in := [], ts_out := ts_out ss @ framed B @ framed (identity_bytes ?i) @ framed ?sig\<rparr>) key"
  let ?cn = "\<lparr>cn_id = cid, cn_channel = (?sch, rs'), cn_current_dir = ''/'', cn_storage = st,
              cn_config = config, cn_active_write = None\<rparr>"
  have "wired_as P Q (wire_up (?ch, rc') ?cn) (with_channel [] ?cn)"
    by (rule wire_up_as [where sch = ?sch and sr = rs'])
      (use keys(2) key(1) st in \<open>simp_all add: sound_end_def peers_def channel_on_def secure_channel_new_def\<close>)
  moreover have "connect I P dial m = (Ok (), m\<lparr>mg_channel := Some (?ch, rc')\<rparr>)"
    using m key(3) by (simp add: connect_def w Let_def)
  moreover have "accept_authenticated I P cid st config k False sw = Ok ?cn"
    using key(2) by (simp add: accept_authenticated_def accept_with_identity_def w Let_def)
  ultimately show ?thesis by (intro exI [of _ "(?ch, rc')"] exI [of _ ?cn]) simp
qed

end
