(* ===== verification/Instances.thy ===== *)
theory Instances
  imports Session Programs Secure_Session
begin

section \<open>The hypotheses on foreign code can hold\<close>

text \<open>
  The protobuf coder, the ciphers, the signature scheme, the compression libraries and the
  file system are parameters of the development, and what the code relies on is stated of
  them by \<open>prost_ok\<close>, \<open>prost_compact\<close>, \<open>aead_ok\<close>, \<open>x25519_ok\<close>, \<open>hkdf_ok\<close>, \<open>ed25519_ok\<close>,
  \<open>hex_ok\<close>, \<open>std_fs_ok\<close>, \<open>plain_fs\<close>, \<open>zlib_ok\<close>, \<open>zstd_ok\<close>, \<open>layout_ok\<close> and \<open>terminal_ok\<close>.  This theory gives one concrete function
  for each and proves the hypothesis for it.  None of it models a part of the program; it
  serves to apply the theorems to concrete runs.
\<close>

subsection \<open>A message coder\<close>

definition put_nat :: "nat \<Rightarrow> nat \<Rightarrow> bytes" where
  "put_nat k n = be_encode k n"

definition get_nat :: "nat \<Rightarrow> bytes \<Rightarrow> (nat \<times> bytes) option" where
  "get_nat k bs = (if k \<le> length bs then Some (be_decode (take k bs), drop k bs) else None)"

lemma get_put_nat: "n < 256 ^ k \<Longrightarrow> get_nat k (put_nat k n @ rest) = Some (n, rest)"
  by (simp add: put_nat_def get_nat_def be_decode_encode)

fun put_bytes :: "bytes \<Rightarrow> bytes" where
  "put_bytes [] = [0]"
| "put_bytes (b # bs) = 1 # b # put_bytes bs"

fun get_bytes :: "bytes \<Rightarrow> (bytes \<times> bytes) option" where
  "get_bytes (t # b # bs) =
     (if t = 0 then Some ([], b # bs)
      else map_option (\<lambda>(x, rest). (b # x, rest)) (get_bytes bs))"
| "get_bytes [t] = (if t = 0 then Some ([], []) else None)"
| "get_bytes [] = None"

lemma get_put_bytes [simp]: "get_bytes (put_bytes x @ rest) = Some (x, rest)"
proof (induction x)
  case Nil
  show ?case by (cases rest) simp_all
qed simp

lemma length_put_bytes: "length (put_bytes x) = 2 * length x + 1"
  by (induction x) simp_all

definition put_text :: "string \<Rightarrow> bytes" where
  "put_text s = put_bytes (bytes_of s)"

definition get_text :: "bytes \<Rightarrow> (string \<times> bytes) option" where
  "get_text bs = map_option (\<lambda>(x, rest). (string_of x, rest)) (get_bytes bs)"

definition put_u64 :: "u64 \<Rightarrow> bytes" where "put_u64 v = put_nat 8 (unat v)"
definition get_u64 :: "bytes \<Rightarrow> (u64 \<times> bytes) option" where
  "get_u64 bs = map_option (\<lambda>(n, rest). (of_nat n, rest)) (get_nat 8 bs)"
definition put_u32 :: "u32 \<Rightarrow> bytes" where "put_u32 v = put_nat 4 (unat v)"
definition get_u32 :: "bytes \<Rightarrow> (u32 \<times> bytes) option" where
  "get_u32 bs = map_option (\<lambda>(n, rest). (of_nat n, rest)) (get_nat 4 bs)"
definition put_i32 :: "int \<Rightarrow> bytes" where "put_i32 v = put_u32 (word_of_int v)"
definition get_i32 :: "bytes \<Rightarrow> (int \<times> bytes) option" where
  "get_i32 bs = map_option (\<lambda>(v, rest). (sint v, rest)) (get_u32 bs)"
definition put_bool :: "bool \<Rightarrow> bytes" where "put_bool b = [if b then 1 else 0]"
definition get_bool :: "bytes \<Rightarrow> (bool \<times> bytes) option" where
  "get_bool bs = (case bs of [] \<Rightarrow> None | b # rest \<Rightarrow> Some (b = 1, rest))"

lemma field_simps [simp]:
  "get_text (put_text s @ rest) = Some (s, rest)"
  "get_u64 (put_u64 v @ rest) = Some (v, rest)"
  "get_u32 (put_u32 w @ rest) = Some (w, rest)"
  "get_bool (put_bool b @ rest) = Some (b, rest)"
  using get_put_nat [of "unat v" 8 rest] get_put_nat [of "unat w" 4 rest]
  by (simp_all add: put_text_def get_text_def put_u64_def get_u64_def put_u32_def get_u32_def
      put_bool_def get_bool_def)

lemma get_put_i32 [simp]: "i32_ok c \<Longrightarrow> get_i32 (put_i32 c @ rest) = Some (c, rest)"
  by (simp add: put_i32_def get_i32_def i32_ok_def sint_sbintrunc' signed_take_bit_int_eq_self)

definition put_chunk :: "proto_transfer_chunk \<Rightarrow> bytes" where
  "put_chunk c = put_u64 (ptc_offset c) @ put_bytes (ptc_data c) @ put_bool (ptc_is_last c) @ put_u64 (ptc_total_size c)"

definition get_chunk :: "bytes \<Rightarrow> (proto_transfer_chunk \<times> bytes) option" where
  "get_chunk bs =
     Option.bind (get_u64 bs) (\<lambda>(off, bs).
     Option.bind (get_bytes bs) (\<lambda>(d, bs).
     Option.bind (get_bool bs) (\<lambda>(l, bs).
     Option.bind (get_u64 bs) (\<lambda>(n, bs).
     Some (\<lparr>ptc_offset = off, ptc_data = d, ptc_is_last = l, ptc_total_size = n\<rparr>, bs)))))"

definition put_start :: "transfer_start \<Rightarrow> bytes" where
  "put_start t = put_text (ts_filename t) @ put_i32 (ts_mode t) @ put_u64 (ts_total_size t)"

definition get_start :: "bytes \<Rightarrow> (transfer_start \<times> bytes) option" where
  "get_start bs =
     Option.bind (get_text bs) (\<lambda>(f, bs).
     Option.bind (get_i32 bs) (\<lambda>(m, bs).
     Option.bind (get_u64 bs) (\<lambda>(n, bs).
     Some (\<lparr>ts_filename = f, ts_mode = m, ts_total_size = n\<rparr>, bs))))"

definition put_info :: "file_info \<Rightarrow> bytes" where
  "put_info i = put_text (fi_name i) @ put_u64 (fi_size i) @ put_bool (fi_is_directory i) @
     put_u64 (fi_modified_time i) @ put_u32 (fi_permissions i)"

definition get_info :: "bytes \<Rightarrow> (file_info \<times> bytes) option" where
  "get_info bs =
     Option.bind (get_text bs) (\<lambda>(nm, bs).
     Option.bind (get_u64 bs) (\<lambda>(sz, bs).
     Option.bind (get_bool bs) (\<lambda>(dir, bs).
     Option.bind (get_u64 bs) (\<lambda>(t, bs).
     Option.bind (get_u32 bs) (\<lambda>(perm, bs).
     Some (\<lparr>fi_name = nm, fi_size = sz, fi_is_directory = dir, fi_modified_time = t, fi_permissions = perm\<rparr>, bs))))))"

fun put_infos :: "file_info list \<Rightarrow> bytes" where
  "put_infos [] = [0]"
| "put_infos (i # is) = 1 # put_info i @ put_infos is"

text \<open>Each entry takes at least one byte, so the length of the input bounds the number of entries.\<close>

fun get_infos :: "nat \<Rightarrow> bytes \<Rightarrow> (file_info list \<times> bytes) option" where
  "get_infos 0 bs = None"
| "get_infos (Suc fuel) [] = None"
| "get_infos (Suc fuel) (t # bs) =
     (if t = 0 then Some ([], bs)
      else Option.bind (get_info bs) (\<lambda>(i, bs).
           map_option (\<lambda>(is, rest). (i # is, rest)) (get_infos fuel bs)))"

lemma get_put_parts [simp]:
  "get_chunk (put_chunk c @ rest) = Some (c, rest)"
  "i32_ok (ts_mode t) \<Longrightarrow> get_start (put_start t @ rest) = Some (t, rest)"
  "get_info (put_info i @ rest) = Some (i, rest)"
  by (simp_all add: put_chunk_def get_chunk_def put_start_def get_start_def put_info_def get_info_def)

lemma get_put_infos: "length is < fuel \<Longrightarrow> get_infos fuel (put_infos is @ rest) = Some (is, rest)"
proof (induction "is" arbitrary: fuel)
  case Nil
  then show ?case by (cases fuel) simp_all
next
  case (Cons i "is")
  then show ?case by (cases fuel) simp_all
qed

lemma length_put_infos: "length is < length (put_infos is)"
  by (induction "is") simp_all

fun put_request_details :: "request_details option \<Rightarrow> bytes" where
  "put_request_details None = [0]"
| "put_request_details (Some (ReqTransferStart t)) = 1 # put_start t"
| "put_request_details (Some (ReqTransferChunk c)) = 2 # put_chunk c"

definition get_request_details :: "bytes \<Rightarrow> (request_details option \<times> bytes) option" where
  "get_request_details bs =
     (case bs of
        [] \<Rightarrow> None
      | t # bs \<Rightarrow>
          if t = 0 then Some (None, bs)
          else if t = 1 then map_option (\<lambda>(x, r). (Some (ReqTransferStart x), r)) (get_start bs)
          else map_option (\<lambda>(x, r). (Some (ReqTransferChunk x), r)) (get_chunk bs))"

fun put_response_details :: "response_details option \<Rightarrow> bytes" where
  "put_response_details None = [0]"
| "put_response_details (Some (RespFileInfo i)) = 1 # put_info i"
| "put_response_details (Some (RespDirectoryListing is)) = 2 # put_infos is"
| "put_response_details (Some (RespTransferAck a)) = 3 # put_u64 (ack_offset a) @ put_u32 (ack_chunk_size a)"
| "put_response_details (Some (RespTransferChunk c)) = 4 # put_chunk c"

definition get_response_details :: "bytes \<Rightarrow> (response_details option \<times> bytes) option" where
  "get_response_details bs =
     (case bs of
        [] \<Rightarrow> None
      | t # bs \<Rightarrow>
          if t = 0 then Some (None, bs)
          else if t = 1 then map_option (\<lambda>(x, r). (Some (RespFileInfo x), r)) (get_info bs)
          else if t = 2 then map_option (\<lambda>(x, r). (Some (RespDirectoryListing x), r)) (get_infos (length bs) bs)
          else if t = 3 then
            Option.bind (get_u64 bs) (\<lambda>(off, bs).
            map_option (\<lambda>(n, r). (Some (RespTransferAck \<lparr>ack_offset = off, ack_chunk_size = n\<rparr>), r)) (get_u32 bs))
          else map_option (\<lambda>(x, r). (Some (RespTransferChunk x), r)) (get_chunk bs))"

lemma get_put_request_details [simp]:
  "pred_option request_details_ok det \<Longrightarrow> get_request_details (put_request_details det @ rest) = Some (det, rest)"
  by (cases det rule: put_request_details.cases) (simp_all add: get_request_details_def)

lemma get_put_response_details [simp]: "get_response_details (put_response_details det @ rest) = Some (det, rest)"
  using get_put_infos length_put_infos
  by (cases det rule: put_response_details.cases) (simp_all add: get_response_details_def trans_less_add1)

definition put_request :: "request \<Rightarrow> bytes" where
  "put_request m = put_i32 (req_command m) @ put_text (req_filename m) @ put_u32 (req_ip_addr m) @
     put_bytes (req_data m) @ put_request_details (req_details m)"

definition get_request :: "bytes \<Rightarrow> request option" where
  "get_request bs =
     Option.bind (get_i32 bs) (\<lambda>(c, bs).
     Option.bind (get_text bs) (\<lambda>(f, bs).
     Option.bind (get_u32 bs) (\<lambda>(ip, bs).
     Option.bind (get_bytes bs) (\<lambda>(d, bs).
     Option.bind (get_request_details bs) (\<lambda>(det, bs).
     Some \<lparr>req_command = c, req_filename = f, req_ip_addr = ip, req_data = d, req_details = det\<rparr>)))))"

definition put_response :: "response \<Rightarrow> bytes" where
  "put_response m = put_i32 (resp_type m) @ put_bool (resp_success m) @ put_text (resp_error_message m) @
     put_bytes (resp_data m) @ put_response_details (resp_details m)"

definition get_response :: "bytes \<Rightarrow> response option" where
  "get_response bs =
     Option.bind (get_i32 bs) (\<lambda>(t, bs).
     Option.bind (get_bool bs) (\<lambda>(ok, bs).
     Option.bind (get_text bs) (\<lambda>(e, bs).
     Option.bind (get_bytes bs) (\<lambda>(d, bs).
     Option.bind (get_response_details bs) (\<lambda>(det, bs).
     Some \<lparr>resp_type = t, resp_success = ok, resp_error_message = e, resp_data = d, resp_details = det\<rparr>)))))"

definition or_error :: "'a option \<Rightarrow> string + 'a" where
  "or_error x = (case x of None \<Rightarrow> Inl ''malformed message'' | Some y \<Rightarrow> Inr y)"

definition plain_prost :: prost where
  "plain_prost =
     \<lparr>prost_encode_request = Inr \<circ> put_request, prost_decode_request = or_error \<circ> get_request,
      prost_encode_response = Inr \<circ> put_response, prost_decode_response = or_error \<circ> get_response\<rparr>"

lemma get_put_request: "request_text_ok m \<Longrightarrow> get_request (put_request m) = Some m"
  using get_put_request_details [of "req_details m" "[]"]
  by (simp add: get_request_def put_request_def request_text_ok_def)

lemma get_put_response: "response_text_ok m \<Longrightarrow> get_response (put_response m) = Some m"
  using get_put_response_details [of "resp_details m" "[]"]
  by (simp add: get_response_def put_response_def response_text_ok_def)

lemma plain_prost_ok: "prost_ok plain_prost"
  by (simp add: prost_ok_def plain_prost_def or_error_def get_put_request get_put_response)

lemma length_fields [simp]:
  "length (put_u64 v) = 8" "length (put_u32 w) = 4" "length (put_i32 i) = 4" "length (put_bool b) = 1"
  "length (put_bytes x) = 2 * length x + 1" "length (put_text s) = 2 * length s + 1"
  by (simp_all add: put_u64_def put_u32_def put_i32_def put_bool_def put_nat_def put_text_def length_put_bytes)

lemma length_put_parts:
  "length (put_info i) \<le> 2 * info_size i"
  "length (put_infos es) \<le> 2 * sum_list (map info_size es) + 1"
proof -
  show info: "length (put_info i) \<le> 2 * info_size i" for i by (simp add: put_info_def info_size_def)
  show "length (put_infos es) \<le> 2 * sum_list (map info_size es) + 1"
  proof (induction es)
    case (Cons e es)
    then show ?case by (simp add: put_info_def info_size_def)
  qed simp
qed

lemma length_put_details:
  "length (put_request_details (Some d)) \<le> 2 * request_details_size d + 64"
  "length (put_response_details (Some e)) \<le> 2 * response_details_size e + 64"
proof -
  show "length (put_request_details (Some d)) \<le> 2 * request_details_size d + 64"
    by (cases d) (simp_all add: put_start_def put_chunk_def)
  show "length (put_response_details (Some e)) \<le> 2 * response_details_size e + 64"
  proof (cases e)
    case (RespFileInfo i)
    then show ?thesis using length_put_parts(1) [of i] by simp
  next
    case (RespDirectoryListing es)
    then show ?thesis using length_put_parts(2) [of es] by simp
  qed (simp_all add: put_chunk_def)
qed

lemma plain_prost_compact: "prost_compact plain_prost"
proof -
  have "length (put_request m) \<le> 2 * request_size m + 128" for m
    using length_put_details(1) [of "the (req_details m)"]
    by (cases "req_details m") (simp_all add: put_request_def request_size_def)
  moreover have "length (put_response m) \<le> 2 * response_size m + 128" for m
    using length_put_details(2) [of "the (resp_details m)"]
    by (cases "resp_details m") (simp_all add: put_response_def response_size_def)
  ultimately show ?thesis by (simp add: prost_compact_def plain_prost_def)
qed

subsection \<open>Primitives\<close>

text \<open>A cipher that appends half of its key as a tag, a commutative key agreement, a key
  expansion that pads, and a signature that repeats its message.\<close>

definition tag_encrypt :: "bytes \<Rightarrow> bytes \<Rightarrow> bytes \<Rightarrow> string + bytes" where
  "tag_encrypt k iv pt = Inr (pt @ take TAG_SIZE k)"

definition tag_decrypt :: "bytes \<Rightarrow> bytes \<Rightarrow> bytes \<Rightarrow> string + bytes" where
  "tag_decrypt k iv ct =
     (let n = length ct - TAG_SIZE in
      if TAG_SIZE \<le> length ct \<and> drop n ct = take TAG_SIZE k then Inr (take n ct) else Inl ''aead::Error'')"

definition pad_to :: "nat \<Rightarrow> bytes \<Rightarrow> bytes" where
  "pad_to n bs = take n (bs @ replicate n 0)"

definition plain_primitives :: crypto_primitives where
  "plain_primitives =
     \<lparr>aes_encrypt = tag_encrypt, aes_decrypt = tag_decrypt, x25519_public = (\<lambda>a. a),
      x25519_shared = (\<lambda>a b. map2 (+) a b),
      hkdf_expand = (\<lambda>salt ikm info n. Inr (pad_to n (ikm @ info)))\<rparr>"

lemma length_pad_to [simp]: "length (pad_to n bs) = n"
  by (simp add: pad_to_def)

lemma plain_aead_ok: "aead_ok plain_primitives"
proof -
  have "tag_encrypt k iv pt = Inr ct \<longleftrightarrow> tag_decrypt k iv ct = Inr pt" if "length k = KEY_SIZE" for k iv pt ct
  proof
    show "tag_decrypt k iv ct = Inr pt \<Longrightarrow> tag_encrypt k iv pt = Inr ct"
      by (auto simp: tag_encrypt_def tag_decrypt_def Let_def split: if_splits)
        (metis append_take_drop_id)
  qed (use that in \<open>auto simp: tag_encrypt_def tag_decrypt_def key_sizes\<close>)
  then show ?thesis
    by (auto simp: aead_ok_def plain_primitives_def) (auto simp: tag_encrypt_def key_sizes)
qed

lemma plain_x25519_ok: "x25519_ok plain_primitives"
  by (auto simp: x25519_ok_def plain_primitives_def intro!: nth_equalityI simp: add.commute)

lemma plain_hkdf_ok: "hkdf_ok plain_primitives"
  by (simp add: hkdf_ok_def plain_primitives_def)

definition hex_digit :: "nat \<Rightarrow> char" where
  "hex_digit n = (if n < 10 then char_of (48 + n) else char_of (87 + n))"

definition hex_value :: "char \<Rightarrow> nat option" where
  "hex_value c =
     (let x = code_of c in
      if 48 \<le> x \<and> x \<le> 57 then Some (x - 48) else if 97 \<le> x \<and> x \<le> 102 then Some (x - 87) else None)"

definition plain_hex_encode :: "bytes \<Rightarrow> string" where
  "plain_hex_encode bs = concat (map (\<lambda>b. [hex_digit (unat b div 16), hex_digit (unat b mod 16)]) bs)"

fun plain_hex_decode :: "string \<Rightarrow> string + bytes" where
  "plain_hex_decode [] = Inr []"
| "plain_hex_decode [c] = Inl ''Odd number of digits''"
| "plain_hex_decode (c # d # s) =
     (case (hex_value c, hex_value d) of
        (Some h, Some l) \<Rightarrow> map_sum id (\<lambda>bs. of_nat (h * 16 + l) # bs) (plain_hex_decode s)
      | _ \<Rightarrow> Inl ''Invalid character'')"

definition plain_identity :: identity_primitives where
  "plain_identity =
     \<lparr>ed25519_public = (\<lambda>k. k), ed25519_sign = (\<lambda>k m. pad_to 64 (k @ rev m)), ed25519_valid_key = (\<lambda>k. True),
      ed25519_verify = (\<lambda>k m s. s = pad_to 64 (k @ rev m)), ed25519_generate = (\<lambda>n. replicate 32 (of_nat n)),
      hex_encode = plain_hex_encode, hex_decode = plain_hex_decode\<rparr>"

lemma hex_value_digit: "n < 16 \<Longrightarrow> hex_value (hex_digit n) = Some n"
  by (auto simp: hex_value_def hex_digit_def code_of_def Let_def)

lemma hex_digit_set: "n < 16 \<Longrightarrow> hex_digit n \<in> set ''0123456789abcdef''"
proof -
  assume "n < 16"
  then have "n \<in> set [0..<16]" by simp
  moreover have "list_all (\<lambda>n. hex_digit n \<in> set ''0123456789abcdef'') [0..<16]" by code_simp
  ultimately show ?thesis by (simp only: list_all_iff)
qed

lemma unat_byte_split: "unat (b::u8) div 16 < 16"
  using unat_byte_less [of b] by (simp add: less_mult_imp_div_less)

lemma plain_hex_ok: "hex_ok plain_identity"
proof -
  have "plain_hex_decode (plain_hex_encode bs) = Inr bs" for bs
    using unat_byte_split by (induction bs) (simp_all add: plain_hex_encode_def hex_value_digit)
  moreover have "set (plain_hex_encode bs) \<subseteq> set ''0123456789abcdef''" for bs
  proof
    fix c assume c: "c \<in> set (plain_hex_encode bs)"
    then obtain b where "c = hex_digit (unat (b::u8) div 16) \<or> c = hex_digit (unat b mod 16)"
      by (auto simp: plain_hex_encode_def)
    moreover have "unat b mod 16 < 16" by simp
    ultimately show "c \<in> set ''0123456789abcdef''"
      using hex_digit_set [OF unat_byte_split [of b]] hex_digit_set [of "unat b mod 16"]
      by (elim disjE) (simp_all only:)
  qed
  ultimately show ?thesis by (simp add: hex_ok_def plain_identity_def)
qed

lemma plain_ed25519_ok: "ed25519_ok plain_identity"
  by (simp add: ed25519_ok_def plain_identity_def SERVER_IDENTITY_KEY_SIZE_def SERVER_IDENTITY_SIGNATURE_SIZE_def)

text \<open>A file system that keeps the text of each path.\<close>

definition text_fs :: "(path \<rightharpoonup> string) std_fs" where
  "text_fs =
     \<lparr>fs_exists = (\<lambda>p f. f p \<noteq> None),
      fs_read_to_string = (\<lambda>p f. case f p of None \<Rightarrow> Inl ''No such file or directory'' | Some t \<Rightarrow> Inr t),
      fs_create_dir_all = (\<lambda>p f. (Inr (), f)), fs_write = (\<lambda>p t f. (Inr (), f(p \<mapsto> t)))\<rparr>"

lemma text_fs_ok: "std_fs_ok text_fs"
  by (auto simp: std_fs_ok_def text_fs_def)

text \<open>A compressor that marks its output.\<close>

definition mark_library :: compression_library where
  "mark_library =
     \<lparr>zlib_encoder_write = (\<lambda>lv d. Inr d), zlib_encoder_finish = (\<lambda>lv d. Inr (120 # d)),
      zlib_decoder_write = (\<lambda>z. case z of [] \<Rightarrow> Inl ''corrupt deflate stream'' | b # d \<Rightarrow> Inr d),
      zlib_decoder_finish = Inr, zlib_default_level = 6,
      zstd_encode_all = (\<lambda>lv d. Inr (40 # d)),
      zstd_decode_all = (\<lambda>z. case z of [] \<Rightarrow> Inl ''Unknown frame descriptor'' | b # d \<Rightarrow> Inr d),
      zstd_default_level = 3\<rparr>"

lemma mark_library_ok: "zlib_ok mark_library" "zstd_ok mark_library"
  by (auto simp: zlib_ok_def zstd_ok_def mark_library_def)

lemmas plain_ok = plain_prost_ok plain_prost_compact plain_aead_ok plain_x25519_ok plain_hkdf_ok
  plain_hex_ok plain_ed25519_ok text_fs_ok mark_library_ok

subsection \<open>Sample states\<close>

definition sample_connection :: "'c \<Rightarrow> ('c, memory_storage) connection" where
  "sample_connection c =
     \<lparr>cn_id = 1, cn_channel = c, cn_current_dir = ''/'', cn_storage = memory_storage_new,
      cn_config = server_config_default, cn_active_write = None\<rparr>"

definition sample_files :: "bytes \<Rightarrow> local_files" where
  "sample_files d =
     \<lparr>lf_stat = (\<lambda>_. Inr (len_u64 d)), lf_open = (\<lambda>_. Inr ()),
      lf_read = (\<lambda>_ off n. Inr (take n (drop (unat off) d)))\<rparr>"

definition missing_files :: local_files where
  "missing_files =
     \<lparr>lf_stat = (\<lambda>_. Inr 3), lf_open = (\<lambda>_. Inl ''Permission denied''), lf_read = (\<lambda>_ _ _. Inl ''closed'')\<rparr>"

lemma sample_connection_simps [simp]:
  "cn_channel (sample_connection c) = c" "cn_current_dir (sample_connection c) = ''/''"
  "cn_storage (sample_connection c) = memory_storage_new" "cn_active_write (sample_connection c) = None"
  by (simp_all add: sample_connection_def)

lemma sample_file: "local_file (sample_files d) src d"
  by (auto simp: local_file_def sample_files_def)

definition sample_rng :: "u8 \<Rightarrow> rng" where
  "sample_rng b = \<lparr>rng_byte = (\<lambda>n. b + of_nat n), rng_pos = 0\<rparr>"

definition sample_stream :: "bytes \<Rightarrow> tcp_stream" where
  "sample_stream i = \<lparr>ts_in = i, ts_out = [], ts_room = None\<rparr>"

definition sample_channel :: "bytes \<Rightarrow> secure_channel" where
  "sample_channel i = channel_on (Config plain_primitives) (sample_stream i) (replicate 32 1)"

definition sample_key :: server_identity_key where
  "sample_key = \<lparr>signing_key = replicate 32 5\<rparr>"

lemma sample_channel_simps [simp]:
  "sc_crypto (sample_channel i) = cfg_crypto (Config plain_primitives)"
  "sc_compressor (sample_channel i) = cfg_compression (Config plain_primitives)"
  "sc_stream (sample_channel i) = sample_stream i" "peers (sample_channel i) (sample_channel j)"
  "ts_in (sample_stream i) = i" "ts_out (sample_stream i) = []" "ts_room (sample_stream i) = None"
  by (simp_all add: sample_channel_def channel_on_def secure_channel_new_def peers_def sample_stream_def)

lemma utf8_lossy_a: "utf8_lossy ''a'' = ''a''"
  by code_simp

lemma sample_channel_key: "sc_key (sample_channel i) = replicate 32 1"
  by (simp add: sample_channel_def channel_on_def secure_channel_new_def)

lemma sample_channel_input: "sample_channel i\<lparr>sc_stream := sample_stream i\<lparr>ts_in := j\<rparr>\<rparr> = sample_channel j"
  by (simp add: sample_channel_def channel_on_def secure_channel_new_def sample_stream_def)

lemma sample_channel_stream [simp]: "sample_channel i\<lparr>sc_stream := sample_stream i\<rparr> = sample_channel i"
  by (simp add: sample_channel_def channel_on_def secure_channel_new_def)

lemma plain_encode_lengths:
  "command_encode plain_prost c = Ok (put_request (request_from_command c))"
  "output_encode plain_prost out = Ok (put_response (response_from_output out))"
  "length (put_request (mk_request t p d)) = 10 + 2 * length (to_string_lossy p) + 2 * length d + 1"
  "length (put_response (mk_response ty ok msg d None)) = 7 + 2 * length msg + 2 * length d + 1"
  by (simp_all add: command_encode_def request_encode_def output_encode_def
      response_encode_def plain_prost_def put_request_def put_response_def mk_request_def request_with_details_def
      mk_response_def)

text \<open>What the sample channel sends it also receives.\<close>

lemma sample_send:
  assumes "ts_room s = None" "cd_encode K msg = Ok bs" "length bs \<le> 1000"
  shows "\<exists>r' packet. send_msg K msg (sample_channel i\<lparr>sc_stream := s\<rparr>, r) =
    (Ok (), (sample_channel i\<lparr>sc_stream := s\<lparr>ts_out := ts_out s @ framed packet\<rparr>\<rparr>, r'))"
proof -
  have "length bs + IV_SIZE + TAG_SIZE \<le> DEFAULT_MAX_FRAME_SIZE" and "length (sc_key (sample_channel i)) = KEY_SIZE"
    using assms(3) by (simp_all add: key_sizes DEFAULT_MAX_FRAME_SIZE_def sample_channel_def channel_on_def secure_channel_new_def)
  then show ?thesis
    using send_msg_fits [OF plain_aead_ok, of "sample_channel i\<lparr>sc_stream := s\<rparr>" K msg bs r] assms by auto
qed

lemma sample_send_all:
  assumes "ts_room s = None" "\<And>m. m \<in> set ms \<Longrightarrow> \<exists>bs. cd_encode K m = Ok bs \<and> length bs \<le> 1000"
  shows "\<exists>s' r'. send_msgs K ms (sample_channel i\<lparr>sc_stream := s\<rparr>, r) = (Ok (), (sample_channel i\<lparr>sc_stream := s'\<rparr>, r'))"
  using assms
proof (induction ms arbitrary: s r)
  case (Cons m ms)
  obtain bs where bs: "cd_encode K m = Ok bs" "length bs \<le> 1000" using Cons.prems(2) [of m] by auto
  obtain r1 packet where step: "send_msg K m (sample_channel i\<lparr>sc_stream := s\<rparr>, r) =
      (Ok (), (sample_channel i\<lparr>sc_stream := s\<lparr>ts_out := ts_out s @ framed packet\<rparr>\<rparr>, r1))"
    using sample_send [OF Cons.prems(1) bs] by blast
  show ?case
    using Cons.IH [of "s\<lparr>ts_out := ts_out s @ framed packet\<rparr>" r1] Cons.prems step by simp
qed auto

text \<open>The public keys of two sample ends and the transcript of their exchange.\<close>

definition sample_public :: "u8 \<Rightarrow> bytes" where
  "sample_public b = snd (fst (x25519_generate_keypair plain_primitives (sample_rng b)))"

definition sample_transcript :: bytes where
  "sample_transcript =
     server_identity_transcript (sample_public 1) (sample_public 2) (public_key plain_identity sample_key) DEFAULT_KDF_CONTEXT"

lemma sample_keypair:
  obtains a r where "x25519_generate_keypair plain_primitives (sample_rng b) = ((a, sample_public b), r)"
    "length (sample_public b) = ECDH_KEY_SIZE"
  using x25519.public_length [OF plain_x25519_ok, of "sample_rng b"]
  by (cases "x25519_generate_keypair plain_primitives (sample_rng b)"; cases "fst (x25519_generate_keypair plain_primitives (sample_rng b))")
    (auto simp: sample_public_def)

lemma sample_public_small: "length (sample_public b) \<le> DEFAULT_MAX_FRAME_SIZE"
  by (rule sample_keypair [of b]) (simp add: key_sizes DEFAULT_MAX_FRAME_SIZE_def)

text \<open>The streams of two sample ends that run the handshake against each other, and a manager that
  is about to connect.\<close>

definition sample_client_wire :: wire where
  "sample_client_wire =
     (sample_stream (framed (sample_public 2) @ framed (identity_bytes (public_key plain_identity sample_key)) @
        framed (sign_transcript plain_identity sample_key sample_transcript)), sample_rng 1)"

definition sample_server_wire :: wire where
  "sample_server_wire = (sample_stream (framed (sample_public 1)), sample_rng 2)"

definition sample_manager :: "link connection_manager" where
  "sample_manager =
     \<lparr>mg_server_info = Some \<lparr>si_address = ''localhost'', si_port = 5555\<rparr>,
      mg_server_identity = Some (public_key plain_identity sample_key), mg_channel = None\<rparr>"

lemma sample_trusted: "trusted_keys plain_identity plain_primitives sample_key" "trusted_wire plain_primitives plain_prost"
  by (simp_all add: trusted_keys_def trusted_wire_def plain_ok sample_key_def SERVER_IDENTITY_KEY_SIZE_def)

lemma sample_connected: "connected_streams plain_identity plain_primitives sample_key sample_client_wire sample_server_wire"
  by (simp add: connected_streams_def sample_client_wire_def sample_server_wire_def sample_transcript_def sample_public_def Let_def)

text \<open>The client of these streams checks the transcript of the exchange and nothing else, and the
  server at the other end is the one that signs it.\<close>

lemma framed_eq_iff [simp]: "framed a = framed b \<longleftrightarrow> a = b"
  by (auto simp: framed_def append_eq_append_conv)

lemma sample_client_checked:
  assumes "client_checked plain_identity sample_key DEFAULT_KDF_CONTEXT (fst sample_client_wire)
      (fst sample_client_wire\<lparr>ts_out := framed (sample_public 1), ts_in := []\<rparr>) t sig"
  shows "t = sample_transcript"
proof -
  obtain B where t: "t = server_identity_transcript (sample_public 1) B (public_key plain_identity sample_key) DEFAULT_KDF_CONTEXT"
    "length B = ECDH_KEY_SIZE" "ts_in (fst sample_client_wire) = framed B @ framed (identity_bytes (public_key plain_identity sample_key)) @ framed sig"
    using assms by (auto simp: client_checked_def sample_client_wire_def)
  moreover have "length (sample_public 2) = ECDH_KEY_SIZE" by (rule sample_keypair)
  ultimately have "B = sample_public 2" by (simp add: sample_client_wire_def framed_def)
  with t show ?thesis by (simp add: sample_transcript_def)
qed

lemma sample_server_signs:
  "server_signs plain_identity (Config plain_primitives) sample_key DEFAULT_KDF_CONTEXT sample_server_wire sample_transcript"
  using sample_public_small receive_prefixed_framed [of "sample_stream (framed (sample_public 1))" "sample_public 1" "[]"]
  by (simp add: server_signs_def sample_server_wire_def cm_generate_keypair_def sample_transcript_def flip: sample_public_def)

lemma sample_handshake:
  obtains key rc ws where
    "client_handshake_authenticated plain_identity (Config plain_primitives) (public_key plain_identity sample_key) sample_client_wire =
     (let s = fst sample_client_wire\<lparr>ts_out := framed (sample_public 1), ts_in := []\<rparr> in
      (Ok (channel_on (Config plain_primitives) s key), (s, rc)))"
    "server_handshake_authenticated plain_identity (Config plain_primitives) sample_key sample_server_wire =
      (Ok (channel_on (Config plain_primitives) (fst ws) key), ws)"
proof -
  obtain a rc where c: "x25519_generate_keypair plain_primitives (sample_rng 1) = ((a, sample_public 1), rc)"
    using sample_keypair by blast
  obtain b rs where s: "x25519_generate_keypair plain_primitives (sample_rng 2) = ((b, sample_public 2), rs)"
    using sample_keypair by blast
  show thesis
    using default_handshake.handshake_agree_authenticated [of plain_primitives "sample_rng 1" a "sample_public 1" rc "sample_rng 2" b
        "sample_public 2" rs "fst sample_client_wire" "fst sample_server_wire" plain_identity sample_key
        "public_key plain_identity sample_key" "sign_transcript plain_identity sample_key sample_transcript" DEFAULT_KDF_CONTEXT "[]" "[]"]
      c s plain_ok that
    by (auto simp: client_handshake_authenticated_def server_handshake_authenticated_def sample_client_wire_def sample_server_wire_def
        sample_transcript_def sample_key_def SERVER_IDENTITY_KEY_SIZE_def Let_def)
qed

lemma sample_manager_simps [simp]:
  "mg_server_info sample_manager = Some \<lparr>si_address = ''localhost'', si_port = 5555\<rparr>"
  "mg_server_identity sample_manager = Some (public_key plain_identity sample_key)"
  by (simp_all add: sample_manager_def)

subsection \<open>A file system and a storage\<close>

text \<open>An operating system with the files of a map and no links: a canonical path is its own
  canonical form.\<close>

definition sample_os :: "(path \<rightharpoonup> bytes) os_fs" where
  "sample_os =
     \<lparr>os_current_dir = (\<lambda>f. Inr ''/srv''),
      os_canonicalize = (\<lambda>p f. if canonical p then Inr p else Inl ''No such file or directory''),
      os_stat = (\<lambda>p f. case f p of
        None \<Rightarrow> Inl ''No such file or directory''
      | Some d \<Rightarrow> Inr \<lparr>om_len = len_u64 d, om_is_dir = False, om_is_file = True, om_modified = None, om_mode = 420\<rparr>),
      os_create_dir_all = (\<lambda>p f. (Inr (), f)), os_create = (\<lambda>p f. (Inr (), f(p \<mapsto> []))),
      os_open = (\<lambda>p f. if f p = None then Inl ''No such file or directory'' else Inr ()),
      os_open_append = (\<lambda>p f. (Inr (), f)), os_read_to_end = (\<lambda>p f. Inr (the (f p))),
      os_seek = (\<lambda>p off f. Inr ()), os_read = (\<lambda>p off n f. Inr (take n (drop (unat off) (the (f p))))),
      os_write_all = (\<lambda>p d f. (Inr (), f(p \<mapsto> d))), os_append_all = (\<lambda>p d f. (Inr (), f(p \<mapsto> the (f p) @ d))),
      os_sync_all = (\<lambda>p f. (Inr (), f)), os_remove_file = (\<lambda>p f. (Inr (), f(p := None))),
      os_read_dir = (\<lambda>p f. Inr []), os_remove_dir = (\<lambda>p f. (Inr (), f))\<rparr>"

lemma sample_os_canonical: "os_canonical sample_os"
  by (auto simp: os_canonical_def sample_os_def split: if_splits)

text \<open>The same, but reading the file \<open>q\<close> gives \<open>d\<close>.\<close>

definition changed_os :: "path \<Rightarrow> bytes \<Rightarrow> (path \<rightharpoonup> bytes) os_fs" where
  "changed_os q d = sample_os\<lparr>os_read_to_end := (os_read_to_end sample_os)(q := \<lambda>f. Inr d)\<rparr>"

lemma changed_os_same_inside: "\<not> inside base q \<Longrightarrow> same_inside base sample_os (changed_os q d)"
  by (auto simp: same_inside_def changed_os_def)

lemma not_inside_srv: "\<not> inside ''/srv'' ''/etc/passwd''"
proof
  assume "inside ''/srv'' ''/etc/passwd''"
  then obtain ns ms where ns: "names_ok ns" "names_ok ms" "''/srv'' = abs_path ns" "''/etc/passwd'' = abs_path (ns @ ms)"
    by (auto simp: inside_def)
  moreover have "names_of ''/srv'' = [''srv'']" "names_of ''/etc/passwd'' = [''etc'', ''passwd'']" by code_simp+
  ultimately have "ns = [''srv'']" "ns @ ms = [''etc'', ''passwd'']"
    using names_of_abs_path [of ns] names_of_abs_path [of "ns @ ms"] by auto
  then show False by simp
qed

lemma sample_os_reads: "f q = Some d \<Longrightarrow> reads_file sample_os q f d"
  unfolding reads_file_def by (auto simp: sample_os_def intro!: exI)

definition sample_memory :: memory_storage where
  "sample_memory = snd (ms_put_object ''/a'' [1, 2, 3] memory_storage_new)"

lemma sample_memory_ok: "ms_inv sample_memory" "memory_content sample_memory ''/a'' = Some [1, 2, 3]"
proof -
  have "put_object memory_backend ''/a'' [1, 2, 3] memory_storage_new = (Ok (), sample_memory)" by code_simp
  from memory.put_Ok [OF ms_inv_new this] show "ms_inv sample_memory" by blast
  show "memory_content sample_memory ''/a'' = Some [1, 2, 3]" by code_simp
qed

lemma sample_memory_sized: "memory_content sample_memory q = Some d \<Longrightarrow> vec_ok d"
proof -
  have "put_object memory_backend ''/a'' [1, 2, 3] memory_storage_new = (Ok (), sample_memory)" by code_simp
  from memory.put_Ok [OF ms_inv_new this]
  have "memory_content sample_memory q = (if same_place ''/a'' q then Some [1, 2, 3] else memory_content memory_storage_new q)"
    by blast
  moreover have "memory_content memory_storage_new q = None"
    by (auto simp: memory_content_def tree_of_new root_tree_def split: option.split)
  ultimately show "memory_content sample_memory q = Some d \<Longrightarrow> vec_ok d" by (auto simp: vec_ok_def split: if_splits)
qed

lemma sample_live: "secure_live plain_primitives plain_prost 0 (sample_channel [], r)"
  by (auto simp: secure_live_def plain_ok sample_channel_key KEY_SIZE_def mirror_def reader_def
      Config_simps intro!: exI [of _ "[]"])

text \<open>A storage whose namespaces have more entries than a frame can hold.\<close>

definition crowded_entries :: "fenris_metadata list" where
  "crowded_entries =
     replicate 50000 \<lparr>md_name = ''a'', md_size = 0, md_is_namespace = False, md_modified_time = 0, md_permissions = 420\<rparr>"

definition crowded_backend :: "memory_storage storage_backend" where
  "crowded_backend = memory_backend\<lparr>list_namespace := (\<lambda>p s. (Ok crowded_entries, s))\<rparr>"

lemma crowded_lists: "list_namespace crowded_backend p s = (Ok crowded_entries, s)"
  by (simp add: crowded_backend_def)

lemma length_put_infos_replicate: "length (put_infos (replicate n i)) = n * (2 * length (fi_name i) + 23) + 1"
  by (induction n) (simp_all add: put_info_def)

lemma crowded_large:
  "output_encode plain_prost (NamespaceListing crowded_entries) = Ok (put_response (response_from_output (NamespaceListing crowded_entries)))"
  "DEFAULT_MAX_FRAME_SIZE < length (put_response (response_from_output (NamespaceListing crowded_entries))) + IV_SIZE + TAG_SIZE"
  by (simp_all only: plain_encode_lengths)
    (simp add: put_response_def mk_response_def crowded_entries_def map_replicate length_put_infos_replicate info_from_metadata_def
      DEFAULT_MAX_FRAME_SIZE_def key_sizes)

subsection \<open>A file system with directories\<close>

text \<open>Files and directories as an association list from lists of names; a name has at most
  255 characters and no NUL.\<close>

type_synonym tree_state = "(string list \<times> node) list"

definition tree_name :: "string \<Rightarrow> bool" where
  "tree_name n \<longleftrightarrow> length n \<le> 255 \<and> CHR 0x00 \<notin> set n"

definition look :: "tree_state \<Rightarrow> tree" where
  "look s ns = (if ns = [] then Some NamespaceNode else map_of s ns)"

definition tree_state_ok :: "tree_state \<Rightarrow> bool" where
  "tree_state_ok s \<longleftrightarrow>
     tree_ok (look s) \<and> (\<forall>ns. look s ns \<noteq> None \<longrightarrow> names_ok ns \<and> list_all tree_name ns) \<and>
     distinct (map fst s) \<and> [] \<notin> set (map fst s)"

abbreviation no_entry :: string where "no_entry \<equiv> ''No such file or directory''"

definition child_names :: "tree_state \<Rightarrow> string list \<Rightarrow> string list" where
  "child_names s ns = map last (filter (\<lambda>k. butlast k = ns) (map fst s))"

definition put_node :: "tree_state \<Rightarrow> string list \<Rightarrow> node \<Rightarrow> (string + unit) \<times> tree_state" where
  "put_node s ns x =
     (if list_all tree_name ns \<and> ns \<noteq> [] \<and> look s (butlast ns) = Some NamespaceNode
      then (Inr (), AList.update ns x s) else (Inl no_entry, s))"

definition put_file :: "tree_state \<Rightarrow> string list \<Rightarrow> bytes \<Rightarrow> (string + unit) \<times> tree_state" where
  "put_file s ns d = (if look s ns = Some NamespaceNode then (Inl ''Is a directory'', s) else put_node s ns (ObjectNode d))"

definition tree_os :: "tree_state os_fs" where
  "tree_os =
     \<lparr>os_current_dir = (\<lambda>s. Inr ''/srv''),
      os_canonicalize = (\<lambda>p s. case walk_tree (look s) (names_of p) [] of
          None \<Rightarrow> Inl no_entry
        | Some ns \<Rightarrow> if look s ns = None then Inl no_entry else Inr (abs_path ns)),
      os_stat = (\<lambda>p s. case look s (names_of p) of
          None \<Rightarrow> Inl no_entry
        | Some x \<Rightarrow> Inr \<lparr>om_len = len_u64 (node_data (Some x)), om_is_dir = (x = NamespaceNode),
            om_is_file = (x \<noteq> NamespaceNode), om_modified = None, om_mode = 420\<rparr>),
      os_create_dir_all = (\<lambda>p s. case look s (names_of p) of
          Some NamespaceNode \<Rightarrow> (Inr (), s)
        | Some (ObjectNode d) \<Rightarrow> (Inl ''File exists'', s)
        | None \<Rightarrow> put_node s (names_of p) NamespaceNode),
      os_create = (\<lambda>p s. put_file s (names_of p) []),
      os_open = (\<lambda>p s. if look s (names_of p) = None then Inl no_entry else Inr ()),
      os_open_append = (\<lambda>p s. put_file s (names_of p) (node_data (look s (names_of p)))),
      os_read_to_end = (\<lambda>p s. case look s (names_of p) of Some (ObjectNode d) \<Rightarrow> Inr d | _ \<Rightarrow> Inl ''Is a directory''),
      os_seek = (\<lambda>p off s. Inr ()),
      os_read = (\<lambda>p off n s. case look s (names_of p) of
          Some (ObjectNode d) \<Rightarrow> Inr (take n (drop (unat off) d)) | _ \<Rightarrow> Inl ''Is a directory''),
      os_write_all = (\<lambda>p d s. put_file s (names_of p) d),
      os_append_all = (\<lambda>p d s. put_file s (names_of p) (node_data (look s (names_of p)) @ d)),
      os_sync_all = (\<lambda>p s. (Inr (), s)),
      os_remove_file = (\<lambda>p s. case look s (names_of p) of
          Some (ObjectNode d) \<Rightarrow> (Inr (), AList.delete (names_of p) s)
        | _ \<Rightarrow> (Inl no_entry, s)),
      os_read_dir = (\<lambda>p s. if look s (names_of p) = Some NamespaceNode
          then Inr (map Inr (child_names s (names_of p))) else Inl ''Not a directory''),
      os_remove_dir = (\<lambda>p s. if names_of p = [] \<or> look s (names_of p) \<noteq> Some NamespaceNode \<or> child_names s (names_of p) \<noteq> []
          then (Inl ''Directory not empty'', s) else (Inr (), AList.delete (names_of p) s))\<rparr>"

lemma look_update: "ns \<noteq> [] \<Longrightarrow> look (AList.update ns x s) = (look s)(ns \<mapsto> x)"
  by (auto simp: look_def update_conv' fun_eq_iff)

lemma look_delete: "ns \<noteq> [] \<Longrightarrow> look (AList.delete ns s) = (look s)(ns := None)"
  by (auto simp: look_def fun_eq_iff)

lemma tree_state_ok_update:
  assumes "tree_state_ok s" "tree_ok (look (AList.update ns x s))" "ns \<noteq> []" "names_ok ns" "list_all tree_name ns"
  shows "tree_state_ok (AList.update ns x s)"
  using assms by (auto simp: tree_state_ok_def look_update distinct_update dom_update split: if_splits)

lemma tree_state_ok_delete:
  assumes "tree_state_ok s" "tree_ok (look (AList.delete ns s))" "ns \<noteq> []"
  shows "tree_state_ok (AList.delete ns s)"
  using assms by (auto simp: tree_state_ok_def look_delete distinct_delete delete_keys removeAll_filter_not_eq split: if_splits)

lemma set_child_names:
  assumes "tree_state_ok s"
  shows "set (child_names s ns) = children (look s) ns"
proof -
  have "n \<in> set (child_names s ns) \<longleftrightarrow> n \<in> children (look s) ns" for n
  proof
    assume "n \<in> set (child_names s ns)"
    then obtain k where k: "k \<in> set (map fst s)" "butlast k = ns" "n = last k" by (auto simp: child_names_def)
    moreover from k(1) assms have "k \<noteq> []" by (force simp: tree_state_ok_def)
    ultimately have "ns @ [n] \<in> fst ` set s" by (metis append_butlast_last_id list.set_map)
    then show "n \<in> children (look s) ns" by (simp add: children_def look_def map_of_eq_None_iff)
  next
    assume "n \<in> children (look s) ns"
    then have "ns @ [n] \<in> set (map fst s)" by (auto simp: children_def look_def map_of_eq_None_iff)
    then show "n \<in> set (child_names s ns)" unfolding child_names_def by (force simp: image_iff)
  qed
  then show ?thesis by blast
qed

lemma distinct_child_names:
  assumes "tree_state_ok s"
  shows "distinct (child_names s ns)"
proof -
  have "inj_on last {k \<in> set (map fst s). butlast k = ns}"
  proof (rule inj_onI)
    fix k l
    assume "k \<in> {k \<in> set (map fst s). butlast k = ns}" "l \<in> {k \<in> set (map fst s). butlast k = ns}" "last k = last l"
    moreover from this assms have "k \<noteq> []" "l \<noteq> []" by (force simp: tree_state_ok_def)+
    ultimately show "k = l" by (metis (mono_tags, lifting) append_butlast_last_id mem_Collect_eq)
  qed
  with assms show ?thesis by (simp add: child_names_def distinct_map tree_state_ok_def)
qed

lemma tree_meets_Some:
  assumes "tree_state_ok s" "names_ok ns" "list_all tree_name ns" "ns \<noteq> []" "tree_ok ((look s)(ns \<mapsto> x))"
  shows "os_meets tree_state_ok look (Inr (), AList.update ns x s) (Some ((look s)(ns \<mapsto> x))) s"
  using assms tree_state_ok_update [OF assms(1), of ns x] by (simp add: os_meets_def look_update)

lemma put_file_meets:
  assumes ok: "tree_state_ok s" and ns: "names_ok ns"
  shows "os_meets tree_state_ok look (put_file s ns d) (if list_all tree_name ns then spec_put (look s) ns d else None) s"
proof (cases "list_all tree_name ns \<and> spec_put (look s) ns d \<noteq> None")
  case True
  then have c: "list_all tree_name ns" "ns \<noteq> []" "look s ns \<noteq> Some NamespaceNode" "look s (butlast ns) = Some NamespaceNode"
    and sp: "spec_put (look s) ns d = Some ((look s)(ns \<mapsto> ObjectNode d))"
    by (auto simp: spec_put_def split: if_splits)
  have "tree_ok (look s)" using ok by (simp add: tree_state_ok_def)
  from spec_tree_ok(1) [OF this sp] show ?thesis
    using tree_meets_Some [OF ok ns c(1,2)] c sp by (simp add: put_file_def put_node_def)
qed (auto simp: os_meets_def spec_put_def put_file_def put_node_def split: if_splits)

lemma put_file_existing:
  assumes ok: "tree_state_ok s" and ns: "names_ok ns" and ob: "look s ns = Some (ObjectNode c)"
  shows "os_meets tree_state_ok look (put_file s ns d) (Some ((look s)(ns \<mapsto> ObjectNode d))) s"
proof -
  have tree: "tree_ok (look s)" using ok by (simp add: tree_state_ok_def)
  have "list_all tree_name ns" "ns \<noteq> []" using ok ob by (auto simp: tree_state_ok_def look_def)
  moreover have "look s (butlast ns) = Some NamespaceNode" using tree_ok_up [OF tree, of ns] ob by simp
  ultimately show ?thesis using put_file_meets [OF ok ns, of d] ob by (simp add: spec_put_def)
qed

lemma delete_meets:
  assumes "tree_state_ok s" "ns \<noteq> []" "tree_ok ((look s)(ns := None))"
  shows "os_meets tree_state_ok look (Inr (), AList.delete ns s) (Some ((look s)(ns := None))) s"
  using assms tree_state_ok_delete [OF assms(1), of ns] by (simp add: os_meets_def look_delete)

lemma tree_os_names: "tree_state_ok s \<Longrightarrow> fs_names tree_os look tree_name s"
  by (auto simp: fs_names_def tree_state_ok_def tree_os_def split: option.splits if_splits)

lemma tree_os_reads:
  assumes "tree_state_ok s"
  shows "fs_reads tree_os look s"
  unfolding fs_reads_def
proof (intro allI impI conjI)
  fix ns
  assume ns: "names_ok ns"
  show "stat_shows (look s ns) (os_stat tree_os (abs_path ns) s)"
    using ns by (auto simp: stat_shows_def tree_os_def split: option.split)
  show "case look s ns of
      Some (ObjectNode d) \<Rightarrow> reads_file tree_os (abs_path ns) s d \<and> os_read_to_end tree_os (abs_path ns) s = Inr d
    | _ \<Rightarrow> \<not> reads_anything tree_os (abs_path ns) s"
    using ns by (auto simp: reads_file_def reads_anything_def tree_os_def node_data_def split: option.split node.split)
  show "if look s ns = Some NamespaceNode
    then \<exists>es. os_read_dir tree_os (abs_path ns) s = Inr (map Inr es) \<and> distinct es \<and> set es = children (look s) ns
    else \<exists>e. os_read_dir tree_os (abs_path ns) s = Inl e"
    using ns set_child_names [OF assms, of ns] distinct_child_names [OF assms, of ns]
    by (auto simp: tree_os_def)
qed

lemma tree_os_changes:
  assumes ok: "tree_state_ok s"
  shows "fs_changes tree_os tree_state_ok look tree_name s"
  unfolding fs_changes_def
proof (intro allI impI conjI)
  fix ns
  assume ns: "names_ok ns"
  note [simp] = names_of_abs_path [OF ns]
  have tree: "tree_ok (look s)" and root: "look s [] = Some NamespaceNode"
    using ok by (simp_all add: tree_state_ok_def look_def)
  show "os_meets tree_state_ok look (os_create tree_os (abs_path ns) s) (if list_all tree_name ns then spec_put (look s) ns [] else None) s"
    using put_file_meets [OF ok ns, of "[]"] by (cases "list_all tree_name ns") (simp_all add: tree_os_def)
  show "os_meets tree_state_ok look (os_open_append tree_os (abs_path ns) s) (if list_all tree_name ns then spec_append (look s) ns [] else None) s"
    using put_file_meets [OF ok ns, of "node_data (look s ns)"] by (cases "list_all tree_name ns") (simp_all add: tree_os_def spec_append_def)
  show "os_meets tree_state_ok look (os_remove_file tree_os (abs_path ns) s) (spec_delete (look s) ns) s"
  proof (cases "spec_delete (look s) ns")
    case (Some t)
    then obtain d where d: "look s ns = Some (ObjectNode d)" "t = (look s)(ns := None)"
      by (auto simp: spec_delete_def split: option.splits node.splits)
    then have "ns \<noteq> []" using root by auto
    with delete_meets [OF ok this] spec_tree_ok(3) [OF tree Some] d Some show ?thesis by (simp add: tree_os_def)
  qed (auto simp: os_meets_def spec_delete_def tree_os_def split: option.split node.split option.splits node.splits)
  show "os_meets tree_state_ok look (os_remove_dir tree_os (abs_path ns) s) (spec_rmdir (look s) ns) s"
  proof (cases "spec_rmdir (look s) ns")
    case (Some t)
    then have c: "ns \<noteq> []" "look s ns = Some NamespaceNode" "children (look s) ns = {}" "t = (look s)(ns := None)"
      by (auto simp: spec_rmdir_def children_def split: if_splits)
    then have "child_names s ns = []" using set_child_names [OF ok, of ns] by simp
    with delete_meets [OF ok c(1)] spec_tree_ok(5) [OF tree Some] c Some show ?thesis by (simp add: tree_os_def)
  next
    case None
    then have "ns = [] \<or> look s ns \<noteq> Some NamespaceNode \<or> child_names s ns \<noteq> []"
      using set_child_names [OF ok, of ns] by (auto simp: spec_rmdir_def children_def split: if_splits)
    with None show ?thesis by (auto simp: tree_os_def os_meets_def)
  qed
  show "os_meets tree_state_ok look (os_create_dir_all tree_os (abs_path ns) s) (if list_all tree_name ns then spec_mkdir (look s) ns else None) s"
  proof (cases "look s ns")
    case None
    then have ne: "ns \<noteq> []" using root by auto
    show ?thesis
    proof (cases "list_all tree_name ns \<and> look s (butlast ns) = Some NamespaceNode")
      case True
      with None have sp: "spec_mkdir (look s) ns = Some ((look s)(ns \<mapsto> NamespaceNode))" by (simp add: spec_mkdir_def)
      from spec_tree_ok(4) [OF tree sp] True tree_meets_Some [OF ok ns _ ne] None sp ne show ?thesis
        by (simp add: tree_os_def put_node_def)
    next
      case False
      with None show ?thesis by (auto simp: tree_os_def put_node_def os_meets_def spec_mkdir_def)
    qed
  next
    case (Some x)
    have "list_all tree_name ns" using ok Some by (auto simp: tree_state_ok_def)
    with Some ok show ?thesis by (auto simp: tree_os_def os_meets_def spec_mkdir_def split: node.split)
  qed
  show "os_create_dir_all tree_os (abs_path ns) s = (Inr (), s)" if "look s ns = Some NamespaceNode"
    using that by (simp add: tree_os_def)
  show "os_meets tree_state_ok look (os_write_all tree_os (abs_path ns) d s) (Some ((look s)(ns \<mapsto> ObjectNode d))) s"
    if "look s ns = Some (ObjectNode [])" for d
    using put_file_existing [OF ok ns that, of d] by (simp add: tree_os_def)
  show "os_meets tree_state_ok look (os_append_all tree_os (abs_path ns) d s) (Some ((look s)(ns \<mapsto> ObjectNode (c @ d)))) s"
    "os_meets tree_state_ok look (os_sync_all tree_os (abs_path ns) s) (Some (look s)) s"
    if "look s ns = Some (ObjectNode c)" for c d
    using put_file_existing [OF ok ns that, of "c @ d"] that ok by (simp_all add: tree_os_def node_data_def os_meets_def)
qed

lemma tree_os_plain: "plain_fs tree_os tree_state_ok look tree_name"
  by (simp add: plain_fs_def tree_os_names tree_os_reads tree_os_changes)

text \<open>A base directory \<open>/srv\<close> with nothing in it.\<close>

definition sample_disk :: tree_state where
  "sample_disk = [([''srv''], NamespaceNode)]"

definition sample_tokio :: tokio_fs_storage where
  "sample_tokio = tokio_fs_storage_new tree_os ''/srv'' sample_disk"


lemma sample_tokio_base: "fo_base_dir (tf_file_ops sample_tokio) = abs_path [''srv'']"
  by code_simp

lemma look_sample_disk: "look sample_disk ns = (if ns = [] \<or> ns = [''srv''] then Some NamespaceNode else None)"
  by (simp add: look_def sample_disk_def)

lemma sample_disk_ok: "tree_state_ok sample_disk"
  by (auto simp: tree_state_ok_def tree_ok_def look_sample_disk tree_name_def names_ok_def name_ok_def)
    (simp_all add: sample_disk_def append_eq_Cons_conv)

lemma sample_disk_ready: "disk_ready tree_os tree_state_ok look tree_name sample_tokio [''srv''] sample_disk"
  using tree_os_plain sample_disk_ok sample_tokio_base
  by (simp add: disk_ready_def look_sample_disk names_ok_def name_ok_def)

definition disk_connection :: "(fenris_output list, tree_state) connection" where
  "disk_connection =
     \<lparr>cn_id = 1, cn_channel = [], cn_current_dir = ''/'', cn_storage = sample_disk,
      cn_config = server_config_default, cn_active_write = None\<rparr>"

lemma disk_connection_simps [simp]:
  "cn_channel disk_connection = []" "cn_current_dir disk_connection = ''/''"
  "cn_storage disk_connection = sample_disk" "cn_active_write disk_connection = None"
  by (simp_all add: disk_connection_def)

subsection \<open>A terminal, a client and a server machine\<close>

text \<open>A layout that gives all that the margin leaves to every part.\<close>

definition whole_area :: splitter where
  "whole_area l a = replicate (length (ly_constraints l)) (inner_area (ly_margin l) a)"

lemma whole_area_ok: "layout_ok whole_area"
  by (auto simp: layout_ok_def whole_area_def)

definition sample_area :: rect where
  "sample_area = \<lparr>rect_x = 0, rect_y = 0, rwidth = 80, rheight = 24\<rparr>"

definition sample_tick :: "term_event option \<Rightarrow> tui_tick" where
  "sample_tick ev =
     \<lparr>tk_size = Inr sample_area, tk_drawn = 0, tk_flush = Inr (), tk_poll = Inr (ev \<noteq> None),
      tk_read = (case ev of None \<Rightarrow> Inl ''no event'' | Some e \<Rightarrow> Inr e), tk_time = (\<lambda>_. 0), tk_now = 0\<rparr>"

text \<open>The terminal client with a pinned identity connects over the sample streams when enter is pressed
  and then takes a line on the command screen.\<close>

definition sample_env :: "link client_env" where
  "sample_env = secure_client_env plain_identity plain_primitives plain_prost (\<lambda>_. Inr sample_client_wire) (\<lambda>_. []) (\<lambda>_. None) missing_files"

definition press :: "key_code \<Rightarrow> tui_tick" where
  "press key = sample_tick (Some (KeyInput \<lparr>key_code = key, key_control = False\<rparr> Press))"

definition pinned_client :: "link tui_client" where
  "pinned_client = \<lparr>tc_app = app_new 0,
     tc_manager = \<lparr>mg_server_info = None, mg_server_identity = Some (public_key plain_identity sample_key), mg_channel = None\<rparr>\<rparr>"

lemma pinned_client_eq: "tui_client_with_server_identity 0 (public_key plain_identity sample_key) = Ok pinned_client"
  by (simp add: tui_client_with_server_identity_def with_server_identity_def set_server_identity_def is_connected_def
      connection_manager_new_def pinned_client_def)

lemma sample_area_ok: "rect_ok sample_area"
  by (simp add: rect_ok_def sample_area_def)

lemma sample_tick_drawn: "\<exists>f. tui_draw whole_area (sample_tick ev) a = Done f"
  using screen_inside [OF whole_area_ok, of "\<lparr>uf_area = sample_area, uf_widgets = [], uf_cursor = None\<rparr>" 0 a] sample_area_ok
  by (auto simp: tui_draw_def sample_tick_def)

lemma press_loop:
  assumes "tui_handle_key_event E (\<lambda>_. 0) \<lparr>key_code = key, key_control = False\<rparr> c = Some (Ok (), c1)"
    "\<not> should_quit (tc_app c1)"
  obtains f where "\<And>ks fs. tui_loop whole_area E (press key # ks) c fs =
    tui_loop whole_area E ks (c1\<lparr>tc_app := tick 0 (tc_app c1)\<rparr>) (fs @ [f])"
proof -
  obtain f where "tui_draw whole_area (press key) (tc_app c) = Done f" using sample_tick_drawn unfolding press_def by blast
  moreover have "tui_round E (press key) c = Some (Done (), c1\<lparr>tc_app := tick 0 (tc_app c1)\<rparr>)"
    using assms(1) by (simp add: tui_round_def press_def sample_tick_def poll_events_def)
  ultimately show ?thesis using assms(2) by (intro that [of f]) (simp add: tick_def)
qed

lemma sample_connect:
  assumes "mg_server_info m = Some i" "mg_server_identity m = Some (public_key plain_identity sample_key)"
  shows "\<exists>l. ce_connect sample_env m = (Ok (), m\<lparr>mg_channel := Some l\<rparr>)"
  using connected [OF sample_trusted sample_connected assms, where dial = "\<lambda>_. Inr sample_client_wire" and cid = 1
      and st = memory_storage_new and config = server_config_default]
  by (auto simp: sample_env_def secure_client_env_def)

lemma enter_connects:
  assumes "ap_screen (tc_app c) = ConnectionScreen" "parse_u16 (trim (server_port (tc_app c))) = Some port" "\<not> is_connected (tc_manager c)"
    and "ce_connect E ((tc_manager c)\<lparr>mg_server_info := Some \<lparr>si_address = trim (server_addr (tc_app c)), si_port = port\<rparr>\<rparr>) = (Ok (), m)"
  shows "\<exists>w v. tui_handle_key_event E t \<lparr>key_code = Enter, key_control = False\<rparr> c =
    Some (Ok (), \<lparr>tc_app = (app_success (t 1) v ((app_info (t 0) w (tc_app c))\<lparr>connected := True\<rparr>))\<lparr>ap_screen := CommandScreen\<rparr>,
      tc_manager = m\<rparr>)"
  using assms by (auto simp: tui_handle_key_event_def handle_connect_def set_server_info_def Let_def)

lemma sample_enter:
  "\<exists>a l. tui_handle_key_event sample_env (\<lambda>_. 0) \<lparr>key_code = Enter, key_control = False\<rparr>
      (pinned_client\<lparr>tc_app := app_info t1 w1 (app_info t0 w0 (tc_app pinned_client))\<rparr>) =
    Some (Ok (), \<lparr>tc_app = a, tc_manager = l\<rparr>) \<and> ap_screen a = CommandScreen \<and> command_input a = [] \<and> cursor_position a = 0 \<and>
    connected a \<and> \<not> should_quit a"
proof -
  let ?c = "pinned_client\<lparr>tc_app := app_info t1 w1 (app_info t0 w0 (tc_app pinned_client))\<rparr>"
  have port: "parse_u16 (trim (server_port (tc_app ?c))) = Some 5555"
  proof -
    have "server_port (tc_app ?c) = ''5555''" by (simp add: pinned_client_def app_new_def app_says add_message_def Let_def)
    moreover have "trim ''5555'' = ''5555''" by code_simp
    moreover have "parse_u16 ''5555'' = Some 5555" by (simp add: parse_u16_def code_of_def)
    ultimately show ?thesis by metis
  qed
  have start: "ap_screen (tc_app ?c) = ConnectionScreen" "\<not> is_connected (tc_manager ?c)" "command_input (tc_app ?c) = []"
    "cursor_position (tc_app ?c) = 0" "\<not> should_quit (tc_app ?c)"
    by (simp_all add: pinned_client_def app_new_def app_says add_message_def Let_def is_connected_def)
  let ?m = "(tc_manager ?c)\<lparr>mg_server_info := Some \<lparr>si_address = trim (server_addr (tc_app ?c)), si_port = 5555\<rparr>\<rparr>"
  obtain l where "ce_connect sample_env ?m = (Ok (), ?m\<lparr>mg_channel := Some l\<rparr>)"
    using sample_connect [of ?m] by (auto simp: pinned_client_def)
  from enter_connects [OF start(1) port start(2) this, of "\<lambda>_. 0"] obtain w v where
    run: "tui_handle_key_event sample_env (\<lambda>_. 0) \<lparr>key_code = Enter, key_control = False\<rparr> ?c =
      Some (Ok (), \<lparr>tc_app = (app_success 0 v ((app_info 0 w (tc_app ?c))\<lparr>connected := True\<rparr>))\<lparr>ap_screen := CommandScreen\<rparr>,
        tc_manager = ?m\<lparr>mg_channel := Some l\<rparr>\<rparr>)" by blast
  show ?thesis
    by (intro exI conjI, rule run) (use start(3-5) in \<open>simp_all add: app_says add_message_def Let_def\<close>)
qed

lemma type_char:
  assumes "ap_screen (tc_app c) = CommandScreen" "cursor_position (tc_app c) = length (command_input (tc_app c))" "\<not> should_quit (tc_app c)"
    "is_char_boundary (command_input (tc_app c)) (length (command_input (tc_app c)))"
  shows "tui_handle_key_event E t \<lparr>key_code = CharKey [x], key_control = False\<rparr> c =
    Some (Ok (), c\<lparr>tc_app := (tc_app c)\<lparr>command_input := command_input (tc_app c) @ [x],
      cursor_position := Suc (cursor_position (tc_app c)), history_index := None\<rparr>\<rparr>)"
  using assms
  by (simp add: tui_handle_key_event_def ui_key_def ui_handle_key_event_def handle_command_input_def insert_char_def)

lemma sample_tui_run:
  obtains c' fs where "tui_run whole_area sample_env 0 1 [press Enter, press (CharKey ''l''), press (CharKey ''s'')] pinned_client =
      Some (StillRunning, c', fs)" "length fs = 3" "ap_screen (tc_app c') = CommandScreen" "command_input (tc_app c') = ''ls''"
    "connected (tc_app c')"
proof -
  obtain a l where enter: "tui_handle_key_event sample_env (\<lambda>_. 0) \<lparr>key_code = Enter, key_control = False\<rparr>
      (pinned_client\<lparr>tc_app := app_info 1 ''Press F1 for help, Ctrl+C to quit.''
            (app_info 0 ''Welcome to Fenris Client!'' (tc_app pinned_client))\<rparr>) = Some (Ok (), \<lparr>tc_app = a, tc_manager = l\<rparr>)"
    "ap_screen a = CommandScreen" "command_input a = []" "cursor_position a = 0" "connected a" "\<not> should_quit a"
    using sample_enter by blast
  have bounds: "is_char_boundary [] 0" "is_char_boundary ''l'' 1" by code_simp+
  let ?c1 = "\<lparr>tc_app = tick 0 a, tc_manager = l\<rparr>"
  let ?a2 = "(tick 0 a)\<lparr>command_input := ''l'', cursor_position := 1, history_index := None\<rparr>"
  let ?c2 = "\<lparr>tc_app = tick 0 ?a2, tc_manager = l\<rparr>"
  let ?a3 = "?a2\<lparr>command_input := ''ls'', cursor_position := 2, history_index := None\<rparr>"
  have k1: "tui_handle_key_event sample_env (\<lambda>_. 0) \<lparr>key_code = CharKey ''l'', key_control = False\<rparr> ?c1 = Some (Ok (), \<lparr>tc_app = ?a2, tc_manager = l\<rparr>)"
    using type_char [of ?c1 sample_env "\<lambda>_. 0" "CHR ''l''"] enter(2-6) bounds by (simp add: tick_def)
  have k2: "tui_handle_key_event sample_env (\<lambda>_. 0) \<lparr>key_code = CharKey ''s'', key_control = False\<rparr> ?c2 = Some (Ok (), \<lparr>tc_app = ?a3, tc_manager = l\<rparr>)"
    using type_char [of ?c2 sample_env "\<lambda>_. 0" "CHR ''s''"] enter(2-6) bounds by (simp add: tick_def numeral_2_eq_2)
  have quit: "\<not> should_quit (tc_app \<lparr>tc_app = a, tc_manager = l\<rparr>)" "\<not> should_quit (tc_app \<lparr>tc_app = ?a2, tc_manager = l\<rparr>)"
    "\<not> should_quit (tc_app \<lparr>tc_app = ?a3, tc_manager = l\<rparr>)"
    using enter(6) by (simp_all add: tick_def)
  obtain f1 where f1: "\<And>ks fs. tui_loop whole_area sample_env (press Enter # ks) (pinned_client\<lparr>tc_app := app_info 1 ''Press F1 for help, Ctrl+C to quit.''
            (app_info 0 ''Welcome to Fenris Client!'' (tc_app pinned_client))\<rparr>) fs =
      tui_loop whole_area sample_env ks (\<lparr>tc_app = a, tc_manager = l\<rparr>\<lparr>tc_app := tick 0 (tc_app \<lparr>tc_app = a, tc_manager = l\<rparr>)\<rparr>) (fs @ [f1])"
    by (rule press_loop [OF enter(1) quit(1)]) blast
  obtain f2 where f2: "\<And>ks fs. tui_loop whole_area sample_env (press (CharKey ''l'') # ks) ?c1 fs =
      tui_loop whole_area sample_env ks (\<lparr>tc_app = ?a2, tc_manager = l\<rparr>\<lparr>tc_app := tick 0 (tc_app \<lparr>tc_app = ?a2, tc_manager = l\<rparr>)\<rparr>) (fs @ [f2])"
    by (rule press_loop [OF k1 quit(2)]) blast
  obtain f3 where f3: "\<And>ks fs. tui_loop whole_area sample_env (press (CharKey ''s'') # ks) ?c2 fs =
      tui_loop whole_area sample_env ks (\<lparr>tc_app = ?a3, tc_manager = l\<rparr>\<lparr>tc_app := tick 0 (tc_app \<lparr>tc_app = ?a3, tc_manager = l\<rparr>)\<rparr>) (fs @ [f3])"
    by (rule press_loop [OF k2 quit(3)]) blast
  show ?thesis
    using enter(2,5) by (intro that [of "\<lparr>tc_app = tick 0 ?a3, tc_manager = l\<rparr>" "[f1, f2, f3]"])
      (simp_all only: tui_run_def f1 f2 f3 tui_client.simps tui_loop.simps(1) append.simps, simp_all add: tick_def)
qed

text \<open>A command screen with more messages than fit.\<close>

definition long_log :: app where
  "long_log = (app_new 0)\<lparr>ap_screen := CommandScreen,
     messages := map (\<lambda>n. \<lparr>msg_timestamp = n, msg_kind = InfoMsg, msg_content = show_nat n\<rparr>) [0..<30]\<rparr>"

lemma long_log_ok: "app_inv long_log" "ap_screen long_log = CommandScreen" "length (messages long_log) = 30"
  using app_inv_new [of 0] by (simp_all add: long_log_def app_inv_def)

text \<open>A terminal with its two switches.\<close>

definition plain_terminal :: "(bool \<times> bool) terminal_ops" where
  "plain_terminal =
     \<lparr>enter_alternate_screen = (\<lambda>(a, r). (Inr (), True, r)), enable_raw_mode = (\<lambda>(a, r). (Inr (), a, True)),
      terminal_new = (\<lambda>t. (Inr (), t)),
      leave_alternate_screen = (\<lambda>(a, r). (Inr (), False, r)), disable_raw_mode = (\<lambda>(a, r). (Inr (), a, False))\<rparr>"

lemma plain_terminal_ok: "terminal_ok plain_terminal fst snd"
  by (auto simp: terminal_ok_def plain_terminal_def)

lemma plain_terminal_restores: "fst (terminal_restore plain_terminal t) = Done ()"
  by (simp add: terminal_restore_def any_then_def io_step_def plain_terminal_def split: prod.splits)

text \<open>A client whose server cannot be reached, with one command to run and one key to read.\<close>

definition offline_client :: "((path \<rightharpoonup> string), bool \<times> bool, string) client_world" where
  "offline_client =
     \<lparr>cw_env = \<lparr>be_identity = plain_identity, be_crypto = plain_primitives, be_prost = plain_prost,
        be_dial = (\<lambda>_. Inl (IoError IoOther ''refused'')), be_debug = (\<lambda>_. []), be_chrono = (\<lambda>_. None),
        be_files = missing_files, be_json = (\<lambda>_. [])\<rparr>,
      cw_std = text_fs, cw_create = (\<lambda>p f. (Inr (), f(p \<mapsto> []))), cw_stdin = [Inr ''ping''],
      cw_opened = (\<lambda>f p. case f p of None \<Rightarrow> Inl ''No such file or directory'' | Some t \<Rightarrow> Inr [Inr t]),
      cw_stdout = (\<lambda>t w. (Inr (), w @ t)), cw_terminal = plain_terminal, cw_layout = whole_area,
      cw_start = 0, cw_welcome = 0, cw_hint = 0,
      cw_ticks = [sample_tick (Some (KeyInput \<lparr>key_code = CharKey ''c'', key_control = True\<rparr> Press))]\<rparr>"

lemma offline_client_simps [simp]:
  "cw_terminal offline_client = plain_terminal" "be_identity (cw_env offline_client) = plain_identity"
  "cw_std offline_client = text_fs" "cw_create offline_client p f = (Inr (), f(p \<mapsto> []))"
  by (simp_all add: offline_client_def)

lemma offline_client_writes: "writes_all (cw_stdout offline_client)"
  by (simp add: writes_all_def offline_client_def)

lemma offline_batch: "\<exists>e m. run_batch (cw_env offline_client) wr cfg k w = Some (Failed e, m, w)"
  by (simp add: offline_client_def run_batch_def with_server_identity_def set_server_identity_def set_server_info_def
      connection_manager_new_def connect_def is_connected_def state_bind_def)

definition sample_pin :: string where
  "sample_pin = public_to_hex plain_identity (public_key plain_identity sample_key)"

text \<open>A machine on which the directory \<open>d\<close> exists once the file \<open>d/key\<close> does.\<close>

definition late_os :: "(path \<rightharpoonup> string) os_fs" where
  "late_os =
     \<lparr>os_current_dir = (\<lambda>f. Inr ''/''),
      os_canonicalize = (\<lambda>p f. if f ''d/key'' = None then Inl ''No such file or directory'' else Inr ''/d''),
      os_stat = (\<lambda>p f. Inl ''No such file or directory''),
      os_create_dir_all = (\<lambda>p f. (Inr (), f)), os_create = (\<lambda>p f. (Inr (), f(p \<mapsto> []))),
      os_open = (\<lambda>p f. if f p = None then Inl ''No such file or directory'' else Inr ()),
      os_open_append = (\<lambda>p f. (Inr (), f)), os_read_to_end = (\<lambda>p f. Inr []),
      os_seek = (\<lambda>p off f. Inr ()), os_read = (\<lambda>p off n f. Inr []),
      os_write_all = (\<lambda>p d f. (Inr (), f)), os_append_all = (\<lambda>p d f. (Inr (), f)),
      os_sync_all = (\<lambda>p f. (Inr (), f)), os_remove_file = (\<lambda>p f. (Inr (), f(p := None))),
      os_read_dir = (\<lambda>p f. Inr []), os_remove_dir = (\<lambda>p f. (Inr (), f))\<rparr>"

lemma late_os_canonical: "os_canonical late_os"
proof -
  have "canonical ''/d''" by code_simp
  then show ?thesis by (auto simp: os_canonical_def late_os_def split: if_splits)
qed

definition sample_machine :: "(path \<rightharpoonup> string) server_world" where
  "sample_machine =
     \<lparr>sw_identity = plain_identity, sw_std = text_fs, sw_os = late_os, sw_seed = 5, sw_bind = (\<lambda>_. None),
      sw_local_addr = Inr, sw_debug_path = id\<rparr>"

lemma sample_machine_simps [simp]:
  "sw_identity sample_machine = plain_identity" "sw_std sample_machine = text_fs" "sw_os sample_machine = late_os"
  by (simp_all add: sample_machine_def)

definition late_args :: server_args where
  "late_args = (server_args_default ''d/key'')\<lparr>arg_base_dir := ''d''\<rparr>"

lemma sample_machine_starts:
  "\<exists>inst h'. server_main sample_machine late_args \<lparr>sh_files = Map.empty, sh_output = []\<rparr> = (Done inst, h') \<and>
     (\<exists>inst' h2. server_main (sample_machine\<lparr>sw_seed := n\<rparr>) late_args h' = (Done inst', h2))"
proof -
  let ?k = "key_generate plain_identity 5" and ?h = "\<lparr>sh_files = Map.empty, sh_output = []\<rparr>"
  let ?f = "[''d/key'' \<mapsto> key_to_hex plain_identity ?k @ [CHR 0x0A]]"
  have "parent ''d/key'' = Some ''d''" by code_simp
  then have first: "load_or_generate plain_identity text_fs 5 ''d/key'' Map.empty = (Ok ?k, ?f)"
    by (simp add: load_or_generate_def key_save_to_file_def state_bind_def text_fs_def)
  note again = load_or_generate_stable [OF plain_hex_ok plain_ed25519_ok text_fs_ok first, of n]
  note start = server_main_def Let_def any_then_def identity_of_host_def load_or_create_server_identity_def asked_def
    println_def canonical_base_def sample_machine_def late_args_def server_args_default_def late_os_def
    bind_authenticated_def server_bind_def bind_with_identity_def main_config_eq MAX_PERMITS_def local_addr_def
  obtain inst h' where run: "server_main sample_machine late_args ?h = (Done inst, h')" "sh_files h' = ?f"
    using first by (simp add: start)
  moreover have "\<exists>inst' h2. server_main (sample_machine\<lparr>sw_seed := n\<rparr>) late_args h' = (Done inst', h2)"
    using again run(2) by (simp add: start)
  ultimately show ?thesis by blast
qed

end
