(* ===== verification/Spec2Isabelle.thy ===== *)
theory Spec2Isabelle
  imports Memory_Storage File_Ops Request_Handler Compression Crypto Protocol Identity Secure_Channel
    Server Batch Screens Tui_Client Programs Session Shared_Storage Disk_Storage Channel_Refinement Secure_Session Instances
begin

text \<open>
  \<^bold>\<open>Verification of fenris\<close>, an object store over an authenticated, encrypted connection.

  \<^bold>\<open>The program.\<close>  A client turns command lines into commands (\<open>client/src/request_manager.rs\<close>),
  runs them over one connection (\<open>connection_manager.rs\<close>) and shows the replies
  (\<open>response_manager.rs\<close>), in a terminal (\<open>client.rs\<close>, \<open>app.rs\<close>, \<open>ui/\<close>) or as a batch
  (\<open>batch.rs\<close>), as its arguments say (\<open>main.rs\<close>).  Commands and replies travel as protobuf messages (\<open>common/src/domain.rs\<close>,
  \<open>protocol.rs\<close>), compressed (\<open>compression.rs\<close>), sealed (\<open>crypto.rs\<close>, \<open>secure_channel.rs\<close>) and framed
  (\<open>framing.rs\<close>).  The key comes from a handshake that the server signs with a long-term
  identity (\<open>identity.rs\<close>).  The server accepts connections up to a limit (\<open>server/src/server.rs\<close>),
  serves each (\<open>connection.rs\<close>) by a request handler (\<open>request_handler.rs\<close>) over a storage
  backend (\<open>common/src/storage.rs\<close>), which is a table in memory or a directory of the file
  system (\<open>file_ops.rs\<close>).

  \<^bold>\<open>Shared theories.\<close>
  \<^item> \<open>Prelude\<close>: machine integers (\<open>u8\<close> to \<open>u64\<close> as words, \<open>usize\<close> as numbers below \<open>2 ^ 64\<close> with
    the wrap-around written out), big-endian bytes, decimal texts, splitting and chunking.
  \<^item> \<open>Utf8\<close>: strings are lists of bytes; validity, lossy decoding, characters, whitespace, trim.
  \<^item> \<open>Paths\<close>: \<open>std::path\<close> on Unix: components, join, parent, prefixes, canonical paths.
  \<^item> \<open>Fenris_Error\<close>: \<open>FenrisError\<close>, results with a third outcome \<open>Panic\<close>, and actions that
    pass a state and may fail.

  \<^bold>\<open>Theories of the components\<close>, in the order in which they build on each other.
  \<^item> \<open>Domain\<close>, \<open>Protocol\<close>: messages, commands, outputs and codecs.  Every conversion is proved to
    be undone by its inverse up to what the wire keeps (\<open>command_on_wire\<close>, \<open>output_on_wire\<close>);
    the locale \<open>codec_contract\<close> is interpreted on the four codecs.
  \<^item> \<open>Framing\<close>: a stream has the bytes still to be read, the bytes written and, when the
    connection is going to break, the room that is left.  Locale \<open>prefix_code\<close>: a list of
    length-prefixed parts determines the parts (used for frames and for transcripts).
  \<^item> \<open>Compression\<close>, \<open>Crypto\<close>: the traits as records of operations, their laws as the locales
    \<open>compressor_contract\<close>, \<open>encryptor_contract\<close>, \<open>key_exchange_contract\<close>.
  \<^item> \<open>Identity\<close>: key files survive a restart; transcripts determine their parts.
  \<^item> \<open>Secure_Channel\<close>: handshakes and messages; locale \<open>secure_link\<close> (delivery in order,
    authenticity) and locale \<open>handshake\<close> (agreement on the key).
  \<^item> \<open>Storage\<close>: the trait \<open>StorageBackend\<close> and its contract \<open>storage_contract\<close>.  \<open>Object_Tree\<close>: the
    abstract storage, a tree with partial operations, and the contract \<open>tree_storage\<close> of a
    backend that answers as the tree does.  \<open>Memory_Storage\<close> interprets both contracts.  \<open>File_Ops\<close>
    models the backend on the file system and proves that it only hands paths inside its base directory (and, to
    make sure it exists, the base's parent) to the operating system;
    \<open>Disk_Storage\<close> interprets both contracts for it, over a file system that behaves as a tree
    without links (\<open>plain_fs\<close>), so the two backends are proved to agree
    and nothing outside the base directory is changed.
  \<^item> \<open>Request_Handler\<close>, \<open>Connection\<close>: commands, chunked transfers and the loop of one
    connection.  Locales \<open>reply_channel\<close> and \<open>served_connection\<close> join a backend with a channel;
    they are interpreted on the memory storage and the secure channel.
  \<^item> \<open>Server_Config\<close>, \<open>Server\<close>: the configuration, and the accept loop with its tasks, permits and
    shutdown as a step relation with invariants over every interleaving.  A task may end at any step; what a task
    does is \<open>Connection\<close>, and the measure \<open>drain_work\<close> bounds what is left to do after the cancellation.
  \<^item> \<open>Request_Manager\<close>, \<open>Response_Manager\<close>, \<open>Connection_Manager\<close>, \<open>Batch\<close>, \<open>App\<close>: the client's managers, its
    batch mode and its state.  \<open>Screens\<close>: what the terminal client draws, as the widgets and their
    areas.  \<open>Tui_Client\<close>: its loop of drawing, polling and handling keys.
  \<^item> \<open>Programs\<close>: the two \<open>main\<close> functions from their parsed arguments to the exit status, with the
    set-up of the terminal, and the server up to the point where it serves.
  \<^item> \<open>Session\<close>: the client's manager against the server's handlers, with a queue between them that
    carries the messages of a given size (\<open>bounded_session\<close>); the locale \<open>file_session\<close> holds the
    end-to-end lemmas for any backend that meets the contract and any queue that carries the
    messages of a transfer (\<open>transfer_carrier\<close>); it is interpreted on the memory storage and, in
    \<open>Disk_Storage\<close>, on the file system.
  \<^item> \<open>Channel_Refinement\<close>: the locale \<open>channel_refinement\<close> of two channels for the client, one of
    which does what the other does successfully; every operation of the manager, up to a whole
    command line, then gives the same result over both.
  \<^item> \<open>Secure_Session\<close>: the system put together.  A \<open>wired\<close> state has the client's end, the server's
    connection with its end, and how many bytes of each direction have been carried; when the
    client sends, its bytes are carried to the server, the server's loop runs once, and its bytes
    are carried back.  The locale \<open>wire_replies\<close> shows that the server's handlers answer over the
    secure channel as into a queue; \<open>wired_refinement\<close> interprets \<open>channel_refinement\<close> for this
    wire and the queue; \<open>connected\<close> starts it from the two runs of the authenticated handshake.
  \<^item> \<open>Shared_Storage\<close>: any number of connections over the one storage of the server, in turns of one
    command or one streamed chunk (which is how \<open>MemoryStorage\<close> serialises them by its lock; the operations
    of the file-system backend are not atomic, so nothing is claimed of them here).  The locale \<open>framed_storage\<close> extends the storage contract by
    what each operation leaves alone, \<open>shared_server\<close> adds the channel; they are interpreted on the
    memory storage with the secure channel.
  \<^item> \<open>Instances\<close>: concrete functions for the parameters below; they show that the hypotheses on
    foreign code can hold and serve the concrete runs beside the theorems.

  \<^bold>\<open>Parameters.\<close>  Code that is not in the repository is an argument, and what is documented of it
  a hypothesis by name: the generated protobuf coder (\<open>prost_ok\<close>, \<open>prost_compact\<close>), AES-GCM
  (\<open>aead_ok\<close>), X25519 (\<open>x25519_ok\<close>), HKDF (\<open>hkdf_ok\<close>), Ed25519 (\<open>ed25519_ok\<close>), hexadecimal text
  (\<open>hex_ok\<close>), zlib and zstd (\<open>zlib_ok\<close>, \<open>zstd_ok\<close>), the file system (\<open>std_fs_ok\<close>, \<open>os_canonical\<close>, and \<open>plain_fs\<close>
  for the contents of files, which excludes links, missing permissions and a full disk),
  the layout solver of the terminal library (\<open>layout_ok\<close>: it splits what the margin leaves of an area), the switches of the terminal (\<open>terminal_ok\<close>),
  the calendar, the JSON encoder, the network dial and the random source.  That a signature
  cannot be forged is a hypothesis of \<open>pinned_server_took_part\<close> only, about the one signature and the one transcript that
  the client has checked in the run at hand.

  \<^bold>\<open>Loops.\<close>  Loops over data are recursive functions.  A loop whose end depends on the peer, a file
  or a backend (streaming an object, an upload, a chunked read) is a partial function with
  result \<open>None\<close> when it does not end; the theorems about it state that it ends.  The loop of a
  connection takes its events (a message, the idle timer, the cancellation) as a list, and the
  terminal client what its terminal answers in each round; the statements hold for every such list.  No fuel is used.

  \<^bold>\<open>Theorems.\<close>  The sections below state, in the order of importance: a write, a read and an upload
  from the command line through the handshake and the encrypted connection to the server's disk
  and back, and that this connection refines a queue; delivery, authenticity and agreement of the
  secure channel; both storages against their specification and each other; transfers as a connection runs them, alone and
  among others;
  confinement and refusals; frames, identity and encodings; the server's limits and shutdown;
  the client's parsing, texts, exit status, state and screens; and the places where the code fails.

  \<^bold>\<open>Not modelled.\<close>  The parsing of program arguments (clap), of which the defaults are given, and
  logging; how the terminal library turns widgets into characters; crate roots, the build script
  and the generated code; the benchmarks; the tests.
  Time is seen only as events (a timer that expires) and as stamps on messages.  Arithmetic is that
  of a release build, where sums and differences wrap around.
\<close>

section \<open>A session of client and server\<close>

text \<open>C1: End to end, from the connection to the disk: a client that pins the server's identity connects,
  the server accepts it, and over the encrypted connection between the two the line
  \<open>write p w1 w2 ...\<close> succeeds whenever \<open>p\<close> leads to a place below the server's base directory
  that is not a directory; the file there then holds exactly the words joined by blanks, the
  directories are as before, and the line \<open>read p\<close> shows the words (up to the preview limit).\<close>

theorem encrypted_write_read:
  assumes keys: "trusted_keys I P k" "trusted_wire P Q" and streams: "connected_streams I P k cw sw"
    and m: "mg_server_info m = Some i" "mg_server_identity m = Some (public_key I k)" "dial (to_socket_addr i) = Inr cw"
    and disk: "disk_ready OS ok view nm t bs f" "disk_place (view f) bs (resolve_path p ''/'') = Some ns" "list_all nm ns"
      "view f (bs @ ns) \<noteq> Some NamespaceNode"
    and line: "word_ok p" "length p \<le> DEFAULT_TRANSFER_CHUNK_SIZE" "ws \<noteq> []" "list_all word_ok ws" "vec_ok (bytes_of (join_words ws))"
  shows "\<exists>l cn w1 w2 r. connect I P dial m = (Ok (), m\<lparr>mg_channel := Some l\<rparr>) \<and>
    accept_authenticated I P cid f config k False sw = Ok cn \<and>
    send_command dbg chrono (wired_channel Q (tokio_backend OS t)) L (join_words (''write'' # p # ws)) (plugged m (wire_up l cn)) =
      Some (Ok r, plugged m w1) \<and> fr_success r \<and>
    view (cn_storage (wr_server w1)) (bs @ ns) = Some (ObjectNode (bytes_of (join_words ws))) \<and>
    {ms. view (cn_storage (wr_server w1)) ms = Some NamespaceNode} = {ms. view f ms = Some NamespaceNode} \<and>
    send_command dbg chrono (wired_channel Q (tokio_backend OS t)) L (join_words [''read'', p]) (plugged m w1) =
      Some (Ok (format_object_content (take READ_PREVIEW_LIMIT (bytes_of (join_words ws)))
              (len_u64 (bytes_of (join_words ws))) (READ_PREVIEW_LIMIT < length (join_words ws))),
            plugged m w2)"
proof -
  let ?B = "tokio_backend OS t" and ?show = "format_object_content (take READ_PREVIEW_LIMIT (bytes_of (join_words ws)))
    (len_u64 (bytes_of (join_words ws))) (READ_PREVIEW_LIMIT < length (join_words ws))"
  obtain l cn where start: "connect I P dial m = (Ok (), m\<lparr>mg_channel := Some l\<rparr>)"
    "accept_authenticated I P cid f config k False sw = Ok cn" "wired_as P Q (wire_up l cn) (with_channel [] cn)"
    and cn: "cn_storage cn = f" "cn_current_dir cn = ''/''" "cn_active_write cn = None"
    using connected [OF keys streams m(1,2), of dial cid f config, OF m(3)] by blast
  have "utf8_valid p" using line(1) by (simp add: word_ok_def)
  note small = path_command_small [OF this line(2)]
  let ?cq = "with_channel [] cn"
  obtain f' r where q: "send_command dbg chrono (bounded_session command_small reply_small ?B) L (join_words (''write'' # p # ws))
      (over connection_manager_new ?cq) = Some (Ok r, over connection_manager_new (?cq\<lparr>cn_storage := f'\<rparr>))"
    "fr_success r" "view f' (bs @ ns) = Some (ObjectNode (bytes_of (join_words ws)))"
    "{ms. view f' ms = Some NamespaceNode} = {ms. view f ms = Some NamespaceNode}"
    "send_command dbg chrono (bounded_session command_small reply_small ?B) L (join_words [''read'', p])
      (over connection_manager_new (?cq\<lparr>cn_storage := f'\<rparr>)) = Some (Ok ?show, over connection_manager_new (?cq\<lparr>cn_storage := f'\<rparr>))"
    using small_carrier.disk_line_ok [of OS ok view nm t bs ?cq p ws ns dbg chrono L connection_manager_new] disk line small cn by auto
  obtain cq1 w1 where w1: "over connection_manager_new (?cq\<lparr>cn_storage := f'\<rparr>) = over connection_manager_new cq1"
    "send_command dbg chrono (wired_channel Q ?B) L (join_words (''write'' # p # ws)) (plugged m (wire_up l cn)) = Some (Ok r, plugged m w1)"
    "wired_as P Q w1 cq1"
    using refines_optD [OF wired_refinement.command_refines start(3) q(1), of "plugged m (wire_up l cn)"]
    unfolding over_plugged by metis
  then have cq1: "cq1 = ?cq\<lparr>cn_storage := f'\<rparr>" by (simp add: over_def connection_manager_new_def)
  obtain w2 where "send_command dbg chrono (wired_channel Q ?B) L (join_words [''read'', p]) (plugged m w1) = Some (Ok ?show, plugged m w2)"
    using refines_optD [OF wired_refinement.command_refines w1(3) q(5) [folded cq1], of "plugged m w1"]
    unfolding over_plugged by metis
  with start(1,2) w1(2) q(2-4) wired_storage [OF w1(3)] cq1 show ?thesis
    by (intro exI [of _ l] exI [of _ cn] exI [of _ w1] exI [of _ w2] exI [of _ r]) simp
qed

theorem encrypted_write_read_witness:
  "\<exists>l cn w1 w2 r. connect plain_identity plain_primitives (\<lambda>_. Inr sample_client_wire) sample_manager =
      (Ok (), sample_manager\<lparr>mg_channel := Some l\<rparr>) \<and>
    accept_authenticated plain_identity plain_primitives 1 sample_disk server_config_default sample_key False sample_server_wire = Ok cn \<and>
    send_command (\<lambda>_. []) (\<lambda>_. None) (wired_channel plain_prost (tokio_backend tree_os sample_tokio)) missing_files
      ''write a hello world'' (plugged sample_manager (wire_up l cn)) = Some (Ok r, plugged sample_manager w1) \<and> fr_success r \<and>
    look (cn_storage (wr_server w1)) [''srv'', ''a''] = Some (ObjectNode (bytes_of ''hello world'')) \<and>
    send_command (\<lambda>_. []) (\<lambda>_. None) (wired_channel plain_prost (tokio_backend tree_os sample_tokio)) missing_files
      ''read a'' (plugged sample_manager w1) =
      Some (Ok (format_object_content (bytes_of ''hello world'') 11 False), plugged sample_manager w2)"
proof -
  have "join_words [''write'', ''a'', ''hello'', ''world''] = ''write a hello world''"
    "join_words [''hello'', ''world''] = ''hello world''" "join_words [''read'', ''a''] = ''read a''"
    "disk_place (look sample_disk) [''srv''] (resolve_path ''a'' ''/'') = Some [''a'']" "list_all tree_name [''a'']"
    "word_ok ''a''" "list_all word_ok [''hello'', ''world'']"
    by code_simp+
  then show ?thesis
    using encrypted_write_read [OF sample_trusted sample_connected sample_manager_simps, of "\<lambda>_. Inr sample_client_wire"
        tree_os tree_state_ok look tree_name sample_tokio "[''srv'']" sample_disk "''a''" "[''a'']" "[''hello'', ''world'']"
        1 server_config_default "\<lambda>_. []" "\<lambda>_. None" missing_files] sample_disk_ready
    by (simp add: vec_ok_def look_sample_disk DEFAULT_TRANSFER_CHUNK_SIZE_def READ_PREVIEW_LIMIT_def len_u64_def) blast
qed

text \<open>C2: End to end, from a local file to the server's disk: after the client has connected to the server
  it pins and the server has accepted it, uploading a local file over the encrypted connection to
  a place below the base directory that is not a directory ends with the completion reply, and the
  file on the server is the local file, whatever the sizes in which the local file is read.\<close>

theorem encrypted_upload:
  assumes keys: "trusted_keys I P k" "trusted_wire P Q" and streams: "connected_streams I P k cw sw"
    and m: "mg_server_info m = Some i" "mg_server_identity m = Some (public_key I k)" "dial (to_socket_addr i) = Inr cw"
    and disk: "disk_ready OS ok view nm t bs f" "disk_place (view f) bs (resolve_path dst ''/'') = Some ns" "list_all nm ns"
      "view f (bs @ ns) \<noteq> Some NamespaceNode"
    and local: "local_file L src d" "vec_ok d" "lf_open L src = Inr ()"
    and dst: "utf8_valid dst" "length dst \<le> DEFAULT_TRANSFER_CHUNK_SIZE"
  shows "\<exists>l cn w1. connect I P dial m = (Ok (), m\<lparr>mg_channel := Some l\<rparr>) \<and>
    accept_authenticated I P cid f config k False sw = Ok cn \<and>
    send_upload dbg (wired_channel Q (tokio_backend OS t)) L src dst (len_u64 d) (plugged m (wire_up l cn)) =
      Some (Ok (transfer_complete (len_u64 d)), plugged m w1) \<and>
    view (cn_storage (wr_server w1)) (bs @ ns) = Some (ObjectNode d)"
proof -
  let ?B = "tokio_backend OS t"
  obtain l cn where start: "connect I P dial m = (Ok (), m\<lparr>mg_channel := Some l\<rparr>)"
    "accept_authenticated I P cid f config k False sw = Ok cn" "wired_as P Q (wire_up l cn) (with_channel [] cn)"
    and cn: "cn_storage cn = f" "cn_current_dir cn = ''/''" "cn_active_write cn = None"
    using connected [OF keys streams m(1,2), of dial cid f config, OF m(3)] by blast
  let ?cq = "with_channel [] cn"
  obtain f' where q: "send_upload dbg (bounded_session command_small reply_small ?B) L src dst (len_u64 d)
      (over connection_manager_new ?cq) = Some (Ok (transfer_complete (len_u64 d)), over connection_manager_new (?cq\<lparr>cn_storage := f'\<rparr>))"
    "view f' (bs @ ns) = Some (ObjectNode d)"
    using small_carrier.disk_upload_ok [OF local, of OS ok view nm t bs ?cq dst ns dbg connection_manager_new] disk dst cn
      path_command_small(1) [OF dst] by auto
  obtain cq1 w1 where w1: "over connection_manager_new (?cq\<lparr>cn_storage := f'\<rparr>) = over connection_manager_new cq1"
    "send_upload dbg (wired_channel Q ?B) L src dst (len_u64 d) (plugged m (wire_up l cn)) =
      Some (Ok (transfer_complete (len_u64 d)), plugged m w1)" "wired_as P Q w1 cq1"
    using refines_optD [OF wired_refinement.upload_refines start(3) q(1), of "plugged m (wire_up l cn)"]
    unfolding over_plugged by metis
  then have "cq1 = ?cq\<lparr>cn_storage := f'\<rparr>" by (simp add: over_def connection_manager_new_def)
  with start(1,2) w1(2) q(2) wired_storage [OF w1(3)] show ?thesis
    by (intro exI [of _ l] exI [of _ cn] exI [of _ w1]) simp
qed

theorem encrypted_upload_witness:
  "\<exists>l cn w1. connect plain_identity plain_primitives (\<lambda>_. Inr sample_client_wire) sample_manager =
      (Ok (), sample_manager\<lparr>mg_channel := Some l\<rparr>) \<and>
    accept_authenticated plain_identity plain_primitives 1 sample_disk server_config_default sample_key False sample_server_wire = Ok cn \<and>
    send_upload (\<lambda>_. []) (wired_channel plain_prost (tokio_backend tree_os sample_tokio)) (sample_files [7, 8, 9]) ''local'' ''b'' 3
      (plugged sample_manager (wire_up l cn)) = Some (Ok (transfer_complete 3), plugged sample_manager w1) \<and>
    look (cn_storage (wr_server w1)) [''srv'', ''b''] = Some (ObjectNode [7, 8, 9])"
proof -
  have "disk_place (look sample_disk) [''srv''] (resolve_path ''b'' ''/'') = Some [''b'']" "list_all tree_name [''b'']"
    "utf8_valid ''b''" by code_simp+
  then show ?thesis
    using encrypted_upload [OF sample_trusted sample_connected sample_manager_simps, of "\<lambda>_. Inr sample_client_wire"
        tree_os tree_state_ok look tree_name sample_tokio "[''srv'']" sample_disk "''b''" "[''b'']" "sample_files [7, 8, 9]" "''local''" "[7, 8, 9]"
        1 server_config_default "\<lambda>_. []"] sample_disk_ready sample_file [of "[7, 8, 9]" "''local''"]
    by (simp add: vec_ok_def sample_files_def len_u64_def look_sample_disk DEFAULT_TRANSFER_CHUNK_SIZE_def)
qed

text \<open>C3: The encrypted connection refines an ideal queue: whatever command line the user enters, if it
  succeeds when commands and replies that fit a frame pass through a queue between the client's
  manager and the server's handlers, it succeeds with the same answer when they are encoded,
  encrypted and framed, the bytes are carried to the other end, and the server's loop receives
  and answers them; afterwards the server's storage, directory and transfer and the replies still
  under way are again those of the queue.\<close>

theorem wire_refines_queue:
  assumes "wired_as P Q w cq"
    and "send_command dbg chrono (bounded_session command_small reply_small B) L line (over ma cq) = Some (Ok r, ma')"
  shows "\<exists>cq' w'. ma' = over ma cq' \<and>
    send_command dbg chrono (wired_channel Q B) L line (over mc w) = Some (Ok r, over mc w') \<and> wired_as P Q w' cq'"
  using refines_optD [OF wired_refinement.command_refines assms] by metis

theorem wire_refines_queue_witness:
  "\<exists>l cn w'. connect plain_identity plain_primitives (\<lambda>_. Inr sample_client_wire) sample_manager =
      (Ok (), sample_manager\<lparr>mg_channel := Some l\<rparr>) \<and>
    accept_authenticated plain_identity plain_primitives 1 memory_storage_new server_config_default sample_key False sample_server_wire = Ok cn \<and>
    send_command (\<lambda>_. []) (\<lambda>_. None) (wired_channel plain_prost memory_backend) missing_files ''mkdir d'' (plugged sample_manager (wire_up l cn)) =
      Some (Ok (plain_response True ''Directory created: /d''), plugged sample_manager w') \<and>
    ms_namespaces (cn_storage (wr_server w')) = [''/d'', ''/'']"
proof -
  obtain l cn where start: "connect plain_identity plain_primitives (\<lambda>_. Inr sample_client_wire) sample_manager =
      (Ok (), sample_manager\<lparr>mg_channel := Some l\<rparr>)"
    "accept_authenticated plain_identity plain_primitives 1 memory_storage_new server_config_default sample_key False sample_server_wire = Ok cn"
    "wired_as plain_primitives plain_prost (wire_up l cn) (with_channel [] cn)"
    and cn: "cn_storage cn = memory_storage_new" "cn_current_dir cn = ''/''" "cn_active_write cn = None"
    using connected [OF sample_trusted sample_connected sample_manager_simps, of "\<lambda>_. Inr sample_client_wire" 1 memory_storage_new
        server_config_default] by blast
  let ?s = "memory_storage_new\<lparr>ms_namespaces := [''/d'', ''/'']\<rparr>" and ?cq = "with_channel [] cn"
  have run: "build_request (lf_stat missing_files) ''mkdir d'' = Ok (Single (CreateNamespace ''d''))"
    "process_command memory_backend (CreateNamespace ''d'') (memory_storage_new, ''/'') = (Ok (Success ''Directory created: /d''), (?s, ''/''))"
    "utf8_lossy ''d'' = ''d''" "utf8_lossy ''Directory created: /d'' = ''Directory created: /d''"
    "utf8_valid ''Directory created: /d''"
    by code_simp+
  moreover from this have "reply_small (Success ''Directory created: /d'')"
    by (intro text_reply_small) (simp_all add: DEFAULT_TRANSFER_CHUNK_SIZE_def)
  moreover have "command_small (CreateNamespace ''d'')"
    using run(3) by (simp add: command_small_def is_terminate_def request_size_def mk_request_def request_with_details_def
        to_string_lossy_def key_sizes DEFAULT_MAX_FRAME_SIZE_def)
  ultimately have "send_command (\<lambda>_. []) (\<lambda>_. None) (bounded_session command_small reply_small memory_backend) missing_files ''mkdir d''
      (over connection_manager_new ?cq) =
      Some (Ok (plain_response True ''Directory created: /d''), over connection_manager_new (?cq\<lparr>cn_storage := ?s, cn_current_dir := ''/''\<rparr>))"
    using cn by (simp add: send_command_def send_request_receive_response_def on_channel_over exchange_def state_bind_def
        bounded_send_def conn_process_def conn_send_def session_recv_def format_success_def)
  from wire_refines_queue [OF start(3) this, of "plugged sample_manager (wire_up l cn)"] obtain cq' w' where w':
    "over connection_manager_new (?cq\<lparr>cn_storage := ?s, cn_current_dir := ''/''\<rparr>) = over connection_manager_new cq'"
    "send_command (\<lambda>_. []) (\<lambda>_. None) (wired_channel plain_prost memory_backend) missing_files ''mkdir d'' (plugged sample_manager (wire_up l cn)) =
      Some (Ok (plain_response True ''Directory created: /d''), plugged sample_manager w')"
    "wired_as plain_primitives plain_prost w' cq'"
    unfolding over_plugged by blast
  then have "cn_storage (wr_server w') = ?s" using wired_storage [OF w'(3)] by (auto simp: over_def connection_manager_new_def)
  with start(1,2) w'(2) show ?thesis by (intro exI [of _ l] exI [of _ cn] exI [of _ w']) simp
qed

section \<open>The secure channel\<close>

text \<open>C4: Commands that one end of a secure channel sends (encoded, compressed, sealed and framed)
  the other end, with the same key, receives in the same order, and exactly their bytes are
  consumed.\<close>

theorem commands_delivered_in_order:
  assumes "aead_ok P" "prost_ok Q" "sc_crypto tx = cfg_crypto (Config P)" "sc_compressor tx = cfg_compression (Config P)"
    and "peers tx rx" "send_msgs (command_codec Q) cmds (tx, r) = (Ok (), (tx', r'))"
    and "ts_out (sc_stream tx') = ts_out (sc_stream tx) @ fresh" "ts_in (sc_stream rx) = fresh @ rest"
  shows "recv_msgs (command_codec Q) (length cmds) rx =
    (Ok (map command_on_wire cmds), rx\<lparr>sc_stream := (sc_stream rx)\<lparr>ts_in := rest\<rparr>\<rparr>)"
  using assms by (intro command_link.send_recv_all) auto

theorem commands_delivered_in_order_witness:
  "\<exists>x. recv_msgs (command_codec plain_prost) 2 (sample_channel x) =
     (Ok [Ping, ReadObject ''a''], sample_channel [])"
proof -
  have "\<exists>bs. cd_encode (command_codec plain_prost) m = Ok bs \<and> length bs \<le> 1000" if "m \<in> {Ping, ReadObject ''a''}" for m
    using that by (auto simp: plain_encode_lengths utf8_lossy_a to_string_lossy_def)
  then obtain s' r' where run: "send_msgs (command_codec plain_prost) [Ping, ReadObject ''a''] (sample_channel [], sample_rng 0) =
      (Ok (), (sample_channel []\<lparr>sc_stream := s'\<rparr>, r'))"
    using sample_send_all [of "sample_stream []" "[Ping, ReadObject ''a'']" "command_codec plain_prost" "[]" "sample_rng 0"] by auto
  show ?thesis
    using commands_delivered_in_order [OF plain_aead_ok plain_prost_ok _ _ _ run, of "sample_channel (ts_out s')"]
    by (intro exI [of _ "ts_out s'"]) (simp add: numeral_2_eq_2 sample_channel_input utf8_lossy_a)
qed

text \<open>C5: Suppose the client's authenticated handshake succeeds against whatever is at the other end, and
  that the signature it checked was not forged: if it verifies under the pinned key for the transcript
  the client checked, then the server signed that transcript in one of its runs.  Then one of these runs
  received the client's own key in its first frame, and if it completed it has the client's session key:
  there is no one in the middle.\<close>

theorem pinned_server_took_part:
  assumes "x25519_ok P" "ed25519_ok I" "length (signing_key k) = SERVER_IDENTITY_KEY_SIZE"
    and "client_handshake_authenticated I (Config P) (public_key I k) (cs, r) = (Ok ch, (cs', r'))"
    and "\<And>t sig. client_checked I k DEFAULT_KDF_CONTEXT cs cs' t sig \<Longrightarrow>
        ed25519_verify I (ed25519_public I (signing_key k)) t sig \<Longrightarrow>
        \<exists>(w, c) \<in> runs. vec_ok c \<and> server_signs I (Config P) k c w t"
  shows "\<exists>w. (w, DEFAULT_KDF_CONTEXT) \<in> runs \<and>
    (\<exists>A rest. ts_out cs' = ts_out cs @ framed A \<and> ts_in (fst w) = framed A @ rest) \<and>
    (\<forall>chs w'. server_handshake_authenticated I (Config P) k w = (Ok chs, w') \<longrightarrow> sc_key chs = sc_key ch)"
  unfolding server_handshake_authenticated_def
  using assms by (intro authenticated_agreement) (auto simp: client_handshake_authenticated_def vec_ok_def DEFAULT_KDF_CONTEXT_def)

theorem pinned_server_took_part_witness:
  "\<exists>ch cs' r' chs w'. client_handshake_authenticated plain_identity (Config plain_primitives) (public_key plain_identity sample_key)
       sample_client_wire = (Ok ch, (cs', r')) \<and>
     server_handshake_authenticated plain_identity (Config plain_primitives) sample_key sample_server_wire = (Ok chs, w') \<and>
     sc_key chs = sc_key ch"
proof -
  let ?cs' = "fst sample_client_wire\<lparr>ts_out := framed (sample_public 1), ts_in := []\<rparr>"
  obtain key rc ws where run: "client_handshake_authenticated plain_identity (Config plain_primitives)
      (public_key plain_identity sample_key) (fst sample_client_wire, snd sample_client_wire) =
      (Ok (channel_on (Config plain_primitives) ?cs' key), (?cs', rc))"
    and server: "server_handshake_authenticated plain_identity (Config plain_primitives) sample_key sample_server_wire =
      (Ok (channel_on (Config plain_primitives) (fst ws) key), ws)"
    by (rule sample_handshake) (simp add: Let_def)
  have "\<exists>w. (w, DEFAULT_KDF_CONTEXT) \<in> {(sample_server_wire, DEFAULT_KDF_CONTEXT)} \<and>
    (\<exists>A rest. ts_out ?cs' = ts_out (fst sample_client_wire) @ framed A \<and> ts_in (fst w) = framed A @ rest) \<and>
    (\<forall>chs w'. server_handshake_authenticated plain_identity (Config plain_primitives) sample_key w = (Ok chs, w') \<longrightarrow>
       sc_key chs = sc_key (channel_on (Config plain_primitives) ?cs' key))"
  proof (rule pinned_server_took_part [OF plain_x25519_ok plain_ed25519_ok _ run])
    show "length (signing_key sample_key) = SERVER_IDENTITY_KEY_SIZE"
      by (simp add: sample_key_def SERVER_IDENTITY_KEY_SIZE_def)
    show "\<exists>(w, c) \<in> {(sample_server_wire, DEFAULT_KDF_CONTEXT)}. vec_ok c \<and>
        server_signs plain_identity (Config plain_primitives) sample_key c w t"
      if "client_checked plain_identity sample_key DEFAULT_KDF_CONTEXT (fst sample_client_wire) ?cs' t sig" for t sig
      using sample_client_checked [OF that] sample_server_signs by (simp add: vec_ok_def DEFAULT_KDF_CONTEXT_def)
  qed
  then have "sc_key (channel_on (Config plain_primitives) (fst ws) key) = sc_key (channel_on (Config plain_primitives) ?cs' key)"
    using server by auto
  with run server show ?thesis by auto
qed

text \<open>C6: When client and server run the authenticated handshake against each other and the client
  pins the server's identity, both succeed with the same 32-byte key, each having consumed and
  produced exactly the handshake's frames.\<close>

theorem handshake_agrees:
  assumes "x25519_ok P" "hkdf_ok P" "ed25519_ok I" "length (signing_key k) = SERVER_IDENTITY_KEY_SIZE"
    and "x25519_generate_keypair P rc = ((a, A), rc')" "x25519_generate_keypair P rs = ((b, B), rs')"
    and "ts_room cs = None" "ts_room ss = None"
    and "sig = sign_transcript I k (server_identity_transcript A B (public_key I k) DEFAULT_KDF_CONTEXT)"
    and "ts_in ss = framed A @ r1" "ts_in cs = framed B @ framed (identity_bytes (public_key I k)) @ framed sig @ r2"
  shows "\<exists>key. length key = KEY_SIZE \<and>
    server_handshake_authenticated I (Config P) k (ss, rs) =
      (let s = ss\<lparr>ts_in := r1, ts_out := ts_out ss @ framed B @ framed (identity_bytes (public_key I k)) @ framed sig\<rparr>
       in (Ok (channel_on (Config P) s key), (s, rs'))) \<and>
    client_handshake_authenticated I (Config P) (public_key I k) (cs, rc) =
      (let s = cs\<lparr>ts_out := ts_out cs @ framed A, ts_in := r2\<rparr> in (Ok (channel_on (Config P) s key), (s, rc')))"
  using default_handshake.handshake_agree_authenticated [of P rc a A rc' rs b B rs' cs ss I k "public_key I k" sig
      DEFAULT_KDF_CONTEXT r1 r2] assms
  by (simp add: server_handshake_authenticated_def client_handshake_authenticated_def)

theorem handshake_agrees_witness:
  "\<exists>key i1 i2 s1 r1 s2 r2. length key = KEY_SIZE \<and>
     server_handshake_authenticated plain_identity (Config plain_primitives) sample_key (sample_stream i1, sample_rng 2) =
       (Ok (channel_on (Config plain_primitives) s1 key), (s1, r1)) \<and>
     client_handshake_authenticated plain_identity (Config plain_primitives) (public_key plain_identity sample_key)
         (sample_stream i2, sample_rng 1) =
       (Ok (channel_on (Config plain_primitives) s2 key), (s2, r2))"
proof -
  let ?i = "public_key plain_identity sample_key"
  let ?sig = "sign_transcript plain_identity sample_key sample_transcript"
  obtain a rc where c: "x25519_generate_keypair plain_primitives (sample_rng 1) = ((a, sample_public 1), rc)"
    using sample_keypair by blast
  obtain b rs where s: "x25519_generate_keypair plain_primitives (sample_rng 2) = ((b, sample_public 2), rs)"
    using sample_keypair by blast
  have len: "length (signing_key sample_key) = SERVER_IDENTITY_KEY_SIZE"
    by (simp add: sample_key_def SERVER_IDENTITY_KEY_SIZE_def)
  show ?thesis
    using handshake_agrees [OF plain_x25519_ok plain_hkdf_ok plain_ed25519_ok len c s,
        of "sample_stream (framed (sample_public 2) @ framed (identity_bytes ?i) @ framed ?sig)"
          "sample_stream (framed (sample_public 1))" ?sig "[]" "[]"]
    by (auto simp: sample_transcript_def Let_def)
qed

text \<open>C7: A message, of whatever kind (the server receives commands, the client outputs), is accepted
  only from one whole frame that consists of an initialisation vector and an AES-GCM ciphertext under the
  channel's key, and it is the decoding of the decompressed plaintext of that ciphertext: nothing that
  was not encrypted with the key is ever delivered.\<close>

theorem received_message_is_authentic:
  assumes "aead_ok P" "sc_crypto rx = cfg_crypto (Config P)" "recv_msg K rx = (Ok m, rx')"
  shows "\<exists>iv ct z buf. ts_in (sc_stream rx) = framed (iv @ ct) @ ts_in (sc_stream rx') \<and> length iv = IV_SIZE \<and>
    aes_gcm_encrypt P z (sc_key rx) iv = Ok ct \<and> decompress (sc_compressor rx) z = Ok buf \<and> cd_decode K buf = Ok m"
  using recv_msg_authentic [of P rx K m rx'] assms by simp

theorem received_message_is_authentic_witness:
  "\<exists>x iv ct z. recv_msg (command_codec plain_prost) (sample_channel x) = (Ok (ReadObject ''a''), sample_channel []) \<and>
     x = framed (iv @ ct) \<and> length iv = IV_SIZE \<and> aes_gcm_encrypt plain_primitives z (replicate 32 1) iv = Ok ct \<and>
     command_decode plain_prost z = Ok (ReadObject ''a'')"
proof -
  have "cd_encode (command_codec plain_prost) (ReadObject ''a'') = Ok (put_request (request_from_command (ReadObject ''a'')))"
    "length (put_request (request_from_command (ReadObject ''a''))) \<le> 1000"
    by (simp_all add: plain_encode_lengths utf8_lossy_a to_string_lossy_def)
  from sample_send [of "sample_stream []", OF _ this, of "[]" "sample_rng 0"]
  obtain r' packet where run: "send_msg (command_codec plain_prost) (ReadObject ''a'') (sample_channel [], sample_rng 0) =
      (Ok (), (sample_channel []\<lparr>sc_stream := sample_stream []\<lparr>ts_out := framed packet\<rparr>\<rparr>, r'))"
    by auto
  have recv: "recv_msg (command_codec plain_prost) (sample_channel (framed packet)) = (Ok (ReadObject ''a''), sample_channel [])"
    using command_link.send_recv [OF plain_aead_ok _ plain_prost_ok _ _ _ _ run, of "sample_channel (framed packet)" "framed packet" "[]"]
    by (simp add: sample_channel_input utf8_lossy_a)
  obtain iv ct z where "framed packet = framed (iv @ ct)" "length iv = IV_SIZE"
    "aes_gcm_encrypt plain_primitives z (replicate 32 1) iv = Ok ct" "command_decode plain_prost z = Ok (ReadObject ''a'')"
    using received_message_is_authentic [OF plain_aead_ok _ recv] by (auto simp: sample_channel_key NullCompressor_def decompress_def)
  with recv show ?thesis by blast
qed

section \<open>The storage\<close>

text \<open>C8: Any sequence of puts, appends, deletes, directory creations and removals, reads,
  metadata queries and listings on an empty memory storage is answered call by call as the
  abstract tree answers it (contents, kinds, sizes, and the names of a listing); afterwards the invariant holds and the objects and namespaces are
  those of the tree.\<close>

theorem memory_run_refines:
  "\<exists>s'. run_calls (backend_call memory_backend) calls memory_storage_new = (fst (run_calls spec_call calls root_tree), s') \<and>
    ms_inv s' \<and> tree_of s' = snd (run_calls spec_call calls root_tree)"
  using memory_tree.run_refines [OF ms_inv_new, of calls] by (simp add: tree_of_new list_all_iff)

text \<open>C9: Over a plain file system, each mutating operation of the file-system backend does to the
  tree below the base directory what the abstract operation does at the place the path leads to,
  through the existing directories and with \<open>..\<close> taken literally: it succeeds exactly when the
  abstract operation is defined there, and otherwise fails with nothing changed.  It fails in the same
  way when the path leads nowhere, out of the base directory, or to a name the file system does not accept.
  The one exception is the removal of the base directory itself, which the backend does not treat
  specially: it does what the abstract removal does at the base directory's place in the whole file system.\<close>

theorem disk_refines_tree:
  assumes "disk_ready OS ok view nm t bs f"
  shows "(\<forall>ns. disk_place (view f) bs p = Some ns \<longrightarrow> list_all nm ns \<longrightarrow>
      implements (disk_inv OS ok view nm t bs (view f)) (\<lambda>f. below bs (view f)) (put_object (tokio_backend OS t) p d)
        (spec_put (below bs (view f)) ns d) f \<and>
      implements (disk_inv OS ok view nm t bs (view f)) (\<lambda>f. below bs (view f)) (append_object (tokio_backend OS t) p d)
        (spec_append (below bs (view f)) ns d) f \<and>
      implements (disk_inv OS ok view nm t bs (view f)) (\<lambda>f. below bs (view f)) (delete_object (tokio_backend OS t) p)
        (spec_delete (below bs (view f)) ns) f \<and>
      implements (disk_inv OS ok view nm t bs (view f)) (\<lambda>f. below bs (view f)) (create_namespace (tokio_backend OS t) p)
        (spec_mkdir (below bs (view f)) ns) f \<and>
      (if ns = [] then implements ok view (delete_namespace (tokio_backend OS t) p) (spec_rmdir (view f) bs) f
       else implements (disk_inv OS ok view nm t bs (view f)) (\<lambda>f. below bs (view f)) (delete_namespace (tokio_backend OS t) p)
        (spec_rmdir (below bs (view f)) ns) f)) \<and>
    (disk_place (view f) bs p = None \<or> (\<exists>ns. disk_place (view f) bs p = Some ns \<and> \<not> list_all nm ns) \<longrightarrow>
      (\<forall>op \<in> {put_object (tokio_backend OS t) p d, append_object (tokio_backend OS t) p d, delete_object (tokio_backend OS t) p,
         create_namespace (tokio_backend OS t) p, delete_namespace (tokio_backend OS t) p}.
        \<exists>e. op f = (Err (FileOperationError e), f)))"
proof (intro conjI allI impI)
  have inv: "disk_inv OS ok view nm t bs (view f) f" using assms by (simp add: disk_inv_def)
  note imp = disk_implements [OF inv]
  fix ns
  assume ns: "disk_place (view f) bs p = Some ns" "list_all nm ns"
  show "implements (disk_inv OS ok view nm t bs (view f)) (\<lambda>f. below bs (view f)) (put_object (tokio_backend OS t) p d)
        (spec_put (below bs (view f)) ns d) f" by (rule imp(1) [OF ns])
  show "implements (disk_inv OS ok view nm t bs (view f)) (\<lambda>f. below bs (view f)) (append_object (tokio_backend OS t) p d)
        (spec_append (below bs (view f)) ns d) f" by (rule imp(2) [OF ns])
  show "implements (disk_inv OS ok view nm t bs (view f)) (\<lambda>f. below bs (view f)) (delete_object (tokio_backend OS t) p)
        (spec_delete (below bs (view f)) ns) f" by (rule imp(3) [OF ns])
  show "implements (disk_inv OS ok view nm t bs (view f)) (\<lambda>f. below bs (view f)) (create_namespace (tokio_backend OS t) p)
        (spec_mkdir (below bs (view f)) ns) f" by (rule imp(4) [OF ns])
  show "if ns = [] then implements ok view (delete_namespace (tokio_backend OS t) p) (spec_rmdir (view f) bs) f
     else implements (disk_inv OS ok view nm t bs (view f)) (\<lambda>f. below bs (view f)) (delete_namespace (tokio_backend OS t) p)
        (spec_rmdir (below bs (view f)) ns) f"
    using imp(5) [OF ns] disk_changes(5) [OF assms, of p] ns(1) by auto
qed (use disk_unnamed [OF assms] in blast)

theorem disk_refines_tree_witness:
  "disk_place (look sample_disk) [''srv''] ''/../srv/a'' = Some [''a''] \<and>
   implements (disk_inv tree_os tree_state_ok look tree_name sample_tokio [''srv''] (look sample_disk)) (\<lambda>f. below [''srv''] (look f))
     (put_object (tokio_backend tree_os sample_tokio) ''/../srv/a'' [7])
     (spec_put (below [''srv''] (look sample_disk)) [''a''] [7]) sample_disk \<and>
   implements tree_state_ok look (delete_namespace (tokio_backend tree_os sample_tokio) ''/'')
     (spec_rmdir (look sample_disk) [''srv'']) sample_disk \<and>
   (\<exists>e. put_object (tokio_backend tree_os sample_tokio) ''/../etc'' [7] sample_disk = (Err (FileOperationError e), sample_disk))"
proof -
  have "disk_place (look sample_disk) [''srv''] ''/../srv/a'' = Some [''a'']" "disk_place (look sample_disk) [''srv''] ''/'' = Some []"
    "disk_place (look sample_disk) [''srv''] ''/../etc'' = None" "list_all tree_name [''a'']"
    by code_simp+
  then show ?thesis
    using disk_refines_tree [OF sample_disk_ready, of "''/../srv/a''" "[7]"] disk_refines_tree [OF sample_disk_ready, of "''/''"]
      disk_refines_tree [OF sample_disk_ready, of "''/../etc''" "[7]"] by simp
qed

text \<open>C10: The two backends behave alike.  Over a plain file system whose base directory is
  empty, the same sequence of puts, appends, deletes, directory creations and removals, reads,
  metadata queries and listings, on canonical paths of UTF-8 names that the file system accepts and
  without removing the root, gets the same answers (contents, kinds, sizes, and the names of a listing)
  from the file-system backend as from a new memory storage; afterwards the tree below the base directory is the memory storage's tree,
  and nothing outside the base directory has changed.\<close>

theorem backends_agree:
  assumes "disk_ready OS ok view nm t bs f" "children (view f) bs = {}" "list_all (disk_call nm) calls"
  shows "\<exists>as f' s'. run_calls (backend_call (tokio_backend OS t)) calls f = (as, f') \<and>
    run_calls (backend_call memory_backend) calls memory_storage_new = (as, s') \<and>
    disk_ready OS ok view nm t bs f' \<and> below bs (view f') = tree_of s' \<and>
    (\<forall>ns. take (length bs) ns \<noteq> bs \<longrightarrow> view f' ns = view f ns)"
proof -
  have "disk_tree_inv OS ok view nm t bs (view f) f"
    using assms(1) empty_base [OF assms(1,2)] by (simp add: disk_tree_inv_def disk_inv_def utf8_tree_def root_tree_def)
  from disk_tree.run_refines [OF this assms(3)] obtain f' where
    "run_calls (backend_call (tokio_backend OS t)) calls f = (fst (run_calls spec_call calls root_tree), f')"
    "disk_tree_inv OS ok view nm t bs (view f) f'" "below bs (view f') = snd (run_calls spec_call calls root_tree)"
    unfolding empty_base [OF assms(1,2)] by blast
  moreover obtain s' where
    "run_calls (backend_call memory_backend) calls memory_storage_new = (fst (run_calls spec_call calls root_tree), s')"
    "tree_of s' = snd (run_calls spec_call calls root_tree)"
    using memory_tree.run_refines [OF ms_inv_new, of calls] by (auto simp: tree_of_new list_all_iff)
  ultimately show ?thesis by (auto simp: disk_tree_inv_def disk_inv_def)
qed

theorem backends_agree_witness:
  "\<exists>as f' s'. run_calls (backend_call (tokio_backend tree_os sample_tokio))
      [MkdirCall ''/d'', PutCall ''/d/a'' [1, 2], AppendCall ''/d/a'' [3], GetCall ''/d/a'', ListCall ''/'', RmdirCall ''/d'']
      sample_disk = (as, f') \<and>
    run_calls (backend_call memory_backend)
      [MkdirCall ''/d'', PutCall ''/d/a'' [1, 2], AppendCall ''/d/a'' [3], GetCall ''/d/a'', ListCall ''/'', RmdirCall ''/d'']
      memory_storage_new = (as, s') \<and> below [''srv''] (look f') = tree_of s'"
proof -
  have "children (look sample_disk) [''srv''] = {}" by (simp add: children_def look_sample_disk)
  moreover have "list_all (disk_call tree_name)
      [MkdirCall ''/d'', PutCall ''/d/a'' [1, 2], AppendCall ''/d/a'' [3], GetCall ''/d/a'', ListCall ''/'', RmdirCall ''/d'']"
    by code_simp
  ultimately show ?thesis using backends_agree [OF sample_disk_ready] by blast
qed

section \<open>A connection of the server\<close>

text \<open>C11: Every command that a connection handles ends, over the memory storage and over a plain file
  system, whatever the channel does with the replies: streaming an object cannot go on forever,
  neither for a file that is read in pieces nor for a directory or a missing object.\<close>

theorem every_command_ends:
  assumes "ms_inv (cn_storage cn)" "\<And>p d. memory_content (cn_storage cn) p = Some d \<Longrightarrow> vec_ok d"
    and "disk_ready OS ok view nm t bs (cn_storage cn')" "\<And>p d. disk_content view bs (cn_storage cn') p = Some d \<Longrightarrow> vec_ok d"
  shows "conn_handle_command V memory_backend c cn \<noteq> None \<and> conn_handle_command V (tokio_backend OS t) c cn' \<noteq> None"
proof
  show "conn_handle_command V memory_backend c cn \<noteq> None"
    using assms(1,2) by (rule memory.command_ends)
  have "disk_files OS ok view nm t bs {ms. view (cn_storage cn') ms = Some NamespaceNode} (cn_storage cn')"
    using assms(3) by (simp add: disk_files_def)
  then show "conn_handle_command V (tokio_backend OS t) c cn' \<noteq> None"
    using assms(4) by (rule disk.command_ends)
qed

theorem every_command_ends_witness:
  "conn_handle_command queue_channel memory_backend (ReadObject ''a'') (sample_connection []) \<noteq> None \<and>
   conn_handle_command queue_channel (tokio_backend tree_os sample_tokio) (ReadObject ''a'') disk_connection \<noteq> None"
proof -
  have "disk_content look [''srv''] sample_disk p = None" for p
    by (cases "disk_place (look sample_disk) [''srv''] p") (auto simp: disk_content_def node_at_def below_def look_sample_disk)
  moreover have "memory_content memory_storage_new p = None" for p
    by (simp add: memory_content_def tree_of_new root_tree_def split: option.split)
  ultimately show ?thesis
    using every_command_ends [of "sample_connection []" tree_os tree_state_ok look tree_name sample_tokio "[''srv'']" disk_connection]
      ms_inv_new sample_disk_ready by (simp del: conn_handle_command.simps)
qed

text \<open>C12: A chunked read of an object over a live secure channel ends, and what the client
  decrypts and decodes of it is a sequence of chunks from offset zero, each within the chunk
  size, exactly the last one marked, whose data together is the object.\<close>

theorem object_streamed_in_full:
  assumes "secure_live P Q n0 (cn_channel cn)" "prost_compact Q" "ms_inv (cn_storage cn)"
    and "memory_content (cn_storage cn) (resolve_path p (cn_current_dir cn)) = Some d" "vec_ok d"
  shows "\<exists>c' cs. send_object_content_chunks (secure_server_channel Q) memory_backend p cn =
      Some (Ok (), cn\<lparr>cn_channel := c'\<rparr>) \<and>
    delivered Q n0 c' = delivered Q n0 (cn_channel cn) @ map ObjectContentChunk cs \<and>
    chunk_seq 0 (len_u64 d) cs \<and> concat (map tc_data cs) = d"
proof -
  have wire: "output_on_wire \<circ> ObjectContentChunk = ObjectContentChunk" by (simp add: fun_eq_iff)
  show ?thesis
    using memory_server.stream_from [of cn p d P Q n0 0] assms chunk_reply_fits [OF assms(2)]
    unfolding wire send_object_content_chunks_def by auto
qed

theorem object_streamed_in_full_witness:
  "\<exists>c' cs. send_object_content_chunks (secure_server_channel plain_prost) memory_backend ''a''
      (sample_connection (sample_channel [], sample_rng 0)\<lparr>cn_storage := sample_memory\<rparr>) =
      Some (Ok (), sample_connection c'\<lparr>cn_storage := sample_memory\<rparr>) \<and>
    delivered plain_prost 0 c' = delivered plain_prost 0 (sample_channel [], sample_rng 0) @ map ObjectContentChunk cs \<and>
    chunk_seq 0 3 cs \<and> concat (map tc_data cs) = [1, 2, 3]"
proof -
  have "resolve_path ''a'' ''/'' = ''/a''" by code_simp
  then show ?thesis
    using object_streamed_in_full [OF _ plain_prost_compact,
        of plain_primitives 0 "sample_connection (sample_channel [], sample_rng 0)\<lparr>cn_storage := sample_memory\<rparr>" "''a''" "[1, 2, 3]"]
      sample_live sample_memory_ok by (simp add: vec_ok_def len_u64_def sample_connection_def)
qed

text \<open>C13: On a connection with an active transfer, chunks that follow each other from the
  expected offset to the announced size are appended to the object in order, the transfer is
  closed, every chunk is answered over the secure channel by a progress reply and the last by
  the completion, and no other object changes.\<close>

theorem chunked_write_stored:
  assumes "secure_live P Q n0 (cn_channel cn)" "prost_compact Q" "ms_inv (cn_storage cn)"
    and "cn_active_write cn = Some t" "memory_content (cn_storage cn) (aw_path t) = Some c"
    and "chunk_seq (aw_expected_offset t) (aw_total_size t) cs"
    and "unat (aw_expected_offset t) + length (concat (map tc_data cs)) = unat (aw_total_size t)"
  shows "\<exists>s' c'. conn_write_chunks (secure_server_channel Q) memory_backend cs cn =
      (Ok (), cn\<lparr>cn_storage := s', cn_active_write := None, cn_channel := c'\<rparr>) \<and> ms_inv s' \<and>
    memory_content s' (aw_path t) = Some (c @ concat (map tc_data cs)) \<and>
    delivered Q n0 c' = delivered Q n0 (cn_channel cn) @ map output_on_wire (write_replies t cs) \<and>
    (\<forall>q. \<not> same_place (aw_path t) q \<longrightarrow> memory_content s' q = memory_content (cn_storage cn) q)"
  using memory_server.write_all_chunks [OF assms(3-6) assms(1) assms(7) progress_reply_fits [OF assms(2)]]
    transfer_complete_fits [OF assms(2), unfolded transfer_complete_def] by blast

theorem chunked_write_stored_witness:
  "\<exists>s' c'. conn_write_chunks (secure_server_channel plain_prost) memory_backend
      [\<lparr>tc_offset = 0, tc_data = [7], tc_is_last = False, tc_total_size = 2\<rparr>,
       \<lparr>tc_offset = 1, tc_data = [8], tc_is_last = True, tc_total_size = 2\<rparr>]
      (sample_connection (sample_channel [], sample_rng 0)
        \<lparr>cn_storage := sample_memory, cn_active_write := Some \<lparr>aw_path = ''/a'', aw_expected_offset = 0, aw_total_size = 2\<rparr>\<rparr>) =
      (Ok (), sample_connection c'\<lparr>cn_storage := s'\<rparr>) \<and>
    memory_content s' ''/a'' = Some [1, 2, 3, 7, 8]"
  using chunked_write_stored [OF _ plain_prost_compact, of plain_primitives 0
      "sample_connection (sample_channel [], sample_rng 0)
        \<lparr>cn_storage := sample_memory, cn_active_write := Some \<lparr>aw_path = ''/a'', aw_expected_offset = 0, aw_total_size = 2\<rparr>\<rparr>"
      "\<lparr>aw_path = ''/a'', aw_expected_offset = 0, aw_total_size = 2\<rparr>" "[1, 2, 3]"
      "[\<lparr>tc_offset = 0, tc_data = [7], tc_is_last = False, tc_total_size = 2\<rparr>,
        \<lparr>tc_offset = 1, tc_data = [8], tc_is_last = True, tc_total_size = 2\<rparr>]"]
    sample_live sample_memory_ok
  by (auto simp: sample_connection_def len_u64_def DEFAULT_TRANSFER_CHUNK_SIZE_def)

section \<open>Connections that share the storage\<close>

text \<open>C14: A chunked transfer is not disturbed by the other connections: when the turns of one
  connection are the chunks of its transfer in order, and the turns of all others, anywhere
  between them, do not write or delete its object, the object ends as the old content and all
  the chunks, the transfer is closed, and exactly its replies were sent to the client.\<close>

theorem transfer_isolated:
  assumes "ms_inv (sy_storage sys)" "sy_conns sys i = Some cn" "sy_reads sys i = None" "cn_active_write cn = Some t"
    and "memory_content (sy_storage sys) (aw_path t) = Some c" "chunk_seq (aw_expected_offset t) (aw_total_size t) cs"
    and "secure_live P Q n0 (cn_channel cn)" "prost_compact Q"
    and "unat (aw_expected_offset t) + length (concat (map tc_data cs)) = unat (aw_total_size t)"
    and "filter (\<lambda>u. turn_of u = i) us = map (\<lambda>ch. Served i (WriteObjectChunk ch)) cs"
    and "run_sized (secure_server_channel Q) memory_backend memory_content us sys"
    and "keep_away (secure_server_channel Q) memory_backend same_place i (aw_path t) us sys"
  shows "\<exists>cn'. sy_conns (fold (system_turn (secure_server_channel Q) memory_backend) us sys) i = Some cn' \<and>
    cn_active_write cn' = None \<and>
    memory_content (sy_storage (fold (system_turn (secure_server_channel Q) memory_backend) us sys)) (aw_path t) =
      Some (c @ concat (map tc_data cs)) \<and>
    delivered Q n0 (cn_channel cn') = delivered Q n0 (cn_channel cn) @ map output_on_wire (write_replies t cs)"
  using memory_shared.transfer_among_others [OF assms(1-7,9-12) progress_reply_fits [OF assms(8)]]
    transfer_complete_fits [OF assms(8), unfolded transfer_complete_def] by blast

theorem transfer_isolated_witness:
  "\<exists>sys us. sy_storage sys = sample_memory \<and> us = [Opened 2 (sample_connection (sample_channel [], sample_rng 3)), Served 2 (DeleteObject ''b''),
      Served 1 (WriteObjectChunk \<lparr>tc_offset = 0, tc_data = [9], tc_is_last = True, tc_total_size = 1\<rparr>)] \<and>
    memory_content (sy_storage (fold (system_turn (secure_server_channel plain_prost) memory_backend) us sys)) ''/a'' = Some [1, 2, 3, 9]"
proof -
  let ?cn = "sample_connection (sample_channel [], sample_rng 0)\<lparr>cn_active_write := Some \<lparr>aw_path = ''/a'', aw_expected_offset = 0, aw_total_size = 1\<rparr>\<rparr>"
  let ?sys = "\<lparr>sy_storage = sample_memory, sy_conns = [1 \<mapsto> ?cn], sy_reads = Map.empty\<rparr>"
  let ?us = "[Opened 2 (sample_connection (sample_channel [], sample_rng 3)), Served 2 (DeleteObject ''b''),
      Served 1 (WriteObjectChunk \<lparr>tc_offset = 0, tc_data = [9], tc_is_last = True, tc_total_size = 1\<rparr>)]"
  have "\<not> same_place (resolve_path ''b'' ''/'') ''/a''" by code_simp
  then have "\<exists>cn'. sy_conns (fold (system_turn (secure_server_channel plain_prost) memory_backend) ?us ?sys) 1 = Some cn' \<and>
    cn_active_write cn' = None \<and>
    memory_content (sy_storage (fold (system_turn (secure_server_channel plain_prost) memory_backend) ?us ?sys)) ''/a'' =
      Some ([1, 2, 3] @ concat (map tc_data [\<lparr>tc_offset = 0, tc_data = [9], tc_is_last = True, tc_total_size = 1\<rparr>])) \<and>
    delivered plain_prost 0 (cn_channel cn') = delivered plain_prost 0 (cn_channel ?cn) @
      map output_on_wire (write_replies \<lparr>aw_path = ''/a'', aw_expected_offset = 0, aw_total_size = 1\<rparr>
        [\<lparr>tc_offset = 0, tc_data = [9], tc_is_last = True, tc_total_size = 1\<rparr>])"
    using transfer_isolated [OF _ _ _ _ _ _ _ plain_prost_compact, of ?sys 1 ?cn "\<lparr>aw_path = ''/a'', aw_expected_offset = 0, aw_total_size = 1\<rparr>"
        "[1, 2, 3]" "[\<lparr>tc_offset = 0, tc_data = [9], tc_is_last = True, tc_total_size = 1\<rparr>]" plain_primitives 0 ?us]
      sample_live sample_memory_ok by (simp add: DEFAULT_TRANSFER_CHUNK_SIZE_def)
  then show ?thesis by (intro exI [of _ ?sys] exI [of _ ?us]) auto
qed

text \<open>C15: A read of an object in chunks is not torn by the other connections: when they keep away from
  the object, the chunks sent are those of the whole object in order, and as many turns as the
  object has bytes, and one more, are enough to finish.\<close>

theorem read_isolated:
  assumes "ms_inv (sy_storage sys)" "sy_conns sys i = Some cn" "sy_reads sys i = Some (p, 0)"
    and "memory_content (sy_storage sys) (resolve_path p (cn_current_dir cn)) = Some d" "vec_ok d"
    and "secure_live P Q n0 (cn_channel cn)" "prost_compact Q"
    and "filter (\<lambda>u. turn_of u = i) us = replicate k (Streamed i)" "length d < k"
    and "run_sized (secure_server_channel Q) memory_backend memory_content us sys"
    and "keep_away (secure_server_channel Q) memory_backend same_place i (resolve_path p (cn_current_dir cn)) us sys"
  shows "\<exists>cn' cs. sy_conns (fold (system_turn (secure_server_channel Q) memory_backend) us sys) i = Some cn' \<and>
    sy_reads (fold (system_turn (secure_server_channel Q) memory_backend) us sys) i = None \<and>
    delivered Q n0 (cn_channel cn') = delivered Q n0 (cn_channel cn) @ map ObjectContentChunk cs \<and>
    chunk_seq 0 (len_u64 d) cs \<and> concat (map tc_data cs) = d"
proof -
  have wire: "output_on_wire \<circ> ObjectContentChunk = ObjectContentChunk" by (simp add: fun_eq_iff)
  show ?thesis
    using memory_shared.read_among_others [OF assms(1-4,6) _ assms(8) _ assms(10,11,5) chunk_reply_fits [OF assms(7)]] assms(9)
    unfolding wire by simp
qed

theorem read_isolated_witness:
  "\<exists>sys us cn' cs. sy_storage sys = sample_memory \<and>
    us = [Streamed 1, Opened 2 (sample_connection (sample_channel [], sample_rng 3)), Streamed 1, Streamed 1, Streamed 1] \<and>
    sy_conns (fold (system_turn (secure_server_channel plain_prost) memory_backend) us sys) 1 = Some cn' \<and>
    delivered plain_prost 0 (cn_channel cn') = delivered plain_prost 0 (sample_channel [], sample_rng 0) @ map ObjectContentChunk cs \<and>
    concat (map tc_data cs) = [1, 2, 3]"
proof -
  let ?cn = "sample_connection (sample_channel [], sample_rng 0)"
  let ?sys = "\<lparr>sy_storage = sample_memory, sy_conns = [1 \<mapsto> ?cn], sy_reads = [1 \<mapsto> (''a'', 0)]\<rparr>"
  let ?us = "[Streamed 1, Opened 2 (sample_connection (sample_channel [], sample_rng 3)), Streamed 1, Streamed 1, Streamed 1]"
  let ?V = "secure_server_channel plain_prost"
  have a: "resolve_path ''a'' ''/'' = ''/a''" by code_simp
  have sized: "run_sized ?V memory_backend memory_content ?us ?sys"
    by (intro memory_frame.quiet_run_sized) (simp_all add: sample_memory_ok sample_memory_sized)
  have away: "keep_away ?V memory_backend same_place 1 (resolve_path ''a'' (cn_current_dir ?cn)) ?us ?sys"
    by (intro quiet_keep_away) simp
  have start: "ms_inv (sy_storage ?sys)" "sy_conns ?sys 1 = Some ?cn" "sy_reads ?sys 1 = Some (''a'', 0)"
    "memory_content (sy_storage ?sys) (resolve_path ''a'' (cn_current_dir ?cn)) = Some [1, 2, 3]"
    "vec_ok [1, 2, 3 :: u8]" "secure_live plain_primitives plain_prost 0 (cn_channel ?cn)"
    by (simp_all add: a sample_memory_ok sample_live vec_ok_def)
  have own: "filter (\<lambda>u. turn_of u = 1) ?us = replicate 4 (Streamed 1)" "length [1, 2, 3 :: u8] < 4"
    by (simp_all add: numeral_eq_Suc)
  from read_isolated [OF start plain_prost_compact own sized away]
  obtain cn' cs where "sy_conns (fold (system_turn ?V memory_backend) ?us ?sys) 1 = Some cn'"
    "delivered plain_prost 0 (cn_channel cn') = delivered plain_prost 0 (cn_channel ?cn) @ map ObjectContentChunk cs"
    "concat (map tc_data cs) = [1, 2, 3]"
    by blast
  then show ?thesis
    by (intro exI [of _ ?sys] exI [of _ ?us] exI [of _ cn'] exI [of _ cs] conjI) (simp_all only: sample_connection_simps system.simps)
qed

text \<open>C16: However the turns of any number of connections interleave over the one memory storage of
  the server, whatever their clients send and whenever they vanish, the storage keeps its
  invariant: its tree is well formed and its lock is never poisoned.\<close>

theorem shared_storage_kept:
  assumes "ms_inv (sy_storage sys)" "run_sized V memory_backend memory_content us sys"
  shows "ms_inv (sy_storage (fold (system_turn V memory_backend) us sys))"
  using assms by (rule memory_frame.run_inv)

theorem shared_storage_kept_witness:
  "ms_inv (sy_storage (fold (system_turn queue_channel memory_backend)
     [Opened 1 (sample_connection []), Opened 2 (sample_connection []), Served 1 (CreateNamespace ''d''),
      Served 2 (WriteObject ''d/x'' [1]), Dropped 1, Served 2 (DeleteNamespace ''d'')]
     \<lparr>sy_storage = memory_storage_new, sy_conns = Map.empty, sy_reads = Map.empty\<rparr>))"
  by (rule shared_storage_kept) (simp_all add: ms_inv_new)

section \<open>Confinement, refusals and the limit of connections\<close>

text \<open>C17: The file-system backend is confined to its base directory, in two senses.  First, whatever the
  request, the paths it hands to the operating system (other than to resolve names) lie inside the base
  directory name by name; the one other path is the base's own parent, which a write to the root makes sure
  exists.  So two operating systems that resolve names alike and agree on these paths give the same backend.
  What a path inside stands for is the operating system's matter: a dangling link there may lead out.
  Second, over a plain file system, which has no links, no operation with any path, whether it succeeds or
  fails, changes anything outside the base directory, and an object that is read lies below it.\<close>

theorem storage_confined:
  assumes "same_inside (fo_base_dir (tf_file_ops t)) sys sys'" "os_canonical sys" "canonical (fo_base_dir (tf_file_ops t))"
    and ready: "disk_ready OS ok view nm t' bs f"
  shows "tokio_backend sys t = tokio_backend sys' t \<and>
    (\<forall>op \<in> {put_object (tokio_backend OS t') p d, append_object (tokio_backend OS t') p d, delete_object (tokio_backend OS t') p,
         create_namespace (tokio_backend OS t') p, delete_namespace (tokio_backend OS t') p}.
       \<forall>r f' ms. op f = (r, f') \<longrightarrow> take (length bs) ms \<noteq> bs \<longrightarrow> view f' ms = view f ms) \<and>
    (\<forall>c f'. get_object (tokio_backend OS t') p f = (Ok c, f') \<longrightarrow> f' = f \<and> (\<exists>ns. below bs (view f) ns = Some (ObjectNode c)))"
  using tokio_confined [OF assms(1-3)] disk_outside [OF ready] disk_get_inside [OF ready] by blast

theorem storage_confined_witness:
  "tokio_backend sample_os (tokio_fs_storage_new sample_os ''/srv'' Map.empty) =
     tokio_backend (changed_os ''/etc/passwd'' [1, 2, 3]) (tokio_fs_storage_new sample_os ''/srv'' Map.empty) \<and>
   (\<exists>r f'. delete_object (tokio_backend tree_os sample_tokio) ''/../etc'' sample_disk = (r, f') \<and> look f' [''etc''] = look sample_disk [''etc''])"
proof -
  have can: "canonical ''/srv''" by code_simp
  then have base: "fo_base_dir (tf_file_ops (tokio_fs_storage_new sample_os ''/srv'' Map.empty)) = ''/srv''"
    by (simp add: tokio_fs_storage_new_def file_operations_new_def sample_os_def)
  obtain r f' where run: "delete_object (tokio_backend tree_os sample_tokio) ''/../etc'' sample_disk = (r, f')" by fastforce
  have conf: "tokio_backend sample_os (tokio_fs_storage_new sample_os ''/srv'' Map.empty) =
      tokio_backend (changed_os ''/etc/passwd'' [1, 2, 3]) (tokio_fs_storage_new sample_os ''/srv'' Map.empty) \<and>
      (\<forall>r f' ms. delete_object (tokio_backend tree_os sample_tokio) ''/../etc'' sample_disk = (r, f') \<longrightarrow>
         take (length [''srv'']) ms \<noteq> [''srv''] \<longrightarrow> look f' ms = look sample_disk ms)"
    using storage_confined [OF _ _ _ sample_disk_ready, of "tokio_fs_storage_new sample_os ''/srv'' Map.empty" sample_os
        "changed_os ''/etc/passwd'' [1, 2, 3]" "''/../etc''"] base can not_inside_srv sample_os_canonical changed_os_same_inside
    by simp
  then have "look f' [''etc''] = look sample_disk [''etc'']" using run by fastforce
  with conf run show ?thesis by blast
qed

text \<open>C18: Over the memory storage, a refusal changes nothing.  The request handler never panics, keeps
  the storage's invariant, and when it answers with an error it has changed neither the storage nor the
  current directory.  On a connection the same holds for every command, the streamed reads and the
  beginnings of transfers included, except a chunk of a transfer that is under way: when an error is
  among the replies, the connection is as before but for what was sent.  (A chunk of a transfer is
  stored before the announced size is checked; see the property on announced sizes.)\<close>

theorem refused_command_changes_nothing:
  assumes "ms_inv s" "process_command memory_backend c (s, dir) = (r, (s', dir'))"
    and "ms_inv (cn_storage cn)" "conn_handle_command queue_channel memory_backend c' cn = Some (r', cn')"
    and "cn_active_write cn = None \<or> (\<forall>chunk. c' \<noteq> WriteObjectChunk chunk)"
  shows "(\<exists>out. r = Ok out \<and> ms_inv s' \<and> ((\<exists>m. out = ErrorOutput m) \<longrightarrow> s' = s \<and> dir' = dir)) \<and>
    (\<exists>replies. cn_channel cn' = cn_channel cn @ replies \<and>
       ((\<exists>m. ErrorOutput m \<in> set replies) \<longrightarrow> cn' = cn\<lparr>cn_channel := cn_channel cn'\<rparr>))"
  using process_command_memory [OF assms(1,2)] refused_on_connection [OF assms(3-5)] by (simp add: refusal_clean_def)

theorem refused_command_changes_nothing_witness:
  "process_command memory_backend (DeleteObject ''b'') (sample_memory, ''/'') =
     (Ok (ErrorOutput ''File operation failed: Object not found''), (sample_memory, ''/'')) \<and>
   (\<exists>m. conn_handle_command queue_channel memory_backend (BeginObjectWrite ''d/x'' Upload 3) (sample_connection []) =
     Some (Ok (), sample_connection []\<lparr>cn_channel := [ErrorOutput m]\<rparr>))"
proof -
  let ?run = "process_command memory_backend (DeleteObject ''b'') (sample_memory, ''/'')"
  have "fst ?run = Ok (ErrorOutput ''File operation failed: Object not found'')" by code_simp
  then obtain s' dir' where run: "?run = (Ok (ErrorOutput ''File operation failed: Object not found''), (s', dir'))"
    by (metis prod.collapse)
  have "fst (conn_begin_object_write queue_channel memory_backend ''d/x'' Upload 3 (sample_connection [])) = Ok ()"
    "cn_channel (snd (conn_begin_object_write queue_channel memory_backend ''d/x'' Upload 3 (sample_connection []))) =
       [ErrorOutput ''File operation failed: Parent namespace not found'']" by code_simp+
  then obtain cn' where conn: "conn_handle_command queue_channel memory_backend (BeginObjectWrite ''d/x'' Upload 3) (sample_connection []) = Some (Ok (), cn')"
    and err: "cn_channel cn' = [ErrorOutput ''File operation failed: Parent namespace not found'']"
    by (cases "conn_begin_object_write queue_channel memory_backend ''d/x'' Upload 3 (sample_connection [])") auto
  have "s' = sample_memory \<and> dir' = ''/''" "cn' = sample_connection []\<lparr>cn_channel := cn_channel cn'\<rparr>"
    using refused_command_changes_nothing [OF sample_memory_ok(1) run _ conn] err ms_inv_new by (auto simp: sample_connection_def)
  with run conn err show ?thesis by (simp, metis)
qed

text \<open>C19: However accepts, handshakes, task ends, joins and the shutdown interleave, the server
  never has more connection tasks than configured, and every permit it does not hold for a
  task is free: none is lost when a task fails.\<close>

theorem connection_limit_kept:
  assumes "bind_with_identity config e = Ok s0" "server_reach s0 s"
  shows "length (sv_tasks s) \<le> max_connections config \<and>
    sv_permits s = max_connections config - length (sv_tasks s)"
  using assms by (rule server_reach_limit)

theorem connection_limit_kept_witness:
  "\<exists>s0 s. bind_with_identity server_config_default None = Ok s0 \<and> server_reach s0 s \<and> length (sv_tasks s) = 1 \<and>
     sv_permits s = 1023"
proof -
  obtain s0 where s0: "bind_with_identity server_config_default None = Ok s0" "sv_phase s0 = Accepting"
    "sv_tasks s0 = []" "sv_permits s0 = 1024"
    by (simp add: bind_with_identity_def server_config_default_def MAX_PERMITS_def)
  then have reach: "server_reach s0 (spawn_connection s0)"
    by (intro reach_step [OF reach_start] step_accept)
  have "length (sv_tasks (spawn_connection s0)) = 1" using s0 by (simp add: spawn_connection_def)
  with connection_limit_kept [OF s0(1) reach] s0(1) reach show ?thesis
    by (intro exI [of _ s0] exI [of _ "spawn_connection s0"]) (simp add: server_config_default_def)
qed

section \<open>Single operations of the storage and the handler\<close>

text \<open>C20: Listing a namespace of the memory storage gives exactly its children, each once, sorted by
  name and with the metadata of its node; the storage does not change.\<close>

theorem memory_listing:
  assumes "ms_inv s" "path_names p = Some ns" "tree_of s ns = Some NamespaceNode"
  shows "\<exists>es. ms_list_namespace p s = (Ok es, s) \<and> sorted (map md_name es) \<and>
    set es = (\<lambda>n. child_metadata n (the (tree_of s (ns @ [n])))) ` children (tree_of s) ns \<and>
    length es = card (children (tree_of s) ns)"
  using assms by (rule ms_list_namespace_ok)

theorem memory_listing_witness:
  "\<exists>es. ms_list_namespace ''/'' memory_storage_new = (Ok es, memory_storage_new) \<and> sorted (map md_name es) \<and>
    length es = card (children (tree_of memory_storage_new) [])"
proof -
  have "path_names ''/'' = Some []" by code_simp
  moreover have "tree_of memory_storage_new [] = Some NamespaceNode" by code_simp
  ultimately show ?thesis using memory_listing [OF ms_inv_new] by blast
qed

section \<open>Frames, identity and encodings\<close>

text \<open>C21: A frame whose header announces more than the limit is refused as soon as the header is
  read, so no buffer of the announced size is ever allocated or filled.\<close>

theorem oversized_frame_refused:
  assumes "ts_in s = u32_to_be_bytes (of_nat n) @ rest" "n < 2 ^ 32" "max_frame_size l < n"
  shows "frame_receive l s = (Err (FrameTooLarge (max_frame_size l) n), s\<lparr>ts_in := rest\<rparr>)"
  using assms by (rule frame_receive_too_large)

theorem oversized_frame_refused_witness:
  "frame_receive \<lparr>max_frame_size = 10\<rparr> (sample_stream [0, 0, 1, 0, 7]) = (Err (FrameTooLarge 10 256), sample_stream [7])"
proof -
  have "u32_to_be_bytes (of_nat 256) = [0, 0, 1, 0]" by code_simp
  then show ?thesis
    using oversized_frame_refused [of "sample_stream [0, 0, 1, 0, 7]" 256 "[7]" "\<lparr>max_frame_size = 10\<rparr>"]
    by (simp add: sample_stream_def)
qed

text \<open>C22: The signed handshake transcript determines the client's key, the server's key, the
  identity and the context: no other handshake has the same transcript, so a signature cannot
  be moved to another one.\<close>

theorem transcript_determines_parts:
  assumes "vec_ok c" "vec_ok s" "vec_ok (identity_bytes i)" "vec_ok k"
    "vec_ok c'" "vec_ok s'" "vec_ok (identity_bytes i')" "vec_ok k'"
    and "server_identity_transcript c s i k = server_identity_transcript c' s' i' k'"
  shows "c = c' \<and> s = s' \<and> i = i' \<and> k = k'"
  using assms by (rule transcript_inj)

theorem transcript_determines_parts_witness:
  "server_identity_transcript [1] [2] \<lparr>identity_bytes = [3]\<rparr> [4] \<noteq>
   server_identity_transcript [] [1, 2] \<lparr>identity_bytes = [3]\<rparr> [4]"
  using transcript_determines_parts [of "[1]" "[2]" "\<lparr>identity_bytes = [3]\<rparr>" "[4]" "[]" "[1, 2]" "\<lparr>identity_bytes = [3]\<rparr>" "[4]"]
  by (auto simp: vec_ok_def)

text \<open>C23: A server that is started again with the same key file, whatever the random source, has the
  identity it had, prints the same text for it, and leaves the file alone; that text is one a client can be given: it
  reads it as the server's public key, unless a file of that name is in the way.\<close>

theorem server_restart_keeps_pins:
  assumes "hex_ok (sw_identity W)" "ed25519_ok (sw_identity W)" "std_fs_ok (sw_std W)"
    and "server_main W args h = (Done inst, h')"
    and "server_main (W\<lparr>sw_seed := seed\<rparr>) args' h1 = (Done inst', h2)" "sh_files h1 = sh_files h'"
      "arg_identity_key args' = arg_identity_key args"
    and "be_identity (cw_env C) = sw_identity W"
  shows "\<exists>key pin. sn_identity inst = Some key \<and> sn_identity inst' = Some key \<and> sh_files h2 = sh_files h1 \<and>
    ''Server identity: '' @ pin \<in> set (sh_output h') \<and> ''Server identity: '' @ pin \<in> set (sh_output h2) \<and>
    (\<not> fs_exists (cw_std C) pin f \<longrightarrow> parse_server_identity C pin f = Done (public_key (sw_identity W) key))"
proof -
  obtain key where key: "load_or_generate (sw_identity W) (sw_std W) (sw_seed W) (arg_identity_key args) (sh_files h) = (Ok key, sh_files h')"
    "sn_identity inst = Some key" "identity_line W key \<in> set (sh_output h')"
    by (rule server_main_started [OF assms(4)], rule that) auto
  have again: "sn_identity inst' = Some key" "sh_files h2 = sh_files h1"
    using server_restart [OF assms(1-7)] key(2) by auto
  then have "identity_line W key \<in> set (sh_output h2)"
    by - (rule server_main_started [OF assms(5)], simp add: identity_line_def)
  with key again printed_identity_parses [OF assms(1,2) loaded_key_size [OF assms(2) key(1)], of "cw_std C" f] assms(8)
  show ?thesis by (auto simp: identity_line_def parse_server_identity_def)
qed

theorem server_restart_keeps_pins_witness:
  "\<exists>inst h' inst' h2 key pin.
     server_main sample_machine late_args \<lparr>sh_files = Map.empty, sh_output = []\<rparr> = (Done inst, h') \<and>
     server_main (sample_machine\<lparr>sw_seed := 9\<rparr>) late_args h' = (Done inst', h2) \<and>
     sn_identity inst' = Some key \<and> ''Server identity: '' @ pin \<in> set (sh_output h2) \<and>
     parse_server_identity offline_client pin Map.empty = Done (public_key plain_identity key)"
proof -
  obtain inst h' inst' h2 where run:
    "server_main sample_machine late_args \<lparr>sh_files = Map.empty, sh_output = []\<rparr> = (Done inst, h')"
    "server_main (sample_machine\<lparr>sw_seed := 9\<rparr>) late_args h' = (Done inst', h2)"
    using sample_machine_starts by blast
  have none: "\<not> fs_exists (cw_std offline_client) p Map.empty" for p by (simp add: text_fs_def)
  from server_restart_keeps_pins [where C = offline_client and f = Map.empty, OF _ _ _ run] run none
  show ?thesis by (auto simp: plain_hex_ok plain_ed25519_ok text_fs_ok)
qed

section \<open>The server\<close>

text \<open>C24: As long as fewer than \<open>2 ^ 64\<close> connections were accepted since the start, no two live
  connections of the server have the same identifier.\<close>

theorem connection_ids_distinct:
  assumes "bind_with_identity config e = Ok s0" "server_reach s0 s" "sv_accepted s < 2 ^ 64"
  shows "distinct (map fst (sv_tasks s))"
proof -
  have "ids_inv s0" using assms(1) by (auto simp: bind_with_identity_def ids_inv_def split: option.splits if_splits)
  from ids_inv_distinct [OF server_reach_ids [OF assms(2) this] assms(3)] show ?thesis .
qed

theorem connection_ids_distinct_witness:
  "\<exists>s0 a b. bind_with_identity server_config_default None = Ok s0 \<and>
     map fst (sv_tasks (spawn_connection (spawn_connection s0))) = [a, b] \<and> a \<noteq> b"
proof -
  obtain s0 where s0: "bind_with_identity server_config_default None = Ok s0" "sv_phase s0 = Accepting"
    "sv_tasks s0 = []" "sv_permits s0 = 1024" "sv_accepted s0 = 0" "sv_next_id s0 = 1"
    by (simp add: bind_with_identity_def server_config_default_def MAX_PERMITS_def)
  let ?s = "spawn_connection (spawn_connection s0)"
  have "sv_phase (spawn_connection s0) = Accepting" using s0(2) by (simp add: spawn_connection_def)
  then have "server_step s0 (spawn_connection s0)" "server_step (spawn_connection s0) ?s"
    using s0(2) by (simp_all only: step_accept)
  then have "server_reach s0 ?s" by (meson reach_start reach_step)
  moreover have "sv_accepted ?s < 2 ^ 64" "map fst (sv_tasks ?s) = [1, 2]" using s0 by (simp_all add: spawn_connection_def)
  ultimately show ?thesis
    using connection_ids_distinct [OF s0(1), of ?s] s0(1) by (intro exI [of _ s0] exI [of _ 1] exI [of _ 2]) simp
qed

text \<open>C25: Once the accept loop has seen the cancelled token, the server winds down.  Nothing is accepted
  any more, and of the steps that change the server (a handshake completed, a task ended, a result joined, the loop
  left) at most \<open>drain_work\<close> many are possible, in whatever order they come; there is always another one until
  the server is stopped, and then no task is running or waiting to be joined and every permit is free.
  That the tasks take their steps is up to the clients and the runtime, but the connections do not hold the
  shutdown up: one that is told to stop closes as it is when the command it is at has been handled, and looks at
  nothing that comes later.\<close>

theorem shutdown_completes:
  assumes "bind_with_identity config None = Ok s0" "server_reach s0 s" "sv_phase s \<noteq> Accepting"
    and "busy_run f n" "f 0 = s"
  shows "n \<le> drain_work s \<and> sv_accepted (f n) = sv_accepted s \<and>
    (sv_phase (f n) = Stopped \<longleftrightarrow> \<not> (\<exists>t. server_step (f n) t \<and> t \<noteq> f n)) \<and>
    (sv_phase (f n) = Stopped \<longrightarrow> sv_tasks (f n) = [] \<and> sv_finished (f n) = 0 \<and> sv_permits (f n) = max_connections config) \<and>
    conn_run V B (evs @ Cancelled # evs') cn =
      (case conn_run V B evs cn of Some (Running, cn') \<Rightarrow> Some (Closed (Ok ()), cn') | x \<Rightarrow> x)"
proof -
  have inv: "server_inv s" "sv_config s = config"
    using server_reach_inv [OF assms(2)] bind_inv [OF assms(1)] by auto
  have run: "server_inv (f n)" "sv_phase (f n) \<noteq> Accepting" "sv_accepted (f n) = sv_accepted s" "n \<le> drain_work s"
    "sv_config (f n) = config"
    using drain_run [OF assms(4)] inv assms(3,5) by auto
  have "sv_phase (f n) = Stopped \<longleftrightarrow> \<not> (\<exists>t. server_step (f n) t \<and> t \<noteq> f n)"
    using drain_enabled [OF run(1)] stopped_idle [OF run(1)] run(2) by (cases "sv_phase (f n)") auto
  then show ?thesis
    using run unfolding server_inv_def conn_run_cancelled by auto
qed

theorem shutdown_completes_witness:
  "\<exists>s0 s t. bind_with_identity server_config_default None = Ok s0 \<and> server_reach s0 s \<and> sv_phase s = Draining \<and>
     length (sv_tasks s) = 1 \<and> 3 \<le> drain_work s \<and> server_reach s t \<and> sv_phase t = Stopped \<and> sv_permits t = max_connections server_config_default"
proof -
  obtain s0 where s0: "bind_with_identity server_config_default None = Ok s0" "sv_phase s0 = Accepting" "sv_tasks s0 = []"
    "sv_permits s0 \<noteq> 0" "sv_finished s0 = 0"
    by (simp add: bind_with_identity_def server_config_default_def MAX_PERMITS_def)
  define s where "s = (shutdown_handle (spawn_connection s0))\<lparr>sv_phase := Draining\<rparr>"
  have "server_step s0 (spawn_connection s0)" "server_step (spawn_connection s0) (shutdown_handle (spawn_connection s0))"
    using s0(2) by (rule step_accept, intro step_signal)
  moreover have "server_step (shutdown_handle (spawn_connection s0)) s"
    unfolding s_def using s0(2) by (intro step_shutdown) (simp_all add: spawn_connection_def shutdown_handle_def)
  ultimately have reach: "server_reach s0 s" by (meson reach_start reach_step)
  have s: "length (sv_tasks s) = 1" "sv_phase s = Draining" "sv_finished s = 0"
    using s0 by (simp_all add: s_def spawn_connection_def shutdown_handle_def)
  define t where "t = end_task 0 s"
  have t: "sv_tasks t = []" "sv_phase t = Draining" "sv_finished t = 1" using s by (simp_all add: t_def end_task_def)
  let ?u = "t\<lparr>sv_finished := 0\<rparr>" and ?f = "\<lambda>i. [s, t, t\<lparr>sv_finished := 0\<rparr>, t\<lparr>sv_finished := 0, sv_phase := Stopped\<rparr>] ! i"
  have steps: "server_step s t" "server_step t ?u" "server_step ?u (?u\<lparr>sv_phase := Stopped\<rparr>)"
    using s t step_task_end [of 0 s] step_join [of t] step_stop [of ?u] by (simp_all add: t_def)
  have "t \<noteq> s" "?u \<noteq> t" "?u\<lparr>sv_phase := Stopped\<rparr> \<noteq> ?u"
    using s t by (auto dest: arg_cong [of _ _ sv_finished] arg_cong [of _ _ sv_phase])
  with steps have "busy_run ?f 3" by (auto simp: busy_run_def numeral_3_eq_3 less_Suc_eq)
  from shutdown_completes [where V = queue_channel and B = memory_backend, OF s0(1) reach _ this] s have "3 \<le> drain_work s \<and>
      sv_permits (t\<lparr>sv_finished := 0, sv_phase := Stopped\<rparr>) = max_connections server_config_default"
    by (simp add: numeral_3_eq_3)
  moreover have "server_reach s (?u\<lparr>sv_phase := Stopped\<rparr>)" using steps by (meson reach_start reach_step)
  ultimately show ?thesis
    using s s0(1) reach by (intro exI [of _ s0] exI [of _ s] exI [of _ "?u\<lparr>sv_phase := Stopped\<rparr>"]) simp
qed

text \<open>C26: The configuration \<open>main\<close> builds from its arguments is the one they give, except that an
  idle timeout of zero, for which \<open>main\<close> passes \<open>None\<close> to switch the timeout off, yields a
  timeout of zero seconds: no argument switches it off.\<close>

theorem configured_as_given:
  "main_config args =
     \<lparr>max_connections = arg_max_connections args, handshake_timeout = arg_handshake_timeout args,
      idle_timeout = Some (arg_idle_timeout args), reject_when_full = True, tcp_keepalive = Some 60\<rparr>"
  by (rule main_config_eq)

section \<open>The client\<close>

text \<open>C27: The command line that names a plan is parsed to that plan: for every plan a line can
  ask for (each single command, chunked read, inline write or append, upload) whose words have
  no blanks, \<open>build_request\<close> on the words joined by blanks gives the plan back.\<close>

theorem command_line_parsed:
  assumes "plan_ok stat plan" "plan_words plan \<noteq> []" "\<And>w. w \<in> set (plan_words plan) \<Longrightarrow> word_ok w"
  shows "build_request stat (join_words (plan_words plan)) = Ok plan"
  using assms by (rule plan_roundtrip)

theorem command_line_parsed_witness:
  "build_request (\<lambda>_. Inl ''missing'') ''append log two words'' = Ok (ChunkedInlineWrite ''log'' Append (bytes_of ''two words''))"
proof -
  let ?plan = "ChunkedInlineWrite ''log'' Append (bytes_of ''two words'')"
  have "plan_ok (\<lambda>_. Inl ''missing'') ?plan" "plan_words ?plan = [''append'', ''log'', ''two'', ''words'']"
    "join_words [''append'', ''log'', ''two'', ''words''] = ''append log two words''"
    "list_all word_ok [''append'', ''log'', ''two'', ''words'']"
    by code_simp+
  then show ?thesis
    using command_line_parsed [of "\<lambda>_. Inl ''missing''" ?plan] by (auto simp: list_all_iff)
qed

text \<open>C28: Showing a reply of the server panics exactly when the reply carries a modification time
  that is out of the range of the calendar library or does not fit a signed 64-bit number;
  every other reply is shown.\<close>

theorem shown_unless_time_out_of_range:
  "format_response chrono out = Panic \<longleftrightarrow> (\<exists>t. t \<in> set (output_times out) \<and> (2 ^ 63 \<le> unat t \<or> chrono t = None))"
  using format_response_Panic [of chrono out] by (auto simp: time_ok_def not_less Bex_def)

text \<open>C29: The exit status of the client in batch mode is zero exactly when the server identity was read,
  the log could be created, the commands could be read, the connection was made, and every
  command was sent and answered with success; a lost connection is never reported as success.\<close>

theorem batch_exit_status:
  assumes "client_main W args s = Some (Ended r, s')" "ca_mode args = Some (Batch b)" "writes_all (cw_stdout W)"
  shows "exit_status r = 0 \<longleftrightarrow>
    (\<exists>identity f cs m.
       parse_server_identity W (ca_server_identity args) (cl_files s) = Done identity \<and>
       cw_create W ''fenris-client.log'' (cl_files s) = (Inr (), f) \<and>
       read_commands_from_source (cw_stdin W) (cw_opened W f) (ba_commands_file b) = Done cs \<and>
       batch_connected (cw_env W) b identity m \<and>
       length (answers (batch_send (cw_env W)) cs m) = length cs \<and>
       list_all fr_success (answers (batch_send (cw_env W)) cs m))"
  using assms by (rule batch_status)

theorem batch_exit_status_witness:
  "\<exists>r s'. client_main offline_client \<lparr>ca_server_identity = sample_pin, ca_mode = Some (Batch (batch_args_default ''-''))\<rparr>
      \<lparr>cl_files = Map.empty, cl_terminal = (False, False), cl_output = []\<rparr> = Some (Ended r, s') \<and>
     exit_status r = 1 \<and> (\<nexists>identity m. batch_connected (cw_env offline_client) (batch_args_default ''-'') identity m \<and>
       parse_server_identity offline_client sample_pin Map.empty = Done identity \<and>
       length (answers (batch_send (cw_env offline_client)) [''ping''] m) = 1 \<and>
       list_all fr_success (answers (batch_send (cw_env offline_client)) [''ping''] m))"
proof -
  let ?args = "\<lparr>ca_server_identity = sample_pin, ca_mode = Some (Batch (batch_args_default ''-''))\<rparr>"
  let ?s = "\<lparr>cl_files = Map.empty, cl_terminal = (False, False), cl_output = []\<rparr>"
  have pin: "parse_server_identity offline_client sample_pin Map.empty = Done (public_key plain_identity sample_key)"
    using printed_identity_parses [OF plain_hex_ok plain_ed25519_ok, of sample_key text_fs Map.empty]
    by (simp add: parse_server_identity_def sample_pin_def sample_key_def SERVER_IDENTITY_KEY_SIZE_def text_fs_def)
  have line: "trim ''ping'' = ''ping''" by code_simp
  have source: "read_commands_from_source (cw_stdin offline_client) (cw_opened offline_client f) (ba_commands_file (batch_args_default ''-'')) = Done [''ping'']" for f
    by (simp add: read_commands_from_source_def offline_client_def batch_args_default_def line)
  obtain e s' where run: "client_main offline_client ?args ?s = Some (Ended (Failed e), s')"
    using offline_batch [of "cw_stdout offline_client" _ "public_key plain_identity sample_key" "[]"]
    by (simp add: client_main_def pin io_step_def unwrap_or_def run_batch_mode_def source) fastforce
  from batch_exit_status [OF run _ offline_client_writes, of "batch_args_default ''-''"] run pin source show ?thesis
    by (fastforce simp: offline_client_def)
qed



text \<open>C31: On the command screen the output box, the second area of the layout, holds the newest messages of the
  log, oldest first and one line of text each, as many as there are rows inside its border; in an area lower than its
  border it is given every message there is, because the number of rows wraps around.  The box wraps
  its lines, so a message longer than the box is wide takes more than one row.\<close>

theorem newest_messages_shown:
  assumes "layout_ok S" "rect_ok (uf_area f)" "ap_screen a = CommandScreen" "app_inv a"
  defines "area \<equiv> S command_layout (uf_area f) ! 1"
  shows "\<exists>f' p. ui_render S now a f = Ok f' \<and> rect_inside area (uf_area f) \<and>
    (ParagraphWidget p, area) \<in> set (uf_widgets f') \<and> pg_block p = Some (bordered (Some '' Output '')) \<and> pg_wrap_trim p = Some False \<and>
    pg_text p = Lines (map (message_line now)
      (if unat (rheight area) < 2 then messages a
       else drop (length (messages a) - (unat (rheight area) - 2)) (messages a)))"
proof -
  have at: "area_at (S command_layout (uf_area f)) i = Ok (S command_layout (uf_area f) ! i)"
    "rect_inside (S command_layout (uf_area f) ! i) (uf_area f)" if "i < 4" for i
    using area_at_layout [OF assms(1,2), of i command_layout] that by (auto simp: layouts)
  have lines: "message_lines area now (messages a) = map (message_line now)
      (if unat (rheight area) < 2 then messages a
       else drop (length (messages a) - (unat (rheight area) - 2)) (messages a))"
    using message_lines_newest [of area now] message_lines_flat [of area "messages a" now] assms(4)
    by (auto simp: app_inv_def not_less)
  let ?p = "(paragraph_new (Lines (message_lines area now (messages a))))
      \<lparr>pg_block := Some (bordered (Some '' Output '')), pg_wrap_trim := Some False\<rparr>"
  obtain f' where "ui_render S now a f = Ok f'" "(ParagraphWidget ?p, area) \<in> set (uf_widgets f')"
    unfolding area_def
    by (simp add: assms(3) ui_render_def command_render_def Let_def at render_help_text_def render_header_def
        render_messages_def render_input_def render_widget_def set_cursor_position_def)
  then show ?thesis
    using at(2) [of 1] lines by (intro exI [of _ f'] exI [of _ ?p]) (simp add: area_def paragraph_new_def)
qed

theorem newest_messages_shown_witness:
  "\<exists>f' p. ui_render whole_area 5 long_log \<lparr>uf_area = sample_area, uf_widgets = [], uf_cursor = None\<rparr> = Ok f' \<and>
    length (messages long_log) = 30 \<and> (ParagraphWidget p, sample_area) \<in> set (uf_widgets f') \<and>
    pg_text p = Lines (map (message_line 5) (drop 8 (messages long_log)))"
  using newest_messages_shown [OF whole_area_ok, of "\<lparr>uf_area = sample_area, uf_widgets = [], uf_cursor = None\<rparr>" long_log 5]
    long_log_ok sample_area_ok
  by (auto simp: whole_area_def layouts sample_area_def)

text \<open>C32: When the client in terminal mode ends, with success or with an error, and its operations on
  the terminal succeed, the terminal is out of the alternate screen and of raw mode; only a
  panic leaves it changed.\<close>

theorem terminal_restored:
  assumes "terminal_ok (cw_terminal W) alternate raw" "\<And>t. fst (terminal_restore (cw_terminal W) t) = Done ()"
    and "terminal_init (cw_terminal W) (cl_terminal s) = (Done (), t1)"
    and "ca_mode args = None \<or> ca_mode args = Some Tui"
    and "client_main W args s = Some (Ended r, s')" "r \<noteq> Crashed"
  shows "cl_terminal s' = cl_terminal s \<or> \<not> alternate (cl_terminal s') \<and> \<not> raw (cl_terminal s')"
proof -
  have mode: "unwrap_or (ca_mode args) Tui = Tui" using assms(4) by (auto simp: unwrap_or_def)
  from client_main_tui [OF assms(5) this] show ?thesis
    using run_tui_restored [OF assms(1) refl assms(3,2)] assms(6) by blast
qed

theorem terminal_restored_witness:
  "\<exists>s'. client_main offline_client \<lparr>ca_server_identity = sample_pin, ca_mode = None\<rparr>
      \<lparr>cl_files = Map.empty, cl_terminal = (False, False), cl_output = []\<rparr> = Some (Ended (Done ExitSuccess), s') \<and>
     \<not> fst (cl_terminal s') \<and> \<not> snd (cl_terminal s')"
proof -
  let ?args = "\<lparr>ca_server_identity = sample_pin, ca_mode = None\<rparr>"
  let ?s = "\<lparr>cl_files = Map.empty, cl_terminal = (False, False), cl_output = []\<rparr>"
  have pin: "parse_server_identity offline_client sample_pin Map.empty = Done (public_key plain_identity sample_key)"
    using printed_identity_parses [OF plain_hex_ok plain_ed25519_ok, of sample_key text_fs Map.empty]
    by (simp add: parse_server_identity_def sample_pin_def sample_key_def SERVER_IDENTITY_KEY_SIZE_def text_fs_def)
  have init: "terminal_init (cw_terminal offline_client) (cl_terminal ?s) = (Done (), True, True)"
    by (simp add: terminal_init_def any_then_def io_step_def plain_terminal_def)
  obtain s' where run: "client_main offline_client ?args ?s = Some (Ended (Done ExitSuccess), s')"
    by (simp add: client_main_def pin io_step_def unwrap_or_def run_tui_def init [simplified])
      (simp add: offline_client_def tui_client_with_server_identity_def with_server_identity_def set_server_identity_def
        connection_manager_new_def tui_run_def app_new_def app_says add_message_def Let_def tui_draw_def sample_tick_def
        ui_render_def connection_render_def render_connection_form_def whole_area_def layouts area_at_def
        tui_round_def poll_events_def tui_handle_key_event_def tick_def is_connected_def any_then_def
        terminal_restore_def io_step_def plain_terminal_def, blast)
  from terminal_restored [OF plain_terminal_ok [folded offline_client_simps(1)] plain_terminal_restores [folded offline_client_simps(1)] init _ run] run
  show ?thesis by auto
qed

section \<open>Where the code fails\<close>

text \<open>C33: Typing a character of more than one byte into the empty command line and then any other
  character makes the client panic: the cursor is advanced by one byte and stands inside the
  character.\<close>

theorem wide_character_panics:
  assumes "command_input a = []" "cursor_position a = 0" "utf8_char c" "1 < length c"
  shows "res_bind (insert_char c a) (insert_char d) = Panic"
  using assms by (rule insert_wide_then_panic)

theorem wide_character_panics_witness:
  "res_bind (insert_char [CHR 0xC3, CHR 0xA9] (app_new 0)) (insert_char ''x'') = Panic"
proof -
  have "utf8_char [CHR 0xC3, CHR 0xA9]" by code_simp
  then show ?thesis by (rule wide_character_panics [rotated 2]) (simp_all add: app_new_def)
qed

text \<open>C34: A namespace that has grown too large cannot be listed, and asking for it costs the connection:
  when the encoded listing does not fit a frame, the server refuses to send it, leaves its loop
  without an answer, and the client's \<open>ls\<close> fails with the end of the stream.\<close>

theorem oversized_listing_drops_connection:
  assumes wire: "wired_as P Q w cq" "cn_channel cq = []" and p: "word_ok p" "length p \<le> DEFAULT_TRANSFER_CHUNK_SIZE"
    and listing: "list_namespace B (resolve_path p (cn_current_dir cq)) (cn_storage cq) = (Ok es, s')"
    and large: "output_encode Q (NamespaceListing es) = Ok bs" "DEFAULT_MAX_FRAME_SIZE < length bs + IV_SIZE + TAG_SIZE"
  shows "\<exists>w'. send_command dbg chrono (wired_channel Q B) L (join_words [''ls'', p]) (over m w) =
      Some (Err (NetworkError (IoError UnexpectedEof ''early eof'')), over m w') \<and> \<not> wr_running w'"
proof -
  have p': "utf8_valid p" "utf8_lossy p = p" using p(1) by (simp_all add: word_ok_def utf8_lossy_valid)
  have small: "command_small (ListNamespace p)"
    using p(2) p'(2) by (simp add: command_small_def is_terminate_def request_size_def mk_request_def request_with_details_def
        to_string_lossy_def key_sizes DEFAULT_TRANSFER_CHUNK_SIZE_def DEFAULT_MAX_FRAME_SIZE_def)
  have "process_command B (command_on_wire (ListNamespace p)) (cn_storage cq, cn_current_dir cq) =
      (Ok (NamespaceListing es), (s', cn_current_dir cq))"
    using listing p'(2) by (simp add: process_command_def handle_list_namespace_def on_storage_def state_bind_def)
  from oversized_reply_drops [OF wire small _ this large] obtain w' where
    "exchange (wired_channel Q B) (ListNamespace p) w = (Err (NetworkError (IoError UnexpectedEof ''early eof'')), w')" "\<not> wr_running w'"
    by auto
  moreover have "word_ok ''ls''" by code_simp
  then have "build_request (lf_stat L) (join_words [''ls'', p]) = Ok (Single (ListNamespace p))"
    using plan_roundtrip [of "lf_stat L" "Single (ListNamespace p)"] p(1) by auto
  ultimately show ?thesis
    by (intro exI [of _ w']) (simp add: send_command_def send_request_receive_response_def on_channel_over)
qed

theorem oversized_listing_drops_connection_witness:
  "\<exists>l cn w'. connect plain_identity plain_primitives (\<lambda>_. Inr sample_client_wire) sample_manager =
      (Ok (), sample_manager\<lparr>mg_channel := Some l\<rparr>) \<and>
    accept_authenticated plain_identity plain_primitives 1 memory_storage_new server_config_default sample_key False sample_server_wire = Ok cn \<and>
    send_command (\<lambda>_. []) (\<lambda>_. None) (wired_channel plain_prost crowded_backend) missing_files ''ls a'' (plugged sample_manager (wire_up l cn)) =
      Some (Err (NetworkError (IoError UnexpectedEof ''early eof'')), plugged sample_manager w') \<and> \<not> wr_running w'"
proof -
  obtain l cn where start: "connect plain_identity plain_primitives (\<lambda>_. Inr sample_client_wire) sample_manager =
      (Ok (), sample_manager\<lparr>mg_channel := Some l\<rparr>)"
    "accept_authenticated plain_identity plain_primitives 1 memory_storage_new server_config_default sample_key False sample_server_wire = Ok cn"
    "wired_as plain_primitives plain_prost (wire_up l cn) (with_channel [] cn)"
    using connected [OF sample_trusted sample_connected sample_manager_simps, of "\<lambda>_. Inr sample_client_wire" 1 memory_storage_new
        server_config_default] by blast
  have "join_words [''ls'', ''a''] = ''ls a''" "word_ok ''a''" by code_simp+
  then have "\<exists>w'. send_command (\<lambda>_. []) (\<lambda>_. None) (wired_channel plain_prost crowded_backend) missing_files ''ls a''
      (over (plugged sample_manager (wire_up l cn)) (wire_up l cn)) =
      Some (Err (NetworkError (IoError UnexpectedEof ''early eof'')), over (plugged sample_manager (wire_up l cn)) w') \<and> \<not> wr_running w'"
    using oversized_listing_drops_connection [OF start(3) _ _ _ crowded_lists crowded_large, of "''a''"]
    by (simp add: DEFAULT_TRANSFER_CHUNK_SIZE_def)
  with start(1,2) show ?thesis unfolding over_plugged by (intro exI [of _ l] exI [of _ cn]) simp
qed



text \<open>C36: When a server is started whose base directory is a relative path that does not exist when the
  storage is made (it may be created afterwards, with the key file), then its storage keeps the relative
  path, and no resolved path is ever below it: from then on every operation of the storage refuses every
  path, and a connection answers every command but a ping and a farewell with an error.\<close>

theorem relative_base_refused:
  assumes "os_canonical (sw_os W)" "os_canonicalize (sw_os W) (arg_base_dir args) (sh_files h) = Inl e"
    "\<not> is_absolute (arg_base_dir args)" "components (arg_base_dir args) \<noteq> []"
    and "server_main W args h = (Done inst, h')"
  shows "refuses_all (tokio_backend (sw_os W) (sn_storage inst)) f \<and>
    (\<forall>c cn. cn_active_write cn = None \<longrightarrow> c \<noteq> Ping \<longrightarrow> c \<noteq> Terminate \<longrightarrow>
       (\<exists>m. conn_handle_command queue_channel (tokio_backend (sw_os W) (sn_storage inst)) c cn =
         Some (Ok (), cn\<lparr>cn_channel := cn_channel cn @ [ErrorOutput m]\<rparr>)))"
proof -
  have "sn_storage inst = tokio_fs_storage_new (sw_os W) (arg_base_dir args) (sh_files h)"
    by (rule server_main_started [OF assms(5)])
  then have "fo_base_dir (tf_file_ops (sn_storage inst)) = arg_base_dir args"
    using assms(2) by (simp add: tokio_fs_storage_new_def file_operations_new_def)
  then have "refuses_all (tokio_backend (sw_os W) (sn_storage inst)) f" for f
    using tokio_relative_refuses [OF assms(1), of "sn_storage inst"] assms(3,4) by simp
  then show ?thesis using refused_everywhere by blast
qed

theorem relative_base_refused_witness:
  "\<exists>inst h' m. server_main sample_machine late_args \<lparr>sh_files = Map.empty, sh_output = []\<rparr> = (Done inst, h') \<and>
     refuses (put_object (tokio_backend late_os (sn_storage inst)) ''/a'' [1]) (sh_files h') \<and>
     conn_handle_command queue_channel (tokio_backend late_os (sn_storage inst)) (ChangeNamespace ''/'')
       \<lparr>cn_id = 1, cn_channel = [], cn_current_dir = ''/'', cn_storage = sh_files h', cn_config = server_config_default, cn_active_write = None\<rparr> =
     Some (Ok (), \<lparr>cn_id = 1, cn_channel = [ErrorOutput m], cn_current_dir = ''/'', cn_storage = sh_files h',
       cn_config = server_config_default, cn_active_write = None\<rparr>)"
proof -
  obtain inst h' where run: "server_main sample_machine late_args \<lparr>sh_files = Map.empty, sh_output = []\<rparr> = (Done inst, h')"
    using sample_machine_starts by blast
  have rel: "\<not> is_absolute (arg_base_dir late_args)" "components (arg_base_dir late_args) \<noteq> []"
    unfolding late_args_def server_args.simps by code_simp+
  have os: "os_canonical (sw_os sample_machine)" "os_canonicalize (sw_os sample_machine) (arg_base_dir late_args) Map.empty = Inl ''No such file or directory''"
    using late_os_canonical by (simp_all add: late_args_def late_os_def)
  let ?cn = "\<lparr>cn_id = 1, cn_channel = [], cn_current_dir = ''/'', cn_storage = sh_files h', cn_config = server_config_default, cn_active_write = None\<rparr>"
  note no = relative_base_refused [OF os(1) _ rel run, of "''No such file or directory''" "sh_files h'"]
  have "refuses (put_object (tokio_backend late_os (sn_storage inst)) ''/a'' [1]) (sh_files h')"
    using no os(2) by (simp add: refuses_all_def)
  moreover have "\<exists>m. conn_handle_command queue_channel (tokio_backend late_os (sn_storage inst)) c cn =
      Some (Ok (), cn\<lparr>cn_channel := cn_channel cn @ [ErrorOutput m]\<rparr>)"
    if "cn_active_write cn = None" "c \<noteq> Ping" "c \<noteq> Terminate" for c cn
    using no os(2) that by simp
  from this [of ?cn "ChangeNamespace ''/''"] have "\<exists>m. conn_handle_command queue_channel (tokio_backend late_os (sn_storage inst)) (ChangeNamespace ''/'') ?cn =
      Some (Ok (), ?cn\<lparr>cn_channel := [ErrorOutput m]\<rparr>)" by simp
  ultimately show ?thesis using run by auto
qed

text \<open>C37: A chunk read whose offset lies inside the object and whose length overflows when added to
  it panics while it holds the lock of the memory storage; after that every operation on a
  valid path (of a chunk of positive length) fails with the poisoned lock and changes nothing, and the
  queries say that nothing is there.\<close>

theorem huge_chunk_panics_and_poisons:
  assumes "ms_inv s" "memory_content s p = Some d" "vec_ok d" "0 < unat off" "unat off < length d"
    "n < 2 ^ 64" "2 ^ 64 \<le> unat off + n" "path_names q = Some ns" "0 < k"
  shows "let t = s\<lparr>ms_poisoned := True\<rparr>; poisoned = FileOperationError ''Memory storage lock poisoned'' in
    ms_get_object_chunk p off n s = (Panic, t) \<and>
    ms_put_object q x t = (Err poisoned, t) \<and> ms_get_object q t = (Err poisoned, t) \<and>
    ms_get_object_chunk q i k t = (Err poisoned, t) \<and> ms_append_object q x t = (Err poisoned, t) \<and>
    ms_delete_object q t = (Err poisoned, t) \<and> ms_metadata q t = (Err poisoned, t) \<and>
    ms_create_namespace q t = (Err poisoned, t) \<and> ms_list_namespace q t = (Err poisoned, t) \<and>
    ms_delete_namespace q t = (Err poisoned, t) \<and> \<not> ms_exists q t \<and> \<not> ms_is_namespace q t \<and> \<not> ms_is_object q t"
  using ms_chunk_panics [OF assms(1-7)] ms_poisoned_Err [of "s\<lparr>ms_poisoned := True\<rparr>" q ns] assms(8,9) by (simp add: Let_def)

theorem huge_chunk_panics_and_poisons_witness:
  "ms_get_object_chunk ''/a'' 1 (2 ^ 64 - 1) sample_memory = (Panic, sample_memory\<lparr>ms_poisoned := True\<rparr>) \<and>
   ms_delete_object ''/a'' (sample_memory\<lparr>ms_poisoned := True\<rparr>) =
     (Err (FileOperationError ''Memory storage lock poisoned''), sample_memory\<lparr>ms_poisoned := True\<rparr>)"
proof -
  have "path_names ''/a'' = Some [''a'']" by code_simp
  from huge_chunk_panics_and_poisons [OF sample_memory_ok _ _ _ _ _ this, of 1 "2 ^ 64 - 1" 1] show ?thesis
    by (simp add: vec_ok_def Let_def)
qed

text \<open>C38: The size announced for a transfer is no bound on what is stored: a chunk in sequence is
  appended to the object before the size is looked at.  If it is not marked as the last one it is
  accepted even when it goes beyond the announced size, and if it is, the transfer is refused as
  incomplete with the bytes already stored.\<close>

theorem announced_size_not_enforced:
  assumes "ms_inv s" "memory_content s (aw_path t) = Some c"
    and "length (tc_data ch) \<le> n" "tc_offset ch = aw_expected_offset t" "tc_total_size ch = aw_total_size t"
    and "aw_total_size t < aw_expected_offset t + len_u64 (tc_data ch)"
  shows "\<exists>r t' s'. handler_write_object_chunk memory_backend t ch n s = (r, t', s') \<and>
    memory_content s' (aw_path t) = Some (c @ tc_data ch) \<and>
    (if tc_is_last ch then \<exists>m. r = Err (InvalidRequest m)
     else r = Ok (TransferProgress (aw_expected_offset t + len_u64 (tc_data ch))))"
proof -
  have "chunk_fits t ch n" using assms(3-5) by (simp add: chunk_fits_def)
  from memory.write_chunk_content [OF assms(1,2) this] obtain s' where
    "handler_write_object_chunk memory_backend t ch n s = (chunk_outcome t ch, advance t ch, s')"
    "memory_content s' (aw_path t) = Some (c @ tc_data ch)" by blast
  with assms(6) show ?thesis by (auto simp: chunk_outcome_def advance_def)
qed

theorem announced_size_not_enforced_witness:
  "\<exists>r t' s'. handler_write_object_chunk memory_backend \<lparr>aw_path = ''/a'', aw_expected_offset = 1, aw_total_size = 2\<rparr>
      \<lparr>tc_offset = 1, tc_data = [8, 9], tc_is_last = False, tc_total_size = 2\<rparr> 100 sample_memory = (r, t', s') \<and>
    memory_content s' ''/a'' = Some [1, 2, 3, 8, 9] \<and> r = Ok (TransferProgress 3)"
  using announced_size_not_enforced [OF sample_memory_ok(1), of "\<lparr>aw_path = ''/a'', aw_expected_offset = 1, aw_total_size = 2\<rparr>"
      "[1, 2, 3]" "\<lparr>tc_offset = 1, tc_data = [8, 9], tc_is_last = False, tc_total_size = 2\<rparr>" 100] sample_memory_ok(2)
  by (simp add: len_u64_def)

text \<open>C39: The client announces an upload before it opens the file: when the file cannot be
  opened, the upload fails with the open error, the object on the server has been emptied, and
  every later write of the session is refused because the transfer is still active.\<close>

theorem upload_open_failure_blocks_writes:
  assumes "lf_open L src = Inl e" "ms_inv (cn_storage cn)" "cn_channel cn = []" "cn_active_write cn = None" "utf8_valid dst"
    and "fst (ms_put_object (resolve_path dst (cn_current_dir cn)) [] (cn_storage cn)) = Ok ()"
  shows "\<exists>cn'. send_upload dbg (session_channel memory_backend) L src dst n (over m cn) =
      Some (Err (FileOperationError (''Failed to open file '' @ to_string_lossy src @ '': '' @ e)), over m cn') \<and>
    memory_content (cn_storage cn') (resolve_path dst (cn_current_dir cn)) = Some [] \<and>
    (\<forall>p mode k. begin_transfer dbg (session_channel memory_backend) p mode k (over m cn') =
       (Err (InvalidRequest ''Transfer already active''), over m cn'))"
proof -
  obtain t s0 where "begin_object_write memory_backend dst Upload n (cn_current_dir cn) (cn_storage cn) = (Ok t, s0)"
    using memory_begin_write(2) [OF assms(6)] by blast
  from memory_session.upload_open_failure [OF assms(1-5) this] show ?thesis by simp
qed

theorem upload_open_failure_blocks_writes_witness:
  "\<exists>cn'. send_upload (\<lambda>_. []) (session_channel memory_backend) missing_files ''local'' ''b'' 3
      (over connection_manager_new (sample_connection [])) =
      Some (Err (FileOperationError ''Failed to open file local: Permission denied''), over connection_manager_new cn') \<and>
    memory_content (cn_storage cn') ''/b'' = Some [] \<and>
    begin_transfer (\<lambda>_. []) (session_channel memory_backend) ''c'' Write 1 (over connection_manager_new cn') =
       (Err (InvalidRequest ''Transfer already active''), over connection_manager_new cn')"
proof -
  have "resolve_path ''b'' ''/'' = ''/b''" "fst (ms_put_object (resolve_path ''b'' ''/'') [] memory_storage_new) = Ok ()"
    "utf8_valid ''b''" "to_string_lossy ''local'' = ''local''" by code_simp+
  then show ?thesis
    using upload_open_failure_blocks_writes [of missing_files "''local''" "''Permission denied''"
        "sample_connection []" "''b''" "\<lambda>_. []" 3 connection_manager_new] ms_inv_new
    by (auto simp: missing_files_def)
qed

text \<open>C40: The current directory is kept as the client wrote it, not normalised.  In any namespace with a
  subnamespace \<open>n\<close>, \<open>cd n/..\<close> succeeds and leads back to the namespace, but the session's directory is now the text
  that ends in \<open>n/..\<close>; the next \<open>cd ..\<close> drops the last name of that text and so enters \<open>n\<close>,
  instead of the parent of the namespace.\<close>

theorem parent_of_unnormalised_directory:
  assumes "ms_inv s" "names_ok ns" "name_ok n" "tree_of s (ns @ [n]) = Some NamespaceNode"
  shows "let back = abs_path (ns @ [n]) @ ''/..'' in
    process_command memory_backend (ChangeNamespace (n @ ''/..'')) (s, abs_path ns) = (Ok (NamespaceChanged back), (s, back)) \<and>
    normalize_path back = Ok (abs_path ns) \<and>
    process_command memory_backend (ChangeNamespace ''..'') (s, back) =
      (Ok (NamespaceChanged (abs_path (ns @ [n]))), (s, abs_path (ns @ [n])))"
proof -
  note target = change_there_and_back [OF assms(2,3)]
  have "tree_of s ns = Some NamespaceNode"
    using tree_ok_of [OF assms(1)] assms(4) by (auto simp: tree_ok_def)
  then have "process_command memory_backend (ChangeNamespace (n @ ''/..'')) (s, abs_path ns) =
      (Ok (NamespaceChanged (abs_path ((ns @ [n]) @ [''..'']))), (s, abs_path ((ns @ [n]) @ [''..''])))"
    using memory_changes_to [OF assms(1), of "n @ ''/..''" "abs_path ns" ns] back_names [OF assms(2,3)] unfolding target(1) by blast
  moreover have "process_command memory_backend (ChangeNamespace ''..'') (s, abs_path ((ns @ [n]) @ [''..''])) =
      (Ok (NamespaceChanged (abs_path (ns @ [n]))), (s, abs_path (ns @ [n])))"
    using memory_changes_to [OF assms(1) _ assms(4), of "''..''" "abs_path ((ns @ [n]) @ [''..''])"] assms(2,3) unfolding target(2) by simp
  ultimately show ?thesis
    unfolding Let_def back_text normalize_path_eq back_names [OF assms(2,3)] by simp
qed

theorem parent_of_unnormalised_directory_witness:
  "process_command memory_backend (ChangeNamespace ''..'') (snd (ms_create_namespace ''/a'' memory_storage_new), ''/a/..'') =
     (Ok (NamespaceChanged ''/a''), (snd (ms_create_namespace ''/a'' memory_storage_new), ''/a''))"
proof -
  let ?s = "snd (ms_create_namespace ''/a'' memory_storage_new)"
  have "path_names ''/a'' = Some [''a'']" by code_simp
  then have imp: "implements ms_inv tree_of (ms_create_namespace ''/a'') (spec_mkdir (tree_of memory_storage_new) [''a'']) memory_storage_new"
    by (rule ms_mkdir_implements [OF ms_inv_new])
  then have "ms_inv ?s" "tree_of ?s [''a''] = Some NamespaceNode"
    by (auto simp: implements_def tree_of_new root_tree_def spec_mkdir_def)
  moreover have "name_ok ''a''" "abs_path ([] @ [''a'']) @ ''/..'' = ''/a/..''" "abs_path ([] @ [''a'']) = ''/a''" by code_simp+
  ultimately show ?thesis
    using parent_of_unnormalised_directory [of ?s "[]" "''a''"] unfolding Let_def by simp
qed

end
